(* ===== verification/SNM_Prelude.thy ===== *)
theory SNM_Prelude
  imports Complex_Main "HOL-Library.Word" "HOL-Library.Char_ord" "HOL-Library.List_Lexorder"
    "HOL-Library.Product_Lexorder"
begin

text \<open>
  Shared vocabulary of the development: Rust's \<open>Result\<close> as a sum with a bind, the byte-level
  model of Rust strings (a \<open>String\<close> is its UTF-8 byte sequence, so \<open>length\<close> is \<open>str::len\<close>),
  the string operations of the standard library that the source calls, saturating 64-bit
  arithmetic, table updates (\<open>UPDATE .. WHERE\<close>), and two interface locales used by several
  components: string codecs of enums and machines with an invariant.
\<close>

named_theorems result_simps \<open>equations and inversions of the result bind\<close>
named_theorems str_simps \<open>facts on the byte-level string operations\<close>
named_theorems table_simps \<open>facts on table updates\<close>

section \<open>Types\<close>

type_synonym bytes = string
type_synonym uuid = "128 word"
type_synonym i64 = int
type_synonym i32 = int
type_synonym timestamp = int

section \<open>Results\<close>

fun bindR :: "'e + 'a \<Rightarrow> ('a \<Rightarrow> 'e + 'b) \<Rightarrow> 'e + 'b" where
  "bindR (Inl e) f = Inl e"
| "bindR (Inr x) f = f x"

definition ensure :: "bool \<Rightarrow> 'e \<Rightarrow> 'e + unit" where
  "ensure b e = (if b then Inr () else Inl e)"

definition ok_or :: "'e \<Rightarrow> 'a option \<Rightarrow> 'e + 'a" where
  "ok_or e x = (case x of None \<Rightarrow> Inl e | Some y \<Rightarrow> Inr y)"

definition map_err :: "('e \<Rightarrow> 'f) \<Rightarrow> 'e + 'a \<Rightarrow> 'f + 'a" where
  "map_err f r = (case r of Inl e \<Rightarrow> Inl (f e) | Inr x \<Rightarrow> Inr x)"

definition is_ok :: "'e + 'a \<Rightarrow> bool" where
  "is_ok r = (case r of Inl _ \<Rightarrow> False | Inr _ \<Rightarrow> True)"

text \<open>\<open>for x in xs { f(x)?; }\<close>: the first error ends the loop.\<close>

fun for_eachR :: "('a \<Rightarrow> 'e + unit) \<Rightarrow> 'a list \<Rightarrow> 'e + unit" where
  "for_eachR f [] = Inr ()"
| "for_eachR f (x # xs) = bindR (f x) (\<lambda>_. for_eachR f xs)"

text \<open>The same loop with a state threaded through its body.\<close>

fun foldR :: "('a \<Rightarrow> 's \<Rightarrow> 'e + 's) \<Rightarrow> 'a list \<Rightarrow> 's \<Rightarrow> 'e + 's" where
  "foldR f [] s = Inr s"
| "foldR f (x # xs) s = bindR (f x s) (foldR f xs)"

lemma bindR_cong [fundef_cong]:
  "m = m' \<Longrightarrow> (\<And>x. m' = Inr x \<Longrightarrow> f x = f' x) \<Longrightarrow> bindR m f = bindR m' f'"
  by (cases m') auto

lemma bindR_Inr_iff [result_simps]:
  "bindR m f = Inr y \<longleftrightarrow> (\<exists>x. m = Inr x \<and> f x = Inr y)"
  by (cases m) auto

lemma bindR_Inl_iff [result_simps]:
  "bindR m f = Inl e \<longleftrightarrow> m = Inl e \<or> (\<exists>x. m = Inr x \<and> f x = Inl e)"
  by (cases m) auto

lemma ensure_Inr_iff [result_simps]: "ensure b e = Inr u \<longleftrightarrow> b"
  by (simp add: ensure_def)

lemma ensure_Inl_iff [result_simps]: "ensure b e = Inl e' \<longleftrightarrow> \<not> b \<and> e' = e"
  by (auto simp: ensure_def)

lemma ensure_True [simp]: "ensure True e = Inr ()"
  by (simp add: ensure_def)

lemma ensure_False [simp]: "ensure False e = Inl e"
  by (simp add: ensure_def)

lemma ok_or_Inr_iff [result_simps]: "ok_or e x = Inr y \<longleftrightarrow> x = Some y"
  by (simp add: ok_or_def split: option.split)

lemma ok_or_Inl_iff [result_simps]: "ok_or e x = Inl e' \<longleftrightarrow> x = None \<and> e' = e"
  by (auto simp: ok_or_def split: option.split)

lemma ok_or_simps [simp]: "ok_or e (Some y) = Inr y" "ok_or e None = Inl e"
  by (simp_all add: ok_or_def)

lemma map_err_Inr_iff [result_simps]: "map_err f r = Inr x \<longleftrightarrow> r = Inr x"
  by (simp add: map_err_def split: sum.split)

lemma map_err_Inl_iff [result_simps]: "map_err f r = Inl e \<longleftrightarrow> (\<exists>d. r = Inl d \<and> e = f d)"
  by (auto simp: map_err_def split: sum.split)

lemma map_err_simps [simp]: "map_err f (Inr x) = Inr x" "map_err f (Inl e) = Inl (f e)"
  by (simp_all add: map_err_def)

lemma is_ok_iff [result_simps]: "is_ok r \<longleftrightarrow> (\<exists>x. r = Inr x)"
  by (cases r) (auto simp: is_ok_def)

lemma is_ok_simps [simp]: "is_ok (Inr x)" "\<not> is_ok (Inl e)"
  by (simp_all add: is_ok_def)

lemma for_eachR_Inr_iff [result_simps]:
  "for_eachR f xs = Inr u \<longleftrightarrow> (\<forall>x \<in> set xs. f x = Inr ())"
  by (induction xs) (auto simp: bindR_Inr_iff)

lemma is_ok_pair: "is_ok (snd p) \<Longrightarrow> \<exists>a x. p = (a, Inr x)"
  by (cases p) (auto simp: is_ok_iff)

text \<open>An invariant of the loop body is an invariant of the loop.\<close>

lemma foldR_invariant:
  assumes "foldR f xs s = Inr t" and "P s"
    and "\<And>x a b. x \<in> set xs \<Longrightarrow> f x a = Inr b \<Longrightarrow> P a \<Longrightarrow> P b"
  shows "P t"
  using assms
proof (induction xs arbitrary: s)
  case (Cons x xs)
  then obtain a where a: "f x s = Inr a" "foldR f xs a = Inr t"
    by (auto simp: bindR_Inr_iff)
  with Cons.prems have "P a" by auto
  with a Cons show ?case by auto
qed simp

section \<open>Integers\<close>

definition i64_min :: i64 where "i64_min = - (2 ^ 63)"
definition i64_max :: i64 where "i64_max = 2 ^ 63 - 1"

definition in_i64 :: "int \<Rightarrow> bool" where
  "in_i64 x \<longleftrightarrow> i64_min \<le> x \<and> x \<le> i64_max"

definition sat64 :: "int \<Rightarrow> i64" where
  "sat64 x = max i64_min (min i64_max x)"

text \<open>\<open>i64::saturating_add\<close> and \<open>i64::saturating_sub\<close>.\<close>

definition saturating_add64 :: "i64 \<Rightarrow> i64 \<Rightarrow> i64" where
  "saturating_add64 a b = sat64 (a + b)"

definition saturating_sub64 :: "i64 \<Rightarrow> i64 \<Rightarrow> i64" where
  "saturating_sub64 a b = sat64 (a - b)"

text \<open>\<open>Ord::clamp\<close>.\<close>

definition clampi :: "int \<Rightarrow> int \<Rightarrow> int \<Rightarrow> int" where
  "clampi lo hi x = (if x < lo then lo else if hi < x then hi else x)"

text \<open>\<open>i32::try_from\<close> of an integer of a wider type.\<close>

definition i32_try_from :: "int \<Rightarrow> i32 option" where
  "i32_try_from x = (if - (2 ^ 31) \<le> x \<and> x \<le> 2 ^ 31 - 1 then Some x else None)"

lemma sat64_id [simp]: "in_i64 x \<Longrightarrow> sat64 x = x"
  by (simp add: in_i64_def sat64_def)

lemma sat64_range: "in_i64 (sat64 x)"
  by (simp add: in_i64_def sat64_def i64_min_def i64_max_def)

lemma clampi_bounds: "lo \<le> hi \<Longrightarrow> lo \<le> clampi lo hi x \<and> clampi lo hi x \<le> hi"
  by (simp add: clampi_def)

section \<open>Strings\<close>

definition code_of :: "char \<Rightarrow> int" where
  "code_of c = of_char c"

definition is_ascii_digit :: "char \<Rightarrow> bool" where
  "is_ascii_digit c \<longleftrightarrow> 48 \<le> code_of c \<and> code_of c \<le> 57"

definition is_ascii_lowercase :: "char \<Rightarrow> bool" where
  "is_ascii_lowercase c \<longleftrightarrow> 97 \<le> code_of c \<and> code_of c \<le> 122"

definition is_ascii_uppercase :: "char \<Rightarrow> bool" where
  "is_ascii_uppercase c \<longleftrightarrow> 65 \<le> code_of c \<and> code_of c \<le> 90"

definition is_ascii_hexdigit :: "char \<Rightarrow> bool" where
  "is_ascii_hexdigit c \<longleftrightarrow> is_ascii_digit c
     \<or> (97 \<le> code_of c \<and> code_of c \<le> 102) \<or> (65 \<le> code_of c \<and> code_of c \<le> 70)"

definition is_ascii_alphanumeric :: "char \<Rightarrow> bool" where
  "is_ascii_alphanumeric c \<longleftrightarrow> is_ascii_digit c \<or> is_ascii_lowercase c \<or> is_ascii_uppercase c"

definition lower_char :: "char \<Rightarrow> char" where
  "lower_char c = (if is_ascii_uppercase c then char_of (code_of c + 32) else c)"

definition to_ascii_lowercase :: "string \<Rightarrow> string" where
  "to_ascii_lowercase = map lower_char"

definition starts_with :: "string \<Rightarrow> string \<Rightarrow> bool" where
  "starts_with p s \<longleftrightarrow> take (length p) s = p"

definition ends_with :: "string \<Rightarrow> string \<Rightarrow> bool" where
  "ends_with p s \<longleftrightarrow> starts_with (rev p) (rev s)"

definition strip_prefix :: "string \<Rightarrow> string \<Rightarrow> string option" where
  "strip_prefix p s = (if starts_with p s then Some (drop (length p) s) else None)"

fun contains_str :: "string \<Rightarrow> string \<Rightarrow> bool" where
  "contains_str p [] \<longleftrightarrow> p = []"
| "contains_str p (c # s) \<longleftrightarrow> starts_with p (c # s) \<or> contains_str p s"

text \<open>\<open>str::split\<close> on a character: always at least one piece.\<close>

fun split_on :: "char \<Rightarrow> string \<Rightarrow> string list" where
  "split_on d [] = [[]]"
| "split_on d (c # s) =
     (if c = d then [] # split_on d s
      else (case split_on d s of [] \<Rightarrow> [[c]] | p # ps \<Rightarrow> (c # p) # ps))"

text \<open>\<open>str::split_once\<close> on a character.\<close>

fun split_once :: "char \<Rightarrow> string \<Rightarrow> (string \<times> string) option" where
  "split_once d [] = None"
| "split_once d (c # s) =
     (if c = d then Some ([], s)
      else map_option (\<lambda>(a, b). (c # a, b)) (split_once d s))"

definition trim_end_matches :: "char \<Rightarrow> string \<Rightarrow> string" where
  "trim_end_matches d s = rev (dropWhile (\<lambda>c. c = d) (rev s))"

subsection \<open>Trimming Unicode white space\<close>

text \<open>
  \<open>char::is_whitespace\<close> is the Unicode property \<open>White_Space\<close>. In UTF-8 these are the bytes
  9 to 13 and 32, the two-byte sequences C2 85 and C2 A0, and the three-byte sequences
  E1 9A 80, E2 80 80 to E2 80 8A, E2 80 A8, E2 80 A9, E2 80 AF, E2 81 9F and E3 80 80. \<open>ws_seq\<close>
  recognises one such sequence. Trimming removes them from the front, and from the back on
  the reversed bytes.
\<close>

definition ws1 :: "int \<Rightarrow> bool" where
  "ws1 a \<longleftrightarrow> (9 \<le> a \<and> a \<le> 13) \<or> a = 32"

definition ws2 :: "int \<Rightarrow> int \<Rightarrow> bool" where
  "ws2 a b \<longleftrightarrow> a = 194 \<and> (b = 133 \<or> b = 160)"

definition ws3 :: "int \<Rightarrow> int \<Rightarrow> int \<Rightarrow> bool" where
  "ws3 a b c \<longleftrightarrow> (a = 225 \<and> b = 154 \<and> c = 128)
     \<or> (a = 226 \<and> b = 128 \<and> ((128 \<le> c \<and> c \<le> 138) \<or> c = 168 \<or> c = 169 \<or> c = 175))
     \<or> (a = 226 \<and> b = 129 \<and> c = 159)
     \<or> (a = 227 \<and> b = 128 \<and> c = 128)"

definition ws_seq :: "string \<Rightarrow> bool" where
  "ws_seq s = (case map code_of s of
      [a] \<Rightarrow> ws1 a
    | [a, b] \<Rightarrow> ws2 a b
    | [a, b, c] \<Rightarrow> ws3 a b c
    | _ \<Rightarrow> False)"

text \<open>Length of the white-space sequence at the front, 0 when there is none.\<close>

definition ws_front :: "string \<Rightarrow> nat" where
  "ws_front s = (if ws_seq (take 1 s) then 1 else if ws_seq (take 2 s) then 2
     else if ws_seq (take 3 s) then 3 else 0)"

definition ws_back :: "string \<Rightarrow> nat" where
  "ws_back r = (if ws_seq (rev (take 1 r)) then 1 else if ws_seq (rev (take 2 r)) then 2
     else if ws_seq (rev (take 3 r)) then 3 else 0)"

lemma ws_seq_Nil [simp]: "\<not> ws_seq []"
  by (simp add: ws_seq_def)

lemma ws_front_Nil [simp]: "ws_front [] = 0"
  by (simp add: ws_front_def)

lemma ws_back_Nil [simp]: "ws_back [] = 0"
  by (simp add: ws_back_def)

lemma ws_front_drop_less: "ws_front s \<noteq> 0 \<Longrightarrow> length (drop (ws_front s) s) < length s"
  by (cases s) auto

lemma ws_back_drop_less: "ws_back s \<noteq> 0 \<Longrightarrow> length (drop (ws_back s) s) < length s"
  by (cases s) auto

function trim_start :: "string \<Rightarrow> string" where
  "trim_start s = (if ws_front s = 0 then s else trim_start (drop (ws_front s) s))"
  by pat_completeness auto
termination
  by (relation "measure length") (use ws_front_drop_less in simp_all)

function trim_back :: "string \<Rightarrow> string" where
  "trim_back r = (if ws_back r = 0 then r else trim_back (drop (ws_back r) r))"
  by pat_completeness auto
termination
  by (relation "measure length") (use ws_back_drop_less in simp_all)

declare trim_start.simps [simp del] trim_back.simps [simp del]

definition trim_end :: "string \<Rightarrow> string" where
  "trim_end s = rev (trim_back (rev s))"

definition trim :: "string \<Rightarrow> string" where
  "trim s = trim_end (trim_start s)"

lemma trim_start_Nil [simp]: "trim_start [] = []"
  by (subst trim_start.simps) simp

lemma trim_back_Nil [simp]: "trim_back [] = []"
  by (subst trim_back.simps) simp

lemma trim_Nil [simp]: "trim [] = []"
  by (simp add: trim_def trim_end_def)

lemma trim_start_drop: "\<exists>n. trim_start s = drop n s"
proof (induction s rule: trim_start.induct)
  case (1 s)
  show ?case
  proof (cases "ws_front s = 0")
    case True
    then have "trim_start s = drop 0 s" by (subst trim_start.simps) simp
    then show ?thesis by blast
  next
    case False
    with 1 obtain n where "trim_start (drop (ws_front s) s) = drop n (drop (ws_front s) s)"
      by blast
    with False have "trim_start s = drop (n + ws_front s) s"
      by (subst trim_start.simps) simp
    then show ?thesis by blast
  qed
qed

lemma trim_back_drop: "\<exists>n. trim_back s = drop n s"
proof (induction s rule: trim_back.induct)
  case (1 s)
  show ?case
  proof (cases "ws_back s = 0")
    case True
    then have "trim_back s = drop 0 s" by (subst trim_back.simps) simp
    then show ?thesis by blast
  next
    case False
    with 1 obtain n where "trim_back (drop (ws_back s) s) = drop n (drop (ws_back s) s)"
      by blast
    with False have "trim_back s = drop (n + ws_back s) s"
      by (subst trim_back.simps) simp
    then show ?thesis by blast
  qed
qed

lemma ws_front_trim_start [str_simps]: "ws_front (trim_start s) = 0"
  by (induction s rule: trim_start.induct) (metis trim_start.simps)

lemma ws_back_trim_back [str_simps]: "ws_back (trim_back s) = 0"
  by (induction s rule: trim_back.induct) (metis trim_back.simps)

lemma trim_start_id [str_simps]: "ws_front s = 0 \<Longrightarrow> trim_start s = s"
  by (subst trim_start.simps) simp

lemma trim_back_id [str_simps]: "ws_back s = 0 \<Longrightarrow> trim_back s = s"
  by (subst trim_back.simps) simp

lemma trim_end_take: "\<exists>n. trim_end s = take n s"
proof -
  obtain n where "trim_back (rev s) = drop n (rev s)" using trim_back_drop by blast
  then have "trim_end s = take (length s - n) s"
    by (simp add: trim_end_def rev_drop)
  then show ?thesis by blast
qed

lemma trim_end_trim_end: "trim_end (trim_end s) = trim_end s"
  by (simp add: trim_end_def str_simps)

text \<open>A prefix starts with white space only if the whole string does.\<close>

lemma ws_front_take: "ws_front s = 0 \<Longrightarrow> ws_front (take n s) = 0"
proof -
  assume s: "ws_front s = 0"
  have no: "\<not> ws_seq (take j s)" if "j \<le> 3" for j
  proof -
    from that consider "j = 0" | "j = 1" | "j = 2" | "j = 3" by linarith
    then show ?thesis using s by cases (auto simp: ws_front_def split: if_splits)
  qed
  then show ?thesis by (simp add: ws_front_def min_def)
qed

theorem trim_trim [str_simps]: "trim (trim s) = trim s"
proof -
  obtain n where n: "trim_end (trim_start s) = take n (trim_start s)"
    using trim_end_take by blast
  have "ws_front (take n (trim_start s)) = 0"
    by (rule ws_front_take) (rule ws_front_trim_start)
  then show ?thesis
    by (simp add: trim_def n [symmetric] trim_start_id trim_end_trim_end)
qed

lemma length_trim_le: "length (trim s) \<le> length s"
proof -
  obtain n m where "trim_start s = drop n s" "trim_end (drop n s) = take m (drop n s)"
    using trim_start_drop trim_end_take by metis
  then show ?thesis by (simp add: trim_def)
qed

subsection \<open>Lower case\<close>

lemma code_of_char_of [str_simps]: "0 \<le> n \<Longrightarrow> n < 256 \<Longrightarrow> code_of (char_of n) = n"
  by (simp add: code_of_def)

lemma code_of_inj: "code_of c = code_of d \<longleftrightarrow> c = d"
  by (simp add: code_of_def)

lemma code_of_less: "0 \<le> code_of c" "code_of c < 256"
  by (simp_all add: code_of_def of_char_def) 

lemma is_ascii_uppercase_lower_char [str_simps]: "\<not> is_ascii_uppercase (lower_char c)"
  by (simp add: lower_char_def is_ascii_uppercase_def str_simps)

lemma lower_char_lower_char [str_simps]: "lower_char (lower_char c) = lower_char c"
  using is_ascii_uppercase_lower_char [of c] by (simp add: lower_char_def [of "lower_char c"])

lemma lowercase_idem [str_simps]:
  "to_ascii_lowercase (to_ascii_lowercase s) = to_ascii_lowercase s"
  by (simp add: to_ascii_lowercase_def str_simps)

lemma lowercase_Nil_iff [simp]: "to_ascii_lowercase s = [] \<longleftrightarrow> s = []"
  by (simp add: to_ascii_lowercase_def)

lemma lowercase_append [str_simps]:
  "to_ascii_lowercase (s @ t) = to_ascii_lowercase s @ to_ascii_lowercase t"
  by (simp add: to_ascii_lowercase_def)

lemma hexdigit_lower [str_simps]: "is_ascii_hexdigit c \<Longrightarrow> is_ascii_hexdigit (lower_char c)"
  by (auto simp: is_ascii_hexdigit_def is_ascii_digit_def lower_char_def
      is_ascii_uppercase_def str_simps)

subsection \<open>Prefixes, substrings, splitting\<close>

lemma starts_with_append [simp]: "starts_with p (p @ s)"
  by (simp add: starts_with_def)

lemma starts_with_iff: "starts_with p s \<longleftrightarrow> (\<exists>t. s = p @ t)"
  by (metis append_eq_conv_conj append_take_drop_id starts_with_def)

lemma strip_prefix_append [simp]: "strip_prefix p (p @ s) = Some s"
  by (simp add: strip_prefix_def)

lemma strip_prefix_Some_iff [str_simps]: "strip_prefix p s = Some t \<longleftrightarrow> s = p @ t"
  by (auto simp: strip_prefix_def starts_with_iff split: if_splits)

lemma contains_str_iff: "contains_str p s \<longleftrightarrow> (\<exists>a b. s = a @ p @ b)"
proof (induction s)
  case (Cons c s)
  have "(\<exists>a b. c # s = a @ p @ b) \<longleftrightarrow> (\<exists>b. c # s = p @ b) \<or> (\<exists>a b. s = a @ p @ b)"
    (is "?L \<longleftrightarrow> ?R")
  proof
    assume ?L
    then obtain a b where ab: "c # s = a @ p @ b" by blast
    show ?R
    proof (cases a)
      case Nil
      with ab show ?thesis by auto
    next
      case (Cons x a')
      with ab have "s = a' @ p @ b" by simp
      then show ?thesis by blast
    qed
  next
    assume ?R
    then show ?L
    proof
      assume "\<exists>b. c # s = p @ b"
      then obtain b where "c # s = [] @ p @ b" by auto
      then show ?L by blast
    next
      assume "\<exists>a b. s = a @ p @ b"
      then obtain a b where "c # s = (c # a) @ p @ b" by auto
      then show ?L by blast
    qed
  qed
  then show ?case by (simp add: Cons.IH starts_with_iff)
qed simp

lemma contains_char_iff: "contains_str [d] s \<longleftrightarrow> d \<in> set s"
  by (simp add: contains_str_iff in_set_conv_decomp)

lemma split_on_nonempty [simp]: "split_on d s \<noteq> []"
  by (induction s) (auto split: list.split)

lemma split_on_no_sep: "d \<notin> set s \<Longrightarrow> split_on d s = [s]"
  by (induction s) auto

lemma split_on_append:
  "d \<notin> set s \<Longrightarrow> split_on d (s @ d # t) = s # split_on d t"
  by (induction s) auto

lemma split_on_pieces: "p \<in> set (split_on d s) \<Longrightarrow> d \<notin> set p"
  by (induction s arbitrary: p) (auto split: list.splits if_splits)

text \<open>Joining the pieces with the separator gives the string back.\<close>

fun join_with :: "char \<Rightarrow> string list \<Rightarrow> string" where
  "join_with d [] = []"
| "join_with d [p] = p"
| "join_with d (p # q # ps) = p @ d # join_with d (q # ps)"

lemma join_split: "join_with d (split_on d s) = s"
proof (induction s)
  case (Cons c s)
  then show ?case
  proof (cases "split_on d s")
    case (Cons p ps)
    then show ?thesis using \<open>join_with d (split_on d s) = s\<close> by (cases ps) auto
  qed (use split_on_nonempty in blast)
qed simp

lemma split_once_Some_iff:
  "split_once d s = Some (a, b) \<longleftrightarrow> s = a @ d # b \<and> d \<notin> set a"
proof (induction s arbitrary: a)
  case (Cons c s)
  then show ?case by (cases a) auto
qed simp

section \<open>Tables\<close>

text \<open>\<open>UPDATE t SET f WHERE p\<close> on a table held as the list of its rows, and the number of rows
  it affects.\<close>

definition upd_where :: "('r \<Rightarrow> bool) \<Rightarrow> ('r \<Rightarrow> 'r) \<Rightarrow> 'r list \<Rightarrow> 'r list" where
  "upd_where p f rows = map (\<lambda>r. if p r then f r else r) rows"

definition rows_affected :: "('r \<Rightarrow> bool) \<Rightarrow> 'r list \<Rightarrow> nat" where
  "rows_affected p rows = length (filter p rows)"

lemma length_upd_where [table_simps]: "length (upd_where p f rows) = length rows"
  by (simp add: upd_where_def)

lemma set_upd_where [table_simps]:
  "set (upd_where p f rows) = (\<lambda>r. if p r then f r else r) ` set rows"
  by (simp add: upd_where_def)

lemma map_upd_where [table_simps]:
  "(\<And>r. p r \<Longrightarrow> k (f r) = k r) \<Longrightarrow> map k (upd_where p f rows) = map k rows"
  by (simp add: upd_where_def)

lemma upd_where_none: "\<forall>r \<in> set rows. \<not> p r \<Longrightarrow> upd_where p f rows = rows"
  by (induction rows) (auto simp: upd_where_def)

lemma rows_affected_0_iff [table_simps]:
  "rows_affected p rows = 0 \<longleftrightarrow> (\<forall>r \<in> set rows. \<not> p r)"
  by (simp add: rows_affected_def filter_empty_conv)

lemma find_Some_set: "List.find p xs = Some x \<Longrightarrow> x \<in> set xs \<and> p x"
  by (metis find_Some_iff nth_mem)

lemma find_None_set [table_simps]: "List.find p xs = None \<longleftrightarrow> (\<forall>x \<in> set xs. \<not> p x)"
  by (auto simp: find_None_iff)

text \<open>With a key that no two rows share, the row found under a key is the only one.\<close>

lemma distinct_key_unique:
  "distinct (map k rows) \<Longrightarrow> r \<in> set rows \<Longrightarrow> r' \<in> set rows \<Longrightarrow> k r = k r' \<Longrightarrow> r = r'"
  by (auto simp: distinct_map dest: inj_onD)

lemma find_key_unique:
  assumes "distinct (map k rows)" and "r \<in> set rows"
  shows "List.find (\<lambda>x. k x = k r) rows = Some r"
proof (cases "List.find (\<lambda>x. k x = k r) rows")
  case None
  with assms show ?thesis by (auto simp: find_None_set)
next
  case (Some x)
  then have "x \<in> set rows" "k x = k r" using find_Some_set by fastforce+
  with assms Some show ?thesis by (metis distinct_key_unique)
qed

lemma rows_affected_key:
  assumes "distinct (map k rows)"
  shows "rows_affected (\<lambda>r. k r = x \<and> q r) rows
    = (if \<exists>r \<in> set rows. k r = x \<and> q r then 1 else 0)"
  using assms by (induction rows) (auto simp: rows_affected_def filter_empty_conv image_iff)

text \<open>Looking a key up after an update of the rows with another key, and after an insert.\<close>

lemma find_upd_where_key:
  assumes "\<And>x. k x = i \<Longrightarrow> k (f x) = i"
  shows "List.find (\<lambda>c. k c = j) (upd_where (\<lambda>c. k c = i) f rows)
    = (if j = i then map_option f (List.find (\<lambda>c. k c = i) rows)
       else List.find (\<lambda>c. k c = j) rows)"
  using assms by (induction rows) (auto simp: upd_where_def)

lemma find_append_new:
  "\<forall>x \<in> set xs. \<not> p x \<Longrightarrow> List.find p (xs @ [y]) = (if p y then Some y else None)"
  by (induction xs) auto

lemma find_append_old:
  "List.find p xs = Some x \<Longrightarrow> List.find p (xs @ ys) = Some x"
  by (induction xs) (auto split: if_splits)

lemma find_append_other: "\<not> p y \<Longrightarrow> List.find p (xs @ [y]) = List.find p xs"
  by (induction xs) auto

lemma rows_affected_1D: "rows_affected p rows = 1 \<Longrightarrow> \<exists>r \<in> set rows. p r"
  by (metis rows_affected_0_iff zero_neq_one)

lemma rows_affected_find: "rows_affected p rows = 1 \<Longrightarrow> \<exists>r. List.find p rows = Some r"
  using rows_affected_1D [of p rows] by (cases "List.find p rows") (auto simp: find_None_set)

lemma ex_unit_iff [result_simps]: "(\<exists>x :: unit. P x) \<longleftrightarrow> P ()"
  by auto

text \<open>\<open>ORDER BY\<close> a key is \<open>sort_key\<close>; a new row with the greatest key comes last.\<close>

lemma insort_key_last: "f a \<le> f x \<Longrightarrow> insort_key f a (ys @ [x]) = insort_key f a ys @ [x]"
  by (induction ys) auto

lemma sort_key_append_last:
  "\<forall>y \<in> set xs. f y \<le> f x \<Longrightarrow> sort_key f (xs @ [x]) = sort_key f xs @ [x]"
  by (induction xs) (simp_all add: insort_key_last)

text \<open>\<open>INSERT\<close> of a row, refused when a row of the table clashes with it on a unique key.\<close>

definition insert_unless :: "'e \<Rightarrow> ('r \<Rightarrow> bool) \<Rightarrow> 'r \<Rightarrow> 'r list \<Rightarrow> 'e + 'r list" where
  "insert_unless e clash r rows = (if list_ex clash rows then Inl e else Inr (rows @ [r]))"

lemma insert_unless_Inr_iff [table_simps]:
  "insert_unless e clash r rows = Inr rows' \<longleftrightarrow>
     rows' = rows @ [r] \<and> (\<forall>q \<in> set rows. \<not> clash q)"
  by (auto simp: insert_unless_def list_ex_iff)

lemma insert_unless_Inl_iff [table_simps]:
  "insert_unless e clash r rows = Inl e' \<longleftrightarrow> e' = e \<and> (\<exists>q \<in> set rows. clash q)"
  by (auto simp: insert_unless_def list_ex_iff)

text \<open>\<open>INSERT .. ON CONFLICT (key) DO UPDATE .. RETURNING\<close>: the row under the key is updated, or the new row
  is inserted unless it clashes with another unique key; the row that was found or inserted is
  returned.\<close>

definition upsert ::
  "'e \<Rightarrow> ('r \<Rightarrow> bool) \<Rightarrow> ('r \<Rightarrow> bool) \<Rightarrow> 'r \<Rightarrow> ('r \<Rightarrow> 'r) \<Rightarrow> 'r list \<Rightarrow> 'e + ('r list \<times> 'r)" where
  "upsert e key clash new upd rows = (case List.find key rows of
       Some r \<Rightarrow> Inr (upd_where key upd rows, r)
     | None \<Rightarrow> if list_ex clash rows then Inl e else Inr (rows @ [new], new))"

lemma upsert_cases:
  assumes "upsert e key clash new upd rows = Inr (rows', r)"
  obtains (updated) "r \<in> set rows" "key r" "rows' = upd_where key upd rows"
  | (inserted) "r = new" "rows' = rows @ [new]" "\<forall>q \<in> set rows. \<not> key q \<and> \<not> clash q"
  using assms find_Some_set [of key rows r]
  by (auto simp: upsert_def find_None_set list_ex_iff split: option.splits if_splits)

lemma find_upd_where_self:
  "(\<And>x. key x \<Longrightarrow> key (f x)) \<Longrightarrow> List.find key (upd_where key f rows) = map_option f (List.find key rows)"
  by (induction rows) (auto simp: upd_where_def)

lemma upd_where_idem:
  "(\<And>x. key x \<Longrightarrow> g (f x) = f x) \<Longrightarrow> upd_where key g (upd_where key f rows) = upd_where key f rows"
  by (induction rows) (auto simp: upd_where_def)

text \<open>A second upsert under the key finds the row of the first and, when its update has nothing left to
  change, leaves the table as it is.\<close>

lemma upsert_again:
  assumes "upsert e key clash new upd rows = Inr (rows', r)"
    and "\<And>x. key x \<Longrightarrow> key (upd x)" "\<And>x. k (upd x) = k x" "key new"
    and "\<And>x. upd2 (upd x) = upd x" "upd2 new = new"
  shows "\<exists>r'. upsert e key clash2 new2 upd2 rows' = Inr (rows', r') \<and> k r' = k r"
proof (cases "List.find key rows")
  case None
  then have r: "rows' = rows @ [new]" "r = new"
    using assms(1) by (auto simp: upsert_def split: if_splits)
  have none: "\<forall>x \<in> set rows. \<not> key x" using None by (simp add: find_None_set)
  then have "List.find key rows' = Some new" using assms(4) by (simp add: r find_append_new)
  moreover have "upd_where key upd2 rows' = rows'"
    using none assms(6) upd_where_none [OF none, of upd2] by (simp add: r upd_where_def)
  ultimately show ?thesis by (simp add: upsert_def r(2))
next
  case (Some x)
  then have r: "rows' = upd_where key upd rows" "r = x"
    using assms(1) by (auto simp: upsert_def)
  have "List.find key rows' = Some (upd x)"
    using Some assms(2) by (simp add: r find_upd_where_self)
  moreover have "upd_where key upd2 rows' = rows'" using assms(5) by (simp add: r upd_where_idem)
  ultimately show ?thesis using assms(3) by (simp add: upsert_def r(2))
qed

section \<open>Interfaces shared by several components\<close>

text \<open>
  Enums travel through the database and the wire as strings: \<open>as_str\<close> writes them, a parser
  reads them back. The contract is a partial inverse on both sides.
\<close>

locale string_codec =
  fixes as_str :: "'a \<Rightarrow> string"
    and parse :: "string \<Rightarrow> 'e + 'a"
  assumes parse_as_str: "parse (as_str x) = Inr x"
    and parse_sound: "parse s = Inr x \<Longrightarrow> s = as_str x"
begin

lemma as_str_inj: "as_str x = as_str y \<longleftrightarrow> x = y"
  by (metis parse_as_str sum.inject(2))

lemma parse_Inr_iff: "parse s = Inr x \<longleftrightarrow> s = as_str x"
  using parse_as_str parse_sound by blast

lemma parse_fails_iff: "(\<exists>e. parse s = Inl e) \<longleftrightarrow> s \<notin> range as_str"
proof (cases "parse s")
  case (Inl e)
  then show ?thesis by (auto simp: parse_as_str)
next
  case (Inr x)
  then show ?thesis using parse_sound by auto
qed

end

text \<open>
  A store whose operations are the steps of a transition relation and keep an invariant; a
  store whose steps moreover only move forward in a preorder (rows are only added, terminal
  states stay terminal).
\<close>

locale invariant_machine =
  fixes step :: "'s \<Rightarrow> 's \<Rightarrow> bool"
    and inv :: "'s \<Rightarrow> bool"
  assumes step_inv: "step s t \<Longrightarrow> inv s \<Longrightarrow> inv t"
begin

lemma reach_inv: "step\<^sup>*\<^sup>* s t \<Longrightarrow> inv s \<Longrightarrow> inv t"
  by (induction rule: rtranclp_induct) (auto dest: step_inv)

end

locale forward_machine = invariant_machine step inv
  for step :: "'s \<Rightarrow> 's \<Rightarrow> bool" and inv :: "'s \<Rightarrow> bool" +
  fixes fwd :: "'s \<Rightarrow> 's \<Rightarrow> bool"
  assumes fwd_refl: "fwd s s"
    and fwd_trans: "fwd s t \<Longrightarrow> fwd t u \<Longrightarrow> fwd s u"
    and step_fwd: "step s t \<Longrightarrow> inv s \<Longrightarrow> fwd s t"
begin

lemma reach_fwd:
  assumes "step\<^sup>*\<^sup>* s t" and "inv s"
  shows "fwd s t"
  using assms
proof (induction rule: rtranclp_induct)
  case base
  show ?case by (rule fwd_refl)
next
  case (step t u)
  then have "inv t" by (blast intro: reach_inv)
  with step show ?case by (blast intro: fwd_trans step_fwd)
qed

end

end
