(* ===== verification/Redaction.thy ===== *)
theory Redaction
  imports SNM_Prelude
begin

text \<open>
  JSON values (\<open>serde_json::Value\<close>) and the two redactors of the code: \<open>redact_value\<close>
  (crates/domain/src/governance.rs) with \<open>sanitize_json\<close> (crates/security/src/audit.rs), applied
  to every audit event before it is hashed and stored, and \<open>redact_json\<close> with
  \<open>is_sensitive_key\<close> (crates/observability/src/lib.rs). Both satisfy the contract \<open>redactor\<close>:
  idempotence, absence of secrets and independence of the secret values are proved once from it.
\<close>

section \<open>JSON\<close>

text \<open>A number is kept as its text; an object as its list of entries, in the map's order.\<close>

datatype json =
    JNull
  | JBool bool
  | JNumber string
  | JString string
  | JArray "json list"
  | JObject "(string \<times> json) list"

fun json_leaf :: "json \<Rightarrow> bool" where
  "json_leaf (JArray _) = False"
| "json_leaf (JObject _) = False"
| "json_leaf _ = True"

text \<open>A \<open>serde_json::Map\<close> holds no key twice.\<close>

fun json_wf :: "json \<Rightarrow> bool" where
  "json_wf (JArray xs) = list_all json_wf xs"
| "json_wf (JObject kvs) = (distinct (map fst kvs) \<and> list_all (\<lambda>kv. json_wf (snd kv)) kvs)"
| "json_wf _ = True"

definition redacted :: string where
  "redacted = ''[REDACTED]''"

section \<open>The contract of a redactor\<close>

text \<open>\<open>json_clean sens j\<close>: under a sensitive key stands the marker and nothing else.\<close>

fun json_clean :: "(string \<Rightarrow> bool) \<Rightarrow> json \<Rightarrow> bool" where
  "json_clean sens (JArray xs) = list_all (json_clean sens) xs"
| "json_clean sens (JObject kvs) =
     list_all (\<lambda>kv. if sens (fst kv) then snd kv = JString redacted
                    else json_clean sens (snd kv)) kvs"
| "json_clean sens _ = True"

text \<open>Replace every value under a sensitive key by an arbitrary function of it.\<close>

fun overwrite_secrets :: "(string \<Rightarrow> bool) \<Rightarrow> (json \<Rightarrow> json) \<Rightarrow> json \<Rightarrow> json" where
  "overwrite_secrets sens f (JArray xs) = JArray (map (overwrite_secrets sens f) xs)"
| "overwrite_secrets sens f (JObject kvs) =
     JObject (map (\<lambda>kv. (fst kv, if sens (fst kv) then f (snd kv)
                                  else overwrite_secrets sens f (snd kv))) kvs)"
| "overwrite_secrets sens f j = j"

locale redactor =
  fixes sens :: "string \<Rightarrow> bool"
    and redact :: "json \<Rightarrow> json"
  assumes redact_object: "redact (JObject kvs) =
      JObject (map (\<lambda>kv. (fst kv, if sens (fst kv) then JString redacted
                                   else redact (snd kv))) kvs)"
    and redact_array: "redact (JArray xs) = JArray (map redact xs)"
    and redact_leaf: "json_leaf j \<Longrightarrow> redact j = j"
begin

lemma redact_clean: "json_clean sens (redact j)"
  by (induction j)
    (auto simp: redact_object redact_array redact_leaf list_all_iff snds.simps)

lemma clean_redact: "json_clean sens j \<Longrightarrow> redact j = j"
proof (induction j)
  case (JArray xs)
  then show ?case by (auto simp: redact_array list_all_iff intro!: map_idI)
next
  case (JObject kvs)
  then show ?case
    by (auto simp: redact_object list_all_iff snds.simps prod_eq_iff intro!: map_idI split: if_splits)
qed (auto simp: redact_leaf)

lemma redact_idem: "redact (redact j) = redact j"
  by (rule clean_redact) (rule redact_clean)

lemma redact_noninterference: "redact (overwrite_secrets sens f j) = redact j"
proof (induction j)
  case (JArray xs)
  then show ?case by (simp add: redact_array)
next
  case (JObject kvs)
  then show ?case by (force simp: redact_object snds.simps)
qed (auto simp: redact_leaf)

lemma redact_wf: "json_wf j \<Longrightarrow> json_wf (redact j)"
proof (induction j)
  case (JArray xs)
  then show ?case by (auto simp: redact_array list_all_iff)
next
  case (JObject kvs)
  then show ?case by (force simp: redact_object list_all_iff snds.simps comp_def)
qed (auto simp: redact_leaf)

lemma redact_null_iff: "redact j = JNull \<longleftrightarrow> j = JNull"
  by (cases j) (auto simp: redact_object redact_array redact_leaf)

end

section \<open>Redaction before the audit log\<close>

definition sensitive_words :: "string list" where
  "sensitive_words = [''password'', ''secret'', ''token'', ''community'', ''private_key'',
     ''refresh_token'', ''authorization'', ''cookie'']"

definition redact_value :: "string \<Rightarrow> string \<Rightarrow> string" where
  "redact_value key value =
     (let key = to_ascii_lowercase key in
      if list_ex (\<lambda>needle. contains_str needle key) sensitive_words
      then ''[REDACTED]'' else value)"

definition audit_sensitive :: "string \<Rightarrow> bool" where
  "audit_sensitive key \<longleftrightarrow> redact_value key ''SNM-SENTINEL'' = ''[REDACTED]''"

fun sanitize_json :: "json \<Rightarrow> json" where
  "sanitize_json (JObject kvs) = JObject (map (\<lambda>kv.
     (let marker = redact_value (fst kv) ''SNM-SENTINEL'' in
      if marker = ''[REDACTED]'' then (fst kv, JString ''[REDACTED]'')
      else (fst kv, sanitize_json (snd kv)))) kvs)"
| "sanitize_json (JArray values) = JArray (map sanitize_json values)"
| "sanitize_json other = other"

lemma audit_sensitive_iff:
  "audit_sensitive key \<longleftrightarrow>
     (\<exists>needle \<in> set sensitive_words. contains_str needle (to_ascii_lowercase key))"
  by (simp add: audit_sensitive_def redact_value_def list_ex_iff Let_def)

interpretation audit_redactor: redactor audit_sensitive sanitize_json
proof
  show "sanitize_json (JObject kvs) =
      JObject (map (\<lambda>kv. (fst kv, if audit_sensitive (fst kv) then JString redacted
                                   else sanitize_json (snd kv))) kvs)" for kvs
    by (simp add: audit_sensitive_def redacted_def Let_def cong: if_cong)
next
  show "json_leaf j \<Longrightarrow> sanitize_json j = j" for j by (cases j) auto
qed simp

section \<open>Redaction of telemetry\<close>

definition sensitive_suffixes :: "string list" where
  "sensitive_suffixes = [''password'', ''passwd'', ''secret'', ''token'', ''authorization'',
     ''cookie'', ''csrf'', ''community'', ''privatekey'', ''clientsecret'', ''refreshtoken'',
     ''accesstoken'', ''apikey'']"

definition canonical_key :: "string \<Rightarrow> string" where
  "canonical_key key = map lower_char (filter is_ascii_alphanumeric (trim key))"

definition is_sensitive_key :: "string \<Rightarrow> bool" where
  "is_sensitive_key key \<longleftrightarrow>
     (let canonical = canonical_key key in
      list_ex (\<lambda>needle. canonical = needle \<or> ends_with needle canonical) sensitive_suffixes)"

fun redact_json :: "json \<Rightarrow> json" where
  "redact_json (JObject object) = JObject (map (\<lambda>kv.
     (if is_sensitive_key (fst kv) then (fst kv, JString ''[REDACTED]'')
      else (fst kv, redact_json (snd kv)))) object)"
| "redact_json (JArray values) = JArray (map redact_json values)"
| "redact_json value = value"

interpretation telemetry_redactor: redactor is_sensitive_key redact_json
proof
  show "redact_json (JObject kvs) =
      JObject (map (\<lambda>kv. (fst kv, if is_sensitive_key (fst kv) then JString redacted
                                   else redact_json (snd kv))) kvs)" for kvs
    by (simp add: redacted_def cong: if_cong)
next
  show "json_leaf j \<Longrightarrow> redact_json j = j" for j by (cases j) auto
qed simp

section \<open>Properties\<close>

text \<open>A key stays sensitive whatever the case of its letters and whatever stands around the word.\<close>

lemma audit_sensitive_context:
  "audit_sensitive k \<Longrightarrow> audit_sensitive (a @ k @ b)"
proof -
  assume "audit_sensitive k"
  then obtain w where w: "w \<in> set sensitive_words" "contains_str w (to_ascii_lowercase k)"
    by (auto simp: audit_sensitive_iff)
  then obtain x y where "to_ascii_lowercase k = x @ w @ y"
    by (auto simp: contains_str_iff)
  then have "to_ascii_lowercase (a @ k @ b)
    = (to_ascii_lowercase a @ x) @ w @ (y @ to_ascii_lowercase b)"
    by (simp add: lowercase_append)
  then have "contains_str w (to_ascii_lowercase (a @ k @ b))"
    unfolding contains_str_iff by blast
  with w show ?thesis by (auto simp: audit_sensitive_iff)
qed

lemma audit_sensitive_lowercase:
  "audit_sensitive (to_ascii_lowercase k) \<longleftrightarrow> audit_sensitive k"
  by (simp add: audit_sensitive_iff lowercase_idem)


text \<open>The telemetry redactor has the same guarantee for its own notion of a sensitive key.\<close>

theorem telemetry_redaction_hides_secrets:
  "json_clean is_sensitive_key (redact_json j)
   \<and> redact_json (overwrite_secrets is_sensitive_key f j) = redact_json j
   \<and> redact_json (redact_json j) = redact_json j"
  using telemetry_redactor.redact_clean telemetry_redactor.redact_noninterference
    telemetry_redactor.redact_idem by blast

text \<open>The two notions differ: these keys are redacted from telemetry and kept by the audit trail.\<close>

lemma audit_keeps_telemetry_secrets:
  "list_all (\<lambda>k. is_sensitive_key k \<and> \<not> audit_sensitive k)
     [''privateKey'', ''api-key'', ''passwd'', ''x-csrf'']"
  by code_simp

end
