(* ===== verification/Ip_Addr.thy ===== *)
theory Ip_Addr
  imports SNM_Prelude
begin

unbundle bit_operations_syntax

text \<open>
  The parts of \<open>std::net\<close> the source uses: \<open>IpAddr\<close> with the address classes
  (\<open>is_private\<close>, \<open>is_multicast\<close>, ..), its parser \<open>str::parse::<IpAddr>\<close>, and the operations of
  the crate \<open>ipnet\<close> as a record of functions with their documented meaning (\<open>cidr_laws\<close>).
\<close>

section \<open>Addresses\<close>

datatype ip_addr = V4 "32 word" | V6 "128 word"

definition octet0 :: "32 word \<Rightarrow> 8 word" where
  "octet0 a = ucast (drop_bit 24 a)"

definition octet1 :: "32 word \<Rightarrow> 8 word" where
  "octet1 a = ucast (drop_bit 16 a)"

text \<open>\<open>Ipv6Addr::segments()[0]\<close>.\<close>

definition segment0 :: "128 word \<Rightarrow> 16 word" where
  "segment0 a = ucast (drop_bit 112 a)"

fun is_unspecified :: "ip_addr \<Rightarrow> bool" where
  "is_unspecified (V4 a) = (a = 0)"
| "is_unspecified (V6 a) = (a = 0)"

fun is_multicast :: "ip_addr \<Rightarrow> bool" where
  "is_multicast (V4 a) = (224 \<le> octet0 a \<and> octet0 a \<le> 239)"
| "is_multicast (V6 a) = (segment0 a AND 0xff00 = 0xff00)"

fun is_loopback :: "ip_addr \<Rightarrow> bool" where
  "is_loopback (V4 a) = (octet0 a = 127)"
| "is_loopback (V6 a) = (a = 1)"

definition v4_is_private :: "32 word \<Rightarrow> bool" where
  "v4_is_private a \<longleftrightarrow> octet0 a = 10
     \<or> (octet0 a = 172 \<and> 16 \<le> octet1 a \<and> octet1 a \<le> 31)
     \<or> (octet0 a = 192 \<and> octet1 a = 168)"

definition v4_is_link_local :: "32 word \<Rightarrow> bool" where
  "v4_is_link_local a \<longleftrightarrow> octet0 a = 169 \<and> octet1 a = 254"

definition v6_is_unicast_link_local :: "128 word \<Rightarrow> bool" where
  "v6_is_unicast_link_local a \<longleftrightarrow> segment0 a AND 0xffc0 = 0xfe80"

section \<open>Parsing\<close>

text \<open>
  \<open>IpAddr::from_str\<close> of the standard library: a recursive-descent reader that consumes a prefix
  of the text, followed by a check that nothing is left. Numbers in dotted quads have at most
  three digits and no leading zero; groups of an IPv6 address have at most four hex digits; one
  \<open>::\<close> may stand for at least one zero group; the last two groups may be a dotted quad.
\<close>

definition digit_val :: "char \<Rightarrow> int" where
  "digit_val c = (let n = code_of c in
     if n \<le> 57 then n - 48 else if n \<le> 70 then n - 55 else n - 87)"

definition is_digit_of :: "int \<Rightarrow> char \<Rightarrow> bool" where
  "is_digit_of radix c \<longleftrightarrow> (if radix = 10 then is_ascii_digit c else is_ascii_hexdigit c)"

definition read_number :: "int \<Rightarrow> nat \<Rightarrow> bool \<Rightarrow> int \<Rightarrow> string \<Rightarrow> (int \<times> string) option" where
  "read_number radix max_digits allow_zero_prefix bound s =
     (let ds = takeWhile (is_digit_of radix) s;
          n = foldl (\<lambda>a d. a * radix + digit_val d) 0 ds
      in if ds = [] \<or> max_digits < length ds
            \<or> (\<not> allow_zero_prefix \<and> hd ds = CHR ''0'' \<and> 1 < length ds)
            \<or> bound \<le> n
         then None else Some (n, drop (length ds) s))"

fun read_given_char :: "char \<Rightarrow> string \<Rightarrow> string option" where
  "read_given_char c [] = None"
| "read_given_char c (x # xs) = (if x = c then Some xs else None)"

definition read_separator ::
  "char \<Rightarrow> nat \<Rightarrow> (string \<Rightarrow> ('a \<times> string) option) \<Rightarrow> string \<Rightarrow> ('a \<times> string) option" where
  "read_separator sep index inner s =
     (if 0 < index then Option.bind (read_given_char sep s) inner else inner s)"

definition read_octet :: "nat \<Rightarrow> string \<Rightarrow> (int \<times> string) option" where
  "read_octet i = read_separator (CHR ''.'') i (read_number 10 3 False 256)"

definition read_ipv4 :: "string \<Rightarrow> (int \<times> string) option" where
  "read_ipv4 s = Option.bind (read_octet 0 s) (\<lambda>(a, s).
     Option.bind (read_octet 1 s) (\<lambda>(b, s).
     Option.bind (read_octet 2 s) (\<lambda>(c, s).
     Option.bind (read_octet 3 s) (\<lambda>(d, s).
       Some (((a * 256 + b) * 256 + c) * 256 + d, s)))))"

function read_groups :: "nat \<Rightarrow> nat \<Rightarrow> string \<Rightarrow> int list \<Rightarrow> int list \<times> bool \<times> string" where
  "read_groups limit i s acc =
     (if limit \<le> i then (acc, False, s)
      else case (if i < limit - 1 then read_separator (CHR '':'') i read_ipv4 s else None) of
        Some (a, s') \<Rightarrow> (acc @ [a div 65536, a mod 65536], True, s')
      | None \<Rightarrow>
          (case read_separator (CHR '':'') i (read_number 16 4 True 65536) s of
             Some (g, s') \<Rightarrow> read_groups limit (Suc i) s' (acc @ [g])
           | None \<Rightarrow> (acc, False, s)))"
  by pat_completeness auto
termination
  by (relation "measure (\<lambda>(limit, i, _). limit - i)") auto

declare read_groups.simps [simp del]

definition of_segments :: "int list \<Rightarrow> int" where
  "of_segments = foldl (\<lambda>a g. a * 65536 + g) 0"

definition read_ipv6 :: "string \<Rightarrow> (int \<times> string) option" where
  "read_ipv6 s = (case read_groups 8 0 s [] of (head, head_ipv4, s1) \<Rightarrow>
     if length head = 8 then Some (of_segments head, s1)
     else if head_ipv4 then None
     else Option.bind (read_given_char (CHR '':'') s1) (\<lambda>s2.
          Option.bind (read_given_char (CHR '':'') s2) (\<lambda>s3.
          case read_groups (8 - (length head + 1)) 0 s3 [] of (back, _, s4) \<Rightarrow>
            Some (of_segments (head @ replicate (8 - length head - length back) 0 @ back), s4))))"

definition read_ip_addr :: "string \<Rightarrow> (ip_addr \<times> string) option" where
  "read_ip_addr s = (case read_ipv4 s of
       Some (a, r) \<Rightarrow> Some (V4 (word_of_int a), r)
     | None \<Rightarrow> map_option (\<lambda>(a, r). (V6 (word_of_int a), r)) (read_ipv6 s))"

definition parse_ip :: "string \<Rightarrow> ip_addr option" where
  "parse_ip s = (case read_ip_addr s of
       Some (a, []) \<Rightarrow> Some a
     | _ \<Rightarrow> None)"

text \<open>\<open>SocketAddr::from_str\<close>: \<open>a.b.c.d:port\<close> or \<open>[v6%scope]:port\<close>.\<close>

datatype socket_addr = Socket_Addr (sock_ip: ip_addr) (sock_port: "16 word")

definition read_port :: "string \<Rightarrow> (int \<times> string) option" where
  "read_port s = Option.bind (read_given_char (CHR '':'') s) (\<lambda>s.
     read_number 10 (length s) True 65536 s)"

definition read_scope_id :: "string \<Rightarrow> string option" where
  "read_scope_id s = (case read_given_char (CHR ''%'') s of
       None \<Rightarrow> Some s
     | Some r \<Rightarrow> (case read_number 10 (length r) True (2 ^ 32) r of
           None \<Rightarrow> Some s
         | Some (_, r') \<Rightarrow> Some r'))"

definition read_socket_v4 :: "string \<Rightarrow> (socket_addr \<times> string) option" where
  "read_socket_v4 s = Option.bind (read_ipv4 s) (\<lambda>(a, r). Option.bind (read_port r) (\<lambda>(p, r).
     Some (Socket_Addr (V4 (word_of_int a)) (word_of_int p), r)))"

definition read_socket_v6 :: "string \<Rightarrow> (socket_addr \<times> string) option" where
  "read_socket_v6 s = Option.bind (read_given_char (CHR ''['') s) (\<lambda>r.
     Option.bind (read_ipv6 r) (\<lambda>(a, r).
     Option.bind (read_scope_id r) (\<lambda>r.
     Option.bind (read_given_char (CHR '']'') r) (\<lambda>r.
     Option.bind (read_port r) (\<lambda>(p, r).
       Some (Socket_Addr (V6 (word_of_int a)) (word_of_int p), r))))))"

definition parse_socket_addr :: "string \<Rightarrow> socket_addr option" where
  "parse_socket_addr s =
     (case (case read_socket_v4 s of Some x \<Rightarrow> Some x | None \<Rightarrow> read_socket_v6 s) of
        Some (a, []) \<Rightarrow> Some a
      | _ \<Rightarrow> None)"

section \<open>CIDR blocks\<close>

text \<open>
  \<open>ipnet::IpNet\<close> is a type of a third-party crate. The source reads it through the enum tag
  (\<open>IpNet::V6\<close>), \<open>prefix_len\<close>, \<open>network\<close> and \<open>contains\<close>; these are the fields below.
\<close>

record 'n ipnet_ops =
  net_is_v6 :: "'n \<Rightarrow> bool"
  net_prefix_len :: "'n \<Rightarrow> nat"
  net_network :: "'n \<Rightarrow> ip_addr"
  net_contains :: "'n \<Rightarrow> ip_addr \<Rightarrow> bool"

text \<open>The first \<open>n\<close> bits of an address, for an address of the family's width.\<close>

fun prefix_bits :: "nat \<Rightarrow> ip_addr \<Rightarrow> bool \<times> nat" where
  "prefix_bits n (V4 a) = (False, unat (drop_bit (32 - n) a))"
| "prefix_bits n (V6 a) = (True, unat (drop_bit (128 - n) a))"

fun addr_width :: "ip_addr \<Rightarrow> nat" where
  "addr_width (V4 _) = 32"
| "addr_width (V6 _) = 128"

text \<open>
  What the crate documents: the prefix is no longer than the address, and a block contains the
  addresses of its family that agree with its network address on the prefix.
\<close>

definition cidr_laws :: "'n ipnet_ops \<Rightarrow> bool" where
  "cidr_laws ops \<longleftrightarrow> (\<forall>n.
     net_prefix_len ops n \<le> addr_width (net_network ops n)
     \<and> net_is_v6 ops n = (addr_width (net_network ops n) = 128)
     \<and> (\<forall>a. net_contains ops n a \<longleftrightarrow>
           prefix_bits (net_prefix_len ops n) a
           = prefix_bits (net_prefix_len ops n) (net_network ops n)))"

lemma prefix_bits_mono:
  assumes "m \<le> n" and "n \<le> addr_width a" and "prefix_bits n a = prefix_bits n b"
  shows "prefix_bits m a = prefix_bits m b"
proof -
  have shorter: "drop_bit (w - m) x = drop_bit (n - m) (drop_bit (w - n) x)"
    if "n \<le> w" for w and x :: "'l::len word"
    using that assms(1) by (simp add: drop_bit_drop_bit)
  show ?thesis
  proof (cases a)
    case (V4 x)
    with assms(3) obtain y where b: "b = V4 y" and "drop_bit (32 - n) x = drop_bit (32 - n) y"
      by (cases b) (auto simp: word_unat_eq_iff)
    with V4 assms(2) show ?thesis using shorter [of 32 x] shorter [of 32 y] by simp
  next
    case (V6 x)
    with assms(3) obtain y where b: "b = V6 y" and "drop_bit (128 - n) x = drop_bit (128 - n) y"
      by (cases b) (auto simp: word_unat_eq_iff)
    with V6 assms(2) show ?thesis using shorter [of 128 x] shorter [of 128 y] by simp
  qed
qed

lemma prefix_bits_width: "prefix_bits n a = prefix_bits n b \<Longrightarrow> addr_width a = addr_width b"
  by (cases a; cases b) auto

text \<open>Two CIDR blocks share an address exactly when one contains the other's network address.\<close>

lemma cidr_overlap_iff:
  assumes laws: "cidr_laws ops"
  shows "(\<exists>a. net_contains ops m a \<and> net_contains ops n a) \<longleftrightarrow>
    net_contains ops m (net_network ops n) \<or> net_contains ops n (net_network ops m)"
proof -
  note L = laws [unfolded cidr_laws_def, rule_format]
  have one: "net_contains ops m (net_network ops n)"
    if le: "net_prefix_len ops m \<le> net_prefix_len ops n"
      and m: "net_contains ops m a" and n: "net_contains ops n a" for m n a
  proof -
    from n L [of n] have eq: "prefix_bits (net_prefix_len ops n) a
      = prefix_bits (net_prefix_len ops n) (net_network ops n)" by blast
    have "net_prefix_len ops n \<le> addr_width a"
      using prefix_bits_width [OF eq] L [of n] by simp
    from prefix_bits_mono [OF le this eq] m show ?thesis using L [of m] by simp
  qed
  have self: "net_contains ops n (net_network ops n)" for n using L [of n] by simp
  show ?thesis
  proof
    assume "\<exists>a. net_contains ops m a \<and> net_contains ops n a"
    then show "net_contains ops m (net_network ops n) \<or> net_contains ops n (net_network ops m)"
      using one le_cases by metis
  next
    assume "net_contains ops m (net_network ops n) \<or> net_contains ops n (net_network ops m)"
    then show "\<exists>a. net_contains ops m a \<and> net_contains ops n a" using self by blast
  qed
qed

text \<open>A concrete instance: an address and a prefix length, host bits cleared by \<open>network\<close>.\<close>

fun cidr_network :: "ip_addr \<times> nat \<Rightarrow> ip_addr" where
  "cidr_network (V4 a, n) = V4 (push_bit (32 - n) (drop_bit (32 - n) a))"
| "cidr_network (V6 a, n) = V6 (push_bit (128 - n) (drop_bit (128 - n) a))"

definition cidr_len :: "ip_addr \<times> nat \<Rightarrow> nat" where
  "cidr_len c = min (snd c) (addr_width (fst c))"

definition cidr_ops :: "(ip_addr \<times> nat) ipnet_ops" where
  "cidr_ops = \<lparr>net_is_v6 = (\<lambda>c. addr_width (fst c) = 128), net_prefix_len = cidr_len,
     net_network = (\<lambda>c. cidr_network (fst c, cidr_len c)),
     net_contains = (\<lambda>c a. prefix_bits (cidr_len c) a = prefix_bits (cidr_len c) (fst c))\<rparr>"

lemma drop_push_drop: "drop_bit n (push_bit n (drop_bit n x)) = drop_bit n (x :: 'l::len word)"
  by (rule bit_eqI) (auto simp: bit_simps dest: bit_imp_le_length)

lemma cidr_ops_laws: "cidr_laws cidr_ops"
proof -
  have "addr_width (cidr_network (a, n)) = addr_width a" for a n by (cases a) auto
  moreover have "prefix_bits n (cidr_network (a, n)) = prefix_bits n a" for a n
    by (cases a) (auto simp: drop_push_drop)
  ultimately show ?thesis by (auto simp: cidr_laws_def cidr_ops_def cidr_len_def)
qed

section \<open>Address ranges\<close>

lemma unat_octet0: "unat (octet0 a) = unat a div 2 ^ 24"
proof -
  have "unat a < 2 ^ 32" using unsigned_less [of a] by simp
  then show ?thesis by (simp add: octet0_def unsigned_ucast_eq take_bit_eq_mod drop_bit_eq_div unat_div)
qed

lemma octet0_eq_iff: "octet0 a = n \<longleftrightarrow> unat a div 2 ^ 24 = unat n"
  by (simp add: word_unat_eq_iff unat_octet0)

lemma unat_octet1: "unat (octet1 a) = unat a div 2 ^ 16 mod 256"
  by (simp add: octet1_def unsigned_ucast_eq take_bit_eq_mod drop_bit_eq_div unat_div)

text \<open>An address class given by its first octets is an interval of addresses.\<close>

lemma octet0_range: "octet0 a = n \<longleftrightarrow> unat n * 2 ^ 24 \<le> unat a \<and> unat a < (unat n + 1) * 2 ^ 24"
  unfolding octet0_eq_iff by (auto simp: div_nat_eqI) 

end
