(* ===== verification/Execution.thy ===== *)
theory Execution
  imports Ip_Addr
begin

unbundle bit_operations_syntax

text \<open>
  The execution boundary: the domain primitives of crates/domain/src/lib.rs (scoped targets,
  capabilities, the execution envelope), the executor of crates/executor-core/src/lib.rs and the
  HTTP surface of apps/site-runtime/src/main.rs. The network is a parameter \<open>net\<close>: what
  \<open>timeout(TcpStream::connect)\<close> would answer. Every handler returns, beside its response, the
  connections it tried, so that the safety theorems are about what reaches the LAN.
\<close>

section \<open>Domain primitives\<close>

record routing_domain_ref =
  rd_id :: uuid
  rd_name :: string

record scoped_ip_target =
  st_organization_id :: uuid
  st_site_id :: uuid
  st_routing_domain_id :: uuid
  st_address :: ip_addr
  st_interface_scope :: "string option"

datatype domain_error =
    InvalidRoutingDomainName
  | InvalidTargetAddress ip_addr
  | MissingIpv6LinkLocalScope
  | InvalidPort
  | ExecutionScopeMismatch
  | UnsupportedCapability string

definition routing_domain_new :: "uuid \<Rightarrow> string \<Rightarrow> domain_error + routing_domain_ref" where
  "routing_domain_new fresh name =
     (if trim name = [] then Inl InvalidRoutingDomainName
      else Inr \<lparr>rd_id = fresh, rd_name = name\<rparr>)"

definition target_validate :: "scoped_ip_target \<Rightarrow> domain_error + unit" where
  "target_validate t =
     (if is_unspecified (st_address t) \<or> is_multicast (st_address t)
      then Inl (InvalidTargetAddress (st_address t))
      else case st_address t of
          V6 ip \<Rightarrow> if v6_is_unicast_link_local ip
                     \<and> (case st_interface_scope t of None \<Rightarrow> [] | Some s \<Rightarrow> s) = []
                  then Inl MissingIpv6LinkLocalScope else Inr ()
        | V4 _ \<Rightarrow> Inr ())"

datatype capability = RuntimeCapabilitiesRead | NetworkTcpConnect

fun capability_as_str :: "capability \<Rightarrow> string" where
  "capability_as_str RuntimeCapabilitiesRead = ''runtime.capabilities.read''"
| "capability_as_str NetworkTcpConnect = ''network.tcp.connect''"

definition capability_from_str :: "string \<Rightarrow> domain_error + capability" where
  "capability_from_str value =
     (if value = ''runtime.capabilities.read'' then Inr RuntimeCapabilitiesRead
      else if value = ''network.tcp.connect'' then Inr NetworkTcpConnect
      else Inl (UnsupportedCapability value))"

interpretation capability_codec: string_codec capability_as_str capability_from_str
proof
  show "capability_from_str (capability_as_str x) = Inr x" for x
    by (cases x) (simp_all add: capability_from_str_def)
  show "capability_from_str s = Inr x \<Longrightarrow> s = capability_as_str x" for s x
    by (auto simp: capability_from_str_def split: if_splits)
qed

datatype execution_status =
  Succeeded | Failed | Partial | Unknown | Cancelled | Unsupported | NotApplicable

record execution_context =
  ec_organization_id :: uuid
  ec_site_id :: uuid
  ec_routing_domain_id :: uuid
  ec_actor_id :: uuid
  ec_correlation_id :: uuid
  ec_action_id :: uuid
  ec_idempotency_key :: "string option"

record tcp_connect_request =
  tr_context :: execution_context
  tr_target :: scoped_ip_target
  tr_port :: "16 word"
  tr_timeout_ms :: "64 word"

text \<open>\<open>Duration::from_millis\<close> of the clamped value, in milliseconds.\<close>

definition request_timeout :: "tcp_connect_request \<Rightarrow> 64 word" where
  "request_timeout r =
     (if tr_timeout_ms r < 100 then 100
      else if 30000 < tr_timeout_ms r then 30000 else tr_timeout_ms r)"

definition request_validate :: "tcp_connect_request \<Rightarrow> domain_error + unit" where
  "request_validate r =
     bindR (target_validate (tr_target r)) (\<lambda>_.
       if tr_port r = 0 then Inl InvalidPort
       else if st_organization_id (tr_target r) \<noteq> ec_organization_id (tr_context r)
          \<or> st_site_id (tr_target r) \<noteq> ec_site_id (tr_context r)
          \<or> st_routing_domain_id (tr_target r) \<noteq> ec_routing_domain_id (tr_context r)
       then Inl ExecutionScopeMismatch
       else Inr ())"

section \<open>The executor\<close>

record network_policy =
  allow_public_targets :: bool

definition policy_allows :: "network_policy \<Rightarrow> ip_addr \<Rightarrow> bool" where
  "policy_allows p address =
     (if allow_public_targets p then \<not> is_unspecified address \<and> \<not> is_multicast address
      else case address of
          V4 ip \<Rightarrow> v4_is_private ip \<or> is_loopback (V4 ip) \<or> v4_is_link_local ip
        | V6 ip \<Rightarrow> is_loopback (V6 ip) \<or> v6_is_unicast_link_local ip
                 \<or> segment0 ip AND 0xfe00 = 0xfc00)"

text \<open>The error kinds \<open>std::io::ErrorKind\<close> that the executor tells apart.\<close>

datatype io_error_kind =
  ConnectionRefused | PermissionDenied | NetworkUnreachable | HostUnreachable | OtherKind

datatype connect_outcome =
    Connected int \<comment> \<open>elapsed milliseconds, a \<open>u128\<close>\<close>
  | ConnectError io_error_kind
  | Elapsed

record connect_attempt =
  ca_address :: ip_addr
  ca_port :: "16 word"
  ca_timeout :: "64 word"

type_synonym network = "connect_attempt \<Rightarrow> connect_outcome"

record tcp_connect_result =
  cr_status :: execution_status
  cr_latency_ms :: "int option"
  cr_error_code :: "string option"

datatype executor_error = InvalidRequest domain_error | TargetDenied

fun io_error_code :: "io_error_kind \<Rightarrow> string" where
  "io_error_code ConnectionRefused = ''connection_refused''"
| "io_error_code PermissionDenied = ''permission_denied''"
| "io_error_code NetworkUnreachable = ''network_unreachable''"
| "io_error_code HostUnreachable = ''host_unreachable''"
| "io_error_code OtherKind = ''transport_error''"

text \<open>\<open>as_millis().try_into().unwrap_or(u64::MAX)\<close>\<close>

definition latency_u64 :: "int \<Rightarrow> int" where
  "latency_u64 ms = (if ms \<le> 2 ^ 64 - 1 then ms else 2 ^ 64 - 1)"

fun connect_response :: "connect_outcome \<Rightarrow> tcp_connect_result" where
  "connect_response (Connected ms) =
     \<lparr>cr_status = Succeeded, cr_latency_ms = Some (latency_u64 ms), cr_error_code = None\<rparr>"
| "connect_response (ConnectError k) =
     \<lparr>cr_status = Failed, cr_latency_ms = None, cr_error_code = Some (io_error_code k)\<rparr>"
| "connect_response Elapsed =
     \<lparr>cr_status = Failed, cr_latency_ms = None, cr_error_code = Some ''timeout''\<rparr>"

definition executor_tcp_connect ::
  "network_policy \<Rightarrow> network \<Rightarrow> tcp_connect_request
     \<Rightarrow> (executor_error + tcp_connect_result) \<times> connect_attempt list" where
  "executor_tcp_connect policy net request =
     (case map_err InvalidRequest (request_validate request) of
        Inl e \<Rightarrow> (Inl e, [])
      | Inr _ \<Rightarrow>
          if \<not> policy_allows policy (st_address (tr_target request)) then (Inl TargetDenied, [])
          else (let socket = \<lparr>ca_address = st_address (tr_target request),
                      ca_port = tr_port request, ca_timeout = request_timeout request\<rparr>
                in (Inr (connect_response (net socket)), [socket])))"

definition executor_capabilities :: "capability list" where
  "executor_capabilities = [RuntimeCapabilitiesRead, NetworkTcpConnect]"

section \<open>The site runtime\<close>

text \<open>
  The headers of a request as the handlers observe them: absent, present but not visible ASCII
  (\<open>to_str\<close> fails), or a text.
\<close>

type_synonym headers = "string \<Rightarrow> string option option"

type_synonym environment = "string \<Rightarrow> string option"

definition runtime_env_flag :: "environment \<Rightarrow> string \<Rightarrow> bool" where
  "runtime_env_flag env name = (case env name of
       None \<Rightarrow> False
     | Some v \<Rightarrow> to_ascii_lowercase v \<in> {''1'', ''true'', ''yes''})"

record runtime_config =
  rc_bind :: socket_addr
  rc_token :: string
  rc_policy :: network_policy

datatype runtime_init_error =
  InvalidBind | NonLoopbackBind | MissingRuntimeToken | WeakRuntimeToken

text \<open>The checks \<open>main\<close> makes before it binds the listener.\<close>

definition runtime_init :: "environment \<Rightarrow> runtime_init_error + runtime_config" where
  "runtime_init env =
     bindR (ok_or InvalidBind (parse_socket_addr (case env ''SNM_RUNTIME_BIND'' of
         None \<Rightarrow> ''127.0.0.1:9765'' | Some v \<Rightarrow> v))) (\<lambda>bind.
     let allow_non_loopback = runtime_env_flag env ''SNM_RUNTIME_ALLOW_NON_LOOPBACK'' in
     if \<not> is_loopback (sock_ip bind) \<and> \<not> allow_non_loopback then Inl NonLoopbackBind
     else bindR (ok_or MissingRuntimeToken (env ''SNM_RUNTIME_TOKEN'')) (\<lambda>token.
     if length token < 32 \<or> token = ''change-me-with-a-long-random-secret''
     then Inl WeakRuntimeToken
     else Inr \<lparr>rc_bind = bind, rc_token = token,
         rc_policy = \<lparr>allow_public_targets =
           runtime_env_flag env ''SNM_RUNTIME_ALLOW_PUBLIC_TARGETS''\<rparr>\<rparr>))"

datatype status_code =
    OK_200 | CREATED_201 | NO_CONTENT_204 | UNAUTHORIZED_401 | FORBIDDEN_403 | NOT_FOUND_404
  | REQUEST_TIMEOUT_408 | CONFLICT_409 | UNPROCESSABLE_ENTITY_422 | INTERNAL_SERVER_ERROR_500
  | SERVICE_UNAVAILABLE_503

text \<open>The constant-time comparison \<open>ct_eq\<close> of byte strings of equal length is equality.\<close>

definition runtime_authorize :: "headers \<Rightarrow> string \<Rightarrow> status_code + unit" where
  "runtime_authorize hs expected =
     (case hs ''authorization'' of
        None \<Rightarrow> Inl UNAUTHORIZED_401
      | Some None \<Rightarrow> Inl UNAUTHORIZED_401
      | Some (Some value) \<Rightarrow>
          (case strip_prefix ''Bearer '' value of
             None \<Rightarrow> Inl UNAUTHORIZED_401
           | Some provided \<Rightarrow>
               (let same_length = (length provided = length expected);
                    matches = (same_length \<and> provided = expected)
                in if matches then Inr () else Inl UNAUTHORIZED_401)))"

datatype runtime_response =
    Capabilities_Json "string list"
  | Connect_Json tcp_connect_result
  | Error_Json status_code string
  | Status_Only status_code

definition runtime_capabilities :: "runtime_config \<Rightarrow> headers \<Rightarrow> runtime_response" where
  "runtime_capabilities rc hs =
     (case runtime_authorize hs (rc_token rc) of
        Inl status \<Rightarrow> Status_Only status
      | Inr _ \<Rightarrow> Capabilities_Json (map capability_as_str executor_capabilities))"

definition runtime_tcp_connect ::
  "runtime_config \<Rightarrow> network \<Rightarrow> headers \<Rightarrow> tcp_connect_request
     \<Rightarrow> runtime_response \<times> connect_attempt list" where
  "runtime_tcp_connect rc net hs request =
     (case runtime_authorize hs (rc_token rc) of
        Inl status \<Rightarrow> (Status_Only status, [])
      | Inr _ \<Rightarrow>
          (case executor_tcp_connect (rc_policy rc) net request of
             (Inr result, tried) \<Rightarrow> (Connect_Json result, tried)
           | (Inl (InvalidRequest _), tried) \<Rightarrow>
               (Error_Json UNPROCESSABLE_ENTITY_422 ''invalid_execution_request'', tried)
           | (Inl TargetDenied, tried) \<Rightarrow> (Error_Json FORBIDDEN_403 ''target_denied'', tried)))"

section \<open>Lemmas\<close>

lemma request_timeout_bounds:
  "100 \<le> request_timeout r \<and> request_timeout r \<le> 30000"
  by (auto simp: request_timeout_def not_less)

lemma target_validate_ok_iff:
  "target_validate t = Inr () \<longleftrightarrow> \<not> is_unspecified (st_address t) \<and> \<not> is_multicast (st_address t)
     \<and> (\<forall>ip. st_address t = V6 ip \<and> v6_is_unicast_link_local ip \<longrightarrow>
            (\<exists>s. st_interface_scope t = Some s \<and> s \<noteq> []))"
  by (auto simp: target_validate_def split: ip_addr.splits option.splits if_splits)

lemma request_validate_ok_iff:
  "request_validate r = Inr () \<longleftrightarrow> target_validate (tr_target r) = Inr () \<and> tr_port r \<noteq> 0
     \<and> st_organization_id (tr_target r) = ec_organization_id (tr_context r)
     \<and> st_site_id (tr_target r) = ec_site_id (tr_context r)
     \<and> st_routing_domain_id (tr_target r) = ec_routing_domain_id (tr_context r)"
  by (auto simp: request_validate_def result_simps)

lemma runtime_authorize_ok_iff:
  "runtime_authorize hs token = Inr () \<longleftrightarrow>
     hs ''authorization'' = Some (Some (''Bearer '' @ token))"
proof
  assume "runtime_authorize hs token = Inr ()"
  then show "hs ''authorization'' = Some (Some (''Bearer '' @ token))"
    by (auto simp: runtime_authorize_def str_simps split: option.splits if_splits)
next
  assume "hs ''authorization'' = Some (Some (''Bearer '' @ token))"
  then show "runtime_authorize hs token = Inr ()"
    by (simp add: runtime_authorize_def strip_prefix_append [of "''Bearer ''" token, simplified])
qed

lemma executor_attempts:
  "a \<in> set (snd (executor_tcp_connect policy net r)) \<longleftrightarrow>
     request_validate r = Inr () \<and> policy_allows policy (st_address (tr_target r))
     \<and> a = \<lparr>ca_address = st_address (tr_target r), ca_port = tr_port r,
            ca_timeout = request_timeout r\<rparr>"
  by (auto simp: executor_tcp_connect_def map_err_def Let_def split: sum.splits)

lemma runtime_attempts:
  "set (snd (runtime_tcp_connect rc net hs r)) =
     (if runtime_authorize hs (rc_token rc) = Inr ()
      then set (snd (executor_tcp_connect (rc_policy rc) net r)) else {})"
  by (auto simp: runtime_tcp_connect_def split: sum.splits prod.splits executor_error.splits)

text \<open>Bit masks of the first segment as intervals of its value.\<close>

lemma unat_high_mask: "unat (s AND NOT (mask n) :: 'l::len word) = unat s div 2 ^ n * 2 ^ n"
proof -
  have eq: "s AND NOT (mask n) = push_bit n (drop_bit n s)"
    by (rule bit_eqI) (auto simp: bit_simps dest: bit_imp_le_length)
  moreover have "unat s div 2 ^ n * 2 ^ n < 2 ^ LENGTH('l)"
    using unsigned_less [of s, where ?'a = nat] by (meson div_times_less_eq_dividend le_less_trans)
  ultimately have "take_bit LENGTH('l) (push_bit n (drop_bit n (unat s))) = unat s div 2 ^ n * 2 ^ n"
    by (simp add: push_bit_eq_mult drop_bit_eq_div take_bit_eq_mod)
  with eq show ?thesis by (simp only: unsigned_push_bit_eq unat_drop_bit_eq)
qed

lemma seg_masks:
  fixes s :: "16 word"
  shows "s AND 0xfe00 = 0xfc00 \<longleftrightarrow> unat s div 512 = 126"
    and "s AND 0xffc0 = 0xfe80 \<longleftrightarrow> unat s div 64 = 1018"
    and "s AND 0xff00 = 0xff00 \<longleftrightarrow> unat s div 256 = 255"
proof -
  have m: "(0xfe00 :: 16 word) = NOT (mask 9)" "(0xffc0 :: 16 word) = NOT (mask 6)"
    "(0xff00 :: 16 word) = NOT (mask 8)"
    by (simp_all add: mask_eq_exp_minus_1)
  have "s AND NOT (mask 9) = 0xfc00 \<longleftrightarrow> unat s div 512 * 512 = 0xfc00"
    "s AND NOT (mask 6) = 0xfe80 \<longleftrightarrow> unat s div 64 * 64 = 0xfe80"
    "s AND NOT (mask 8) = 0xff00 \<longleftrightarrow> unat s div 256 * 256 = 0xff00"
    by (simp_all only: word_unat_eq_iff unat_high_mask) simp_all
  then show "s AND 0xfe00 = 0xfc00 \<longleftrightarrow> unat s div 512 = 126"
    and "s AND 0xffc0 = 0xfe80 \<longleftrightarrow> unat s div 64 = 1018"
    and "s AND 0xff00 = 0xff00 \<longleftrightarrow> unat s div 256 = 255"
    unfolding m by linarith+
qed

section \<open>The default policy as address ranges\<close>

text \<open>
  Specification of the LAN: the private, loopback and link-local blocks as intervals of
  addresses (10/8, 127/8, 169.254/16, 172.16/12, 192.168/16; ::1, fc00::/7, fe80::/10).
\<close>

fun lan_address :: "ip_addr \<Rightarrow> bool" where
  "lan_address (V4 a) \<longleftrightarrow> (let x = unat a in
       (0x0A000000 \<le> x \<and> x < 0x0B000000)
     \<or> (0xAC100000 \<le> x \<and> x < 0xAC200000)
     \<or> (0xC0A80000 \<le> x \<and> x < 0xC0A90000)
     \<or> (0x7F000000 \<le> x \<and> x < 0x80000000)
     \<or> (0xA9FE0000 \<le> x \<and> x < 0xA9FF0000))"
| "lan_address (V6 a) \<longleftrightarrow> (let x = unat a in
       x = 1 \<or> (0xFE80 * 2 ^ 112 \<le> x \<and> x < 0xFEC0 * 2 ^ 112)
     \<or> (0xFC00 * 2 ^ 112 \<le> x \<and> x < 0xFE00 * 2 ^ 112))"

lemma unat_segment0: "unat (segment0 a) = unat a div 2 ^ 112"
proof -
  have "unat a < 2 ^ 128" using unsigned_less [of a] by simp
  then have less: "unat a div 2 ^ 112 < 2 ^ 16" by (simp add: less_mult_imp_div_less)
  have "unat (drop_bit 112 a) = unat a div 2 ^ 112"
    by (rule trans [OF unat_drop_bit_eq Bit_Operations.drop_bit_eq_div])
  then have "unat (segment0 a) = (unat a div 2 ^ 112) mod 2 ^ LENGTH(16)"
    by (simp only: segment0_def unsigned_ucast_eq take_bit_eq_mod)
  also have "\<dots> = unat a div 2 ^ 112" using less by (simp only: len_of_numeral_defs) simp
  finally show ?thesis .
qed

lemma div_range:
  fixes x :: nat
  assumes "0 < d"
  shows "x div d = k \<longleftrightarrow> k * d \<le> x \<and> x < (k + 1) * d"
    and "k \<le> x div d \<longleftrightarrow> k * d \<le> x" and "x div d \<le> k \<longleftrightarrow> x < (k + 1) * d"
proof -
  show le: "k \<le> x div d \<longleftrightarrow> k * d \<le> x" for k
    using assms by (simp add: less_eq_div_iff_mult_less_eq)
  have lt: "x div d < k \<longleftrightarrow> x < k * d" for k using assms by (simp add: div_less_iff_less_mult)
  show "x div d \<le> k \<longleftrightarrow> x < (k + 1) * d" using lt [of "k + 1"] by (simp add: less_Suc_eq_le)
  then show "x div d = k \<longleftrightarrow> k * d \<le> x \<and> x < (k + 1) * d" using le [of k] by linarith
qed

lemma two_octets:
  fixes x :: nat
  assumes "h < 256"
  shows "x div 16777216 = p \<and> l \<le> x div 65536 mod 256 \<and> x div 65536 mod 256 \<le> h \<longleftrightarrow>
    (p * 256 + l) * 65536 \<le> x \<and> x < (p * 256 + h + 1) * 65536"
proof -
  have "x div 16777216 = x div 65536 div 256" by (simp flip: div_mult2_eq)
  moreover have "y div 256 = p \<and> l \<le> y mod 256 \<and> y mod 256 \<le> h
      \<longleftrightarrow> p * 256 + l \<le> y \<and> y \<le> p * 256 + h" for y :: nat
  proof -
    define q r where "q = y div 256" and "r = y mod 256"
    have y: "y = 256 * q + r" and r: "r < 256" by (simp_all add: q_def r_def)
    consider "q = p" | "q < p" | "p < q" by linarith
    then show ?thesis unfolding q_def [symmetric] r_def [symmetric]
    proof cases
      case 2
      then have "256 * q + 256 \<le> 256 * p" by simp
      with y r 2 show "q = p \<and> l \<le> r \<and> r \<le> h \<longleftrightarrow> p * 256 + l \<le> y \<and> y \<le> p * 256 + h" by simp
    next
      case 3
      then have "256 * p + 256 \<le> 256 * q" by simp
      with y r 3 assms show "q = p \<and> l \<le> r \<and> r \<le> h \<longleftrightarrow> p * 256 + l \<le> y \<and> y \<le> p * 256 + h" by simp
    qed (use y in simp)
  qed
  ultimately have "x div 16777216 = p \<and> l \<le> x div 65536 mod 256 \<and> x div 65536 mod 256 \<le> h
      \<longleftrightarrow> p * 256 + l \<le> x div 65536 \<and> x div 65536 \<le> p * 256 + h" by simp
  then show ?thesis
    unfolding div_range(2) [OF zero_less_numeral] div_range(3) [OF zero_less_numeral] .
qed

lemma policy_default_iff:
  assumes "\<not> allow_public_targets p"
  shows "policy_allows p a \<longleftrightarrow> lan_address a"
proof (cases a)
  case (V4 x)
  have one: "octet0 x = n \<longleftrightarrow> unat n * 16777216 \<le> unat x \<and> unat x < (unat n + 1) * 16777216" for n
    using octet0_range [of x n] by simp
  have two: "octet0 x = n \<and> l \<le> octet1 x \<and> octet1 x \<le> h \<longleftrightarrow>
    (unat n * 256 + unat l) * 65536 \<le> unat x \<and> unat x < (unat n * 256 + unat h + 1) * 65536"
    for n l h
    using two_octets [of "unat h" "unat x" "unat n" "unat l"] unsigned_less [of h]
    by (simp add: word_unat_eq_iff word_le_nat_alt unat_octet0 unat_octet1)
  have r1: "octet0 x = 10 \<longleftrightarrow> 0x0A000000 \<le> unat x \<and> unat x < 0x0B000000"
    and r2: "octet0 x = 127 \<longleftrightarrow> 0x7F000000 \<le> unat x \<and> unat x < 0x80000000"
    using one [of 10] one [of 127] by simp_all
  have r3: "octet0 x = 172 \<and> 16 \<le> octet1 x \<and> octet1 x \<le> 31
      \<longleftrightarrow> 0xAC100000 \<le> unat x \<and> unat x < 0xAC200000"
    using two [of 172 16 31] by simp
  have r4: "octet0 x = 192 \<and> octet1 x = 168 \<longleftrightarrow> 0xC0A80000 \<le> unat x \<and> unat x < 0xC0A90000"
    using two [of 192 168 168] by (simp flip: eq_iff)
  have r5: "octet0 x = 169 \<and> octet1 x = 254 \<longleftrightarrow> 0xA9FE0000 \<le> unat x \<and> unat x < 0xA9FF0000"
    using two [of 169 254 254] by (simp flip: eq_iff)
  have "policy_allows p a \<longleftrightarrow> (octet0 x = 10 \<or> (octet0 x = 172 \<and> 16 \<le> octet1 x \<and> octet1 x \<le> 31)
      \<or> (octet0 x = 192 \<and> octet1 x = 168)) \<or> octet0 x = 127 \<or> (octet0 x = 169 \<and> octet1 x = 254)"
    using assms by (simp add: V4 policy_allows_def v4_is_private_def v4_is_link_local_def)
  also have "\<dots> \<longleftrightarrow> lan_address a"
    unfolding r3 r4 r5 by (simp add: r1 r2 V4 Let_def)
  finally show ?thesis .
next
  case (V6 x)
  have "segment0 x AND 0xfe00 = 0xfc00 \<longleftrightarrow> 0xfc00 \<le> unat x div 2 ^ 112 \<and> unat x div 2 ^ 112 \<le> 0xfdff"
    "segment0 x AND 0xffc0 = 0xfe80 \<longleftrightarrow> 0xfe80 \<le> unat x div 2 ^ 112 \<and> unat x div 2 ^ 112 \<le> 0xfebf"
    unfolding seg_masks unat_segment0 div_range [of 512, simplified] div_range [of 64, simplified]
    by auto
  then have seg: "segment0 x AND 0xfe00 = 0xfc00 \<longleftrightarrow> 0xfc00 * 2 ^ 112 \<le> unat x \<and> unat x < 0xfe00 * 2 ^ 112"
    "segment0 x AND 0xffc0 = 0xfe80 \<longleftrightarrow> 0xfe80 * 2 ^ 112 \<le> unat x \<and> unat x < 0xfec0 * 2 ^ 112"
    using div_range(2) [where d = "2 ^ 112" and k = "0xfc00" and x = "unat x"]
      div_range(2) [where d = "2 ^ 112" and k = "0xfe80" and x = "unat x"]
      div_range(3) [where d = "2 ^ 112" and k = "0xfdff" and x = "unat x"]
      div_range(3) [where d = "2 ^ 112" and k = "0xfebf" and x = "unat x"] by simp_all
  have "x = 1 \<longleftrightarrow> unat x = 1" by (simp add: word_unat_eq_iff)
  then have "policy_allows p a \<longleftrightarrow> unat x = 1
      \<or> (0xfe80 * 2 ^ 112 \<le> unat x \<and> unat x < 0xfec0 * 2 ^ 112)
      \<or> (0xfc00 * 2 ^ 112 \<le> unat x \<and> unat x < 0xfe00 * 2 ^ 112)"
    using assms seg by (simp add: V6 policy_allows_def v6_is_unicast_link_local_def)
  then show ?thesis by (auto simp: V6 Let_def)
qed

section \<open>Properties\<close>


definition demo_runtime_env :: environment where
  "demo_runtime_env = [''SNM_RUNTIME_TOKEN'' \<mapsto> ''0123456789abcdef0123456789abcdef'']"

definition demo_request :: tcp_connect_request where
  "demo_request = \<lparr>tr_context = \<lparr>ec_organization_id = 1, ec_site_id = 2,
       ec_routing_domain_id = 3, ec_actor_id = 4, ec_correlation_id = 5, ec_action_id = 6,
       ec_idempotency_key = None\<rparr>,
     tr_target = \<lparr>st_organization_id = 1, st_site_id = 2, st_routing_domain_id = 3,
       st_address = V4 0x0A000001, st_interface_scope = None\<rparr>,
     tr_port = 443, tr_timeout_ms = 5\<rparr>"

definition demo_runtime_config :: runtime_config where
  "demo_runtime_config = \<lparr>rc_bind = Socket_Addr (V4 0x7F000001) 9765,
     rc_token = ''0123456789abcdef0123456789abcdef'', rc_policy = \<lparr>allow_public_targets = False\<rparr>\<rparr>"

definition demo_headers :: headers where
  "demo_headers = [''authorization'' \<mapsto> Some ''Bearer 0123456789abcdef0123456789abcdef'']"

lemma demo_runtime_init: "runtime_init demo_runtime_env = Inr demo_runtime_config"
  by code_simp

lemma demo_address: "st_address (tr_target demo_request) = V4 0x0A000001"
  by (simp add: demo_request_def)

lemma demo_attempt:
  "snd (runtime_tcp_connect demo_runtime_config (\<lambda>_. Elapsed) demo_headers demo_request)
    = [\<lparr>ca_address = V4 0x0A000001, ca_port = 443, ca_timeout = 100\<rparr>]"
  by code_simp


text \<open>Without the opt-in flag the runtime listens on a loopback address only, and it never starts
  with a token shorter than 32 bytes or with the demonstration token.\<close>

theorem runtime_starts_guarded:
  "runtime_init env = Inr rc \<Longrightarrow>
     (is_loopback (sock_ip (rc_bind rc)) \<or> runtime_env_flag env ''SNM_RUNTIME_ALLOW_NON_LOOPBACK'')
     \<and> 32 \<le> length (rc_token rc) \<and> rc_token rc \<noteq> ''change-me-with-a-long-random-secret''
     \<and> env ''SNM_RUNTIME_TOKEN'' = Some (rc_token rc)"
  by (auto simp: runtime_init_def result_simps Let_def split: if_splits)

theorem runtime_starts_guarded_witness:
  "is_loopback (sock_ip (rc_bind demo_runtime_config))
    \<and> 32 \<le> length (rc_token demo_runtime_config)"
  using runtime_starts_guarded [OF demo_runtime_init]
  by (simp add: demo_runtime_env_def runtime_env_flag_def)

text \<open>The scope of a link-local target is demanded by validation but never reaches the socket.\<close>

lemma link_local_scope_ignored:
  assumes "s \<noteq> []" and "s' \<noteq> []"
  shows "executor_tcp_connect policy net (r\<lparr>tr_target := (tr_target r)\<lparr>st_interface_scope := Some s\<rparr>\<rparr>)
    = executor_tcp_connect policy net (r\<lparr>tr_target := (tr_target r)\<lparr>st_interface_scope := Some s'\<rparr>\<rparr>)"
  using assms
  by (simp add: executor_tcp_connect_def request_validate_def target_validate_def request_timeout_def
      split: ip_addr.split)

end
