(* ===== verification/Device_Domain.thy ===== *)
theory Device_Domain
  imports SNM_Prelude
begin

text \<open>
  Device identity and lifecycle: crates/domain/src/inventory.rs, with the two parsers of stored
  values of crates/inventory-store/src/lib.rs. The lifecycle is a state machine on
  \<open>device_lifecycle\<close>; identifiers are normalised per kind before they are compared; \<open>decide_merge\<close>
  says when two records are one device.
\<close>

section \<open>Lifecycle\<close>

datatype device_lifecycle =
  Discovered | PendingReview | Managed | Unmanaged | Maintenance | Retired | Archived

definition allows_normal_mutation :: "device_lifecycle \<Rightarrow> bool" where
  "allows_normal_mutation l \<longleftrightarrow> l \<in> {Managed, Maintenance}"

definition can_transition_to :: "device_lifecycle \<Rightarrow> device_lifecycle \<Rightarrow> bool" where
  "can_transition_to self next \<longleftrightarrow>
     (if self = next then True
      else (self, next) \<in> {
         (Discovered, PendingReview),
         (Discovered, Unmanaged),
         (Discovered, Archived),
         (PendingReview, Managed),
         (PendingReview, Unmanaged),
         (PendingReview, Archived),
         (Managed, Maintenance),
         (Managed, Unmanaged),
         (Managed, Retired),
         (Unmanaged, PendingReview),
         (Unmanaged, Managed),
         (Unmanaged, Retired),
         (Unmanaged, Archived),
         (Maintenance, Managed),
         (Maintenance, Retired),
         (Retired, PendingReview),
         (Retired, Archived)})"

fun lifecycle_as_str :: "device_lifecycle \<Rightarrow> string" where
  "lifecycle_as_str Discovered = ''discovered''"
| "lifecycle_as_str PendingReview = ''pending_review''"
| "lifecycle_as_str Managed = ''managed''"
| "lifecycle_as_str Unmanaged = ''unmanaged''"
| "lifecycle_as_str Maintenance = ''maintenance''"
| "lifecycle_as_str Retired = ''retired''"
| "lifecycle_as_str Archived = ''archived''"

datatype stored_value_error = CorruptStoredValue string

definition parse_lifecycle :: "string \<Rightarrow> stored_value_error + device_lifecycle" where
  "parse_lifecycle value =
     (if value = ''discovered'' then Inr Discovered
      else if value = ''pending_review'' then Inr PendingReview
      else if value = ''managed'' then Inr Managed
      else if value = ''unmanaged'' then Inr Unmanaged
      else if value = ''maintenance'' then Inr Maintenance
      else if value = ''retired'' then Inr Retired
      else if value = ''archived'' then Inr Archived
      else Inl (CorruptStoredValue ''lifecycle_state''))"

interpretation lifecycle_codec: string_codec lifecycle_as_str parse_lifecycle
proof
  show "parse_lifecycle (lifecycle_as_str x) = Inr x" for x
    by (cases x) (simp_all add: parse_lifecycle_def)
  show "parse_lifecycle s = Inr x \<Longrightarrow> s = lifecycle_as_str x" for s x
    by (auto simp: parse_lifecycle_def split: if_splits)
qed

section \<open>Device types\<close>

datatype device_type = Switch | Router | Firewall | Server | Printer | AccessPoint | UnknownType

fun device_type_as_str :: "device_type \<Rightarrow> string" where
  "device_type_as_str Switch = ''switch''"
| "device_type_as_str Router = ''router''"
| "device_type_as_str Firewall = ''firewall''"
| "device_type_as_str Server = ''server''"
| "device_type_as_str Printer = ''printer''"
| "device_type_as_str AccessPoint = ''access_point''"
| "device_type_as_str UnknownType = ''unknown''"

definition parse_device_type :: "string \<Rightarrow> stored_value_error + device_type" where
  "parse_device_type value =
     (if value = ''switch'' then Inr Switch
      else if value = ''router'' then Inr Router
      else if value = ''firewall'' then Inr Firewall
      else if value = ''server'' then Inr Server
      else if value = ''printer'' then Inr Printer
      else if value = ''access_point'' then Inr AccessPoint
      else if value = ''unknown'' then Inr UnknownType
      else Inl (CorruptStoredValue ''device_type''))"

interpretation device_type_codec: string_codec device_type_as_str parse_device_type
proof
  show "parse_device_type (device_type_as_str x) = Inr x" for x
    by (cases x) (simp_all add: parse_device_type_def)
  show "parse_device_type s = Inr x \<Longrightarrow> s = device_type_as_str x" for s x
    by (auto simp: parse_device_type_def split: if_splits)
qed

section \<open>Evidence\<close>

text \<open>An \<open>f32\<close>: a NaN, an infinity with its sign, or a finite value.\<close>

datatype f32 = F32_NaN | F32_Inf bool | F32_Fin rat

text \<open>\<open>(0.0..=1.0).contains(&x)\<close>: comparisons with a NaN are false.\<close>

fun in_unit_interval :: "f32 \<Rightarrow> bool" where
  "in_unit_interval F32_NaN = False"
| "in_unit_interval (F32_Inf _) = False"
| "in_unit_interval (F32_Fin x) = (0 \<le> x \<and> x \<le> 1)"

record 'a evidence =
  ev_value :: 'a
  ev_source :: string
  ev_confidence :: f32
  ev_observed_at_unix_ms :: i64

definition evidence_validate :: "'a evidence \<Rightarrow> string + unit" where
  "evidence_validate e =
     (if trim (ev_source e) = [] then Inl ''evidence source is required''
      else if \<not> in_unit_interval (ev_confidence e)
      then Inl ''confidence must be between 0 and 1''
      else Inr ())"

section \<open>Identifiers\<close>

datatype identifier_strength = Strong | Weak

fun strength_as_str :: "identifier_strength \<Rightarrow> string" where
  "strength_as_str Strong = ''strong''"
| "strength_as_str Weak = ''weak''"

datatype identifier_kind = Serial | Mac | Hostname | SnmpEngineId | ProviderNativeId | AssetTag

fun kind_as_str :: "identifier_kind \<Rightarrow> string" where
  "kind_as_str Serial = ''serial''"
| "kind_as_str Mac = ''mac''"
| "kind_as_str Hostname = ''hostname''"
| "kind_as_str SnmpEngineId = ''snmp_engine_id''"
| "kind_as_str ProviderNativeId = ''provider_native_id''"
| "kind_as_str AssetTag = ''asset_tag''"

definition kind_strength :: "identifier_kind \<Rightarrow> identifier_strength" where
  "kind_strength k =
     (if k \<in> {Serial, Mac, SnmpEngineId, ProviderNativeId} then Strong else Weak)"

definition normalize :: "identifier_kind \<Rightarrow> string \<Rightarrow> string + string" where
  "normalize kind value =
     (let value = trim value in
      if value = [] then Inl ''identifier value is required''
      else let normalized = (case kind of
                Mac \<Rightarrow> map lower_char (filter is_ascii_hexdigit value)
              | SnmpEngineId \<Rightarrow> map lower_char (filter is_ascii_hexdigit value)
              | Hostname \<Rightarrow> to_ascii_lowercase (trim_end_matches (CHR ''.'') value)
              | Serial \<Rightarrow> to_ascii_lowercase value
              | ProviderNativeId \<Rightarrow> to_ascii_lowercase value
              | AssetTag \<Rightarrow> to_ascii_lowercase value)
           in if normalized = [] then Inl ''identifier value is invalid after normalization''
              else Inr normalized)"

record device_identifier =
  di_kind :: identifier_kind
  di_value :: string

section \<open>Records and merging\<close>

text \<open>\<open>BTreeSet\<close> is a set; \<open>version\<close> is a \<open>u64\<close>.\<close>

record device_record =
  dr_id :: uuid
  dr_organization_id :: uuid
  dr_site_id :: uuid
  dr_routing_domain_id :: "uuid option"
  dr_lifecycle :: device_lifecycle
  dr_display_name :: "string option"
  dr_identifiers :: "device_identifier set"
  dr_vendor :: "string evidence option"
  dr_model :: "string evidence option"
  dr_version :: int

definition has_stable_match_with :: "device_record \<Rightarrow> device_record \<Rightarrow> bool" where
  "has_stable_match_with self other \<longleftrightarrow>
     (if dr_organization_id self \<noteq> dr_organization_id other \<or> dr_site_id self \<noteq> dr_site_id other
      then False
      else \<exists>i \<in> dr_identifiers self.
             di_kind i \<in> {Serial, Mac, SnmpEngineId, ProviderNativeId}
             \<and> i \<in> dr_identifiers other)"

definition can_auto_merge_with :: "device_record \<Rightarrow> device_record \<Rightarrow> bool" where
  "can_auto_merge_with self other \<longleftrightarrow>
     has_stable_match_with self other
     \<and> dr_lifecycle self \<noteq> Retired
     \<and> dr_lifecycle other \<noteq> Retired
     \<and> dr_lifecycle self \<noteq> Archived
     \<and> dr_lifecycle other \<noteq> Archived"

datatype merge_decision = SameResource | RequiresReview | DifferentResource

definition decide_merge :: "device_record \<Rightarrow> device_record \<Rightarrow> merge_decision" where
  "decide_merge left right =
     (if can_auto_merge_with left right then SameResource
      else if dr_organization_id left = dr_organization_id right
              \<and> dr_site_id left = dr_site_id right
              \<and> (\<exists>i \<in> dr_identifiers left.
                    di_kind i \<in> {Hostname, AssetTag} \<and> i \<in> dr_identifiers right)
      then RequiresReview
      else DifferentResource)"

section \<open>Lemmas: the lifecycle machine\<close>

inductive lifecycle_step :: "device_lifecycle \<Rightarrow> device_lifecycle \<Rightarrow> bool" where
  move: "can_transition_to l m \<Longrightarrow> l \<noteq> m \<Longrightarrow> lifecycle_step l m"

inductive_simps lifecycle_step_iff: "lifecycle_step l m"

lemma lifecycle_step_from:
  "lifecycle_step Archived m \<longleftrightarrow> False"
  "lifecycle_step Retired m \<longleftrightarrow> m = PendingReview \<or> m = Archived"
  "lifecycle_step Discovered m \<longleftrightarrow> m = PendingReview \<or> m = Unmanaged \<or> m = Archived"
  "lifecycle_step PendingReview m \<longleftrightarrow> m = Managed \<or> m = Unmanaged \<or> m = Archived"
  by (auto simp: lifecycle_step_iff can_transition_to_def)

fun lifecycle_path :: "device_lifecycle list \<Rightarrow> bool" where
  "lifecycle_path (l # m # ls) = (lifecycle_step l m \<and> lifecycle_path (m # ls))"
| "lifecycle_path _ = True"

lemma archived_path_end: "lifecycle_path (Archived # ls) \<Longrightarrow> ls = []"
  by (cases ls) (auto simp: lifecycle_step_from)

text \<open>The lifecycle machine guards reactivation: an archived device never leaves that state, and
  every path from a retired device to any state but retired and archived passes through review.\<close>

theorem lifecycle_review_gate:
  assumes "lifecycle_path (l # ls)" and "m \<in> set ls"
  shows "l \<noteq> Archived \<and> (l = Retired \<and> m \<noteq> Archived \<longrightarrow> hd ls = PendingReview)"
proof (intro conjI impI notI)
  assume "l = Archived"
  with assms show False using archived_path_end by fastforce
next
  assume r: "l = Retired \<and> m \<noteq> Archived"
  from assms(2) obtain x xs where ls: "ls = x # xs" by (cases ls) auto
  with assms r have "x = PendingReview \<or> x = Archived" by (simp add: lifecycle_step_from)
  then show "hd ls = PendingReview"
  proof
    assume x: "x = Archived"
    with assms ls have "xs = []" by (intro archived_path_end) auto
    with assms ls x r show ?thesis by auto
  qed (simp add: ls)
qed

theorem lifecycle_review_gate_witness:
  "lifecycle_path [Retired, PendingReview, Managed]
    \<and> hd [PendingReview, Managed] = PendingReview"
proof -
  have p: "lifecycle_path (Retired # [PendingReview, Managed])"
    by (simp add: lifecycle_step_iff can_transition_to_def)
  show ?thesis using p lifecycle_review_gate [OF p, of Managed] by simp
qed

text \<open>A discovered device reaches \<open>Managed\<close> in two steps without passing through review.\<close>

lemma discovered_skips_review:
  "lifecycle_path [Discovered, Unmanaged, Managed]"
  by (simp add: lifecycle_step_iff can_transition_to_def)

section \<open>Lemmas: normalisation\<close>

lemma code_of_lower:
  "n < 65 \<or> 122 < n \<Longrightarrow> code_of (lower_char c) = n \<longleftrightarrow> code_of c = n"
  by (auto simp: lower_char_def is_ascii_uppercase_def str_simps)

lemma ws1_lower: "ws1 (code_of (lower_char c)) \<longleftrightarrow> ws1 (code_of c)"
  by (auto simp: ws1_def lower_char_def is_ascii_uppercase_def str_simps)

lemma ws3_lower:
  "ws3 (code_of (lower_char a)) (code_of (lower_char b)) (code_of (lower_char c))
    \<longleftrightarrow> ws3 (code_of a) (code_of b) (code_of c)"
proof -
  have "128 \<le> code_of (lower_char c) \<and> code_of (lower_char c) \<le> 138
      \<longleftrightarrow> 128 \<le> code_of c \<and> code_of c \<le> 138"
    by (auto simp: lower_char_def is_ascii_uppercase_def str_simps)
  then show ?thesis by (simp add: ws3_def code_of_lower)
qed

lemma ws_seq_lower: "ws_seq (map lower_char s) \<longleftrightarrow> ws_seq s"
  by (auto simp: ws_seq_def ws1_lower ws2_def code_of_lower ws3_lower split: list.split)

lemma ws_front_lower: "ws_front (map lower_char s) = ws_front s"
  by (simp add: ws_front_def take_map ws_seq_lower)

lemma ws_back_lower: "ws_back (map lower_char s) = ws_back s"
  by (simp add: ws_back_def take_map rev_map ws_seq_lower)

lemma trim_start_lower: "trim_start (map lower_char s) = map lower_char (trim_start s)"
proof (induction s rule: trim_start.induct)
  case (1 s)
  then show ?case
    by (simp add: trim_start.simps [of s] trim_start.simps [of "map lower_char s"]
        ws_front_lower drop_map)
qed

lemma trim_back_lower: "trim_back (map lower_char s) = map lower_char (trim_back s)"
proof (induction s rule: trim_back.induct)
  case (1 s)
  then show ?case
    by (simp add: trim_back.simps [of s] trim_back.simps [of "map lower_char s"]
        ws_back_lower drop_map)
qed

lemma trim_lower: "trim (to_ascii_lowercase s) = to_ascii_lowercase (trim s)"
  by (simp add: trim_def trim_end_def to_ascii_lowercase_def trim_start_lower trim_back_lower
      rev_map)

lemma dots_lower:
  "trim_end_matches (CHR ''.'') (to_ascii_lowercase s)
    = to_ascii_lowercase (trim_end_matches (CHR ''.'') s)"
proof -
  have "lower_char c = CHR ''.'' \<longleftrightarrow> c = CHR ''.''" for c
  proof -
    have "code_of (lower_char c) = 46 \<longleftrightarrow> code_of c = 46" by (rule code_of_lower) simp
    moreover have "code_of d = 46 \<longleftrightarrow> d = CHR ''.''" for d
      using code_of_inj [of d "CHR ''.''"] by (simp add: code_of_def)
    ultimately show ?thesis by simp
  qed
  then show ?thesis
    by (simp add: trim_end_matches_def to_ascii_lowercase_def rev_map dropWhile_map comp_def)
qed

lemma hexdigit_lower_iff: "is_ascii_hexdigit (lower_char c) \<longleftrightarrow> is_ascii_hexdigit c"
  by (auto simp: is_ascii_hexdigit_def is_ascii_digit_def lower_char_def is_ascii_uppercase_def
      str_simps split: if_splits)

lemma hex_lower: "filter is_ascii_hexdigit (to_ascii_lowercase s)
    = to_ascii_lowercase (filter is_ascii_hexdigit s)"
  by (simp add: to_ascii_lowercase_def filter_map comp_def hexdigit_lower_iff)

lemma map_lower_to_ascii: "map lower_char s = to_ascii_lowercase s"
  by (simp add: to_ascii_lowercase_def)

lemma normalize_lowercase: "normalize k (to_ascii_lowercase v) = normalize k v"
  by (cases k) (simp_all add: normalize_def Let_def trim_lower dots_lower hex_lower
      map_lower_to_ascii lowercase_idem)

lemma normalize_trim: "normalize k (trim v) = normalize k v"
  by (simp add: normalize_def trim_trim)

lemma hex_not_ws: "list_all is_ascii_hexdigit s \<Longrightarrow> \<not> ws_seq s"
  by (auto simp: ws_seq_def ws1_def ws2_def ws3_def is_ascii_hexdigit_def is_ascii_digit_def
      split: list.splits)

lemma trim_hex:
  assumes "list_all is_ascii_hexdigit s"
  shows "trim s = s"
proof -
  have t: "list_all is_ascii_hexdigit (take n s)" "list_all is_ascii_hexdigit (rev (take n (rev s)))"
    for n using assms by (auto simp: list_all_iff dest: in_set_takeD)
  then have "ws_front s = 0" "ws_back (rev s) = 0"
    by (simp_all add: ws_front_def ws_back_def hex_not_ws)
  then show ?thesis by (simp add: trim_def trim_end_def str_simps)
qed

lemma normalize_hex:
  assumes "k = Mac \<or> k = SnmpEngineId" and "normalize k v = Inr n"
  shows "normalize k n = Inr n"
proof -
  let ?f = "filter is_ascii_hexdigit (trim v)"
  from assms have n: "n = to_ascii_lowercase ?f" "n \<noteq> []"
    by (auto simp: normalize_def Let_def map_lower_to_ascii split: if_splits)
  then have "list_all is_ascii_hexdigit n"
    by (simp add: to_ascii_lowercase_def list_all_iff hexdigit_lower_iff)
  then have "trim n = n" and "filter is_ascii_hexdigit n = n"
    by (simp_all add: trim_hex filter_id_conv list_all_iff)
  with assms(1) n show ?thesis
    by (auto simp: normalize_def Let_def map_lower_to_ascii lowercase_idem)
qed

text \<open>Normalisation of identifiers does not depend on surrounding white space or on the case of
  ASCII letters, and is idempotent for every kind but the hostname.\<close>

theorem normalize_canonical:
  "normalize k (trim (to_ascii_lowercase v)) = normalize k v
    \<and> (k \<noteq> Hostname \<and> normalize k v = Inr n \<longrightarrow> normalize k n = Inr n)"
proof (intro conjI impI)
  show "normalize k (trim (to_ascii_lowercase v)) = normalize k v"
    by (simp add: normalize_trim normalize_lowercase)
next
  assume h: "k \<noteq> Hostname \<and> normalize k v = Inr n"
  show "normalize k n = Inr n"
  proof (cases "k = Mac \<or> k = SnmpEngineId")
    case True
    with h show ?thesis by (blast intro: normalize_hex)
  next
    case False
    with h have n: "n = to_ascii_lowercase (trim v)" "n \<noteq> []"
      by (cases k; auto simp: normalize_def Let_def split: if_splits)+
    with False h show ?thesis
      by (cases k) (simp_all add: normalize_def Let_def trim_lower trim_trim lowercase_idem)
  qed
qed

lemma normalize_mac_example: "normalize Mac ''AA:BB:CC:00:11:22'' = Inr ''aabbcc001122''"
  by code_simp

theorem normalize_canonical_witness:
  "normalize Mac ''aabbcc001122'' = Inr ''aabbcc001122''"
  using normalize_canonical [of Mac "''AA:BB:CC:00:11:22''" "''aabbcc001122''"]
  by (simp add: normalize_mac_example)

text \<open>A hostname with white space before its final dot is not in normal form after one pass.\<close>

lemma normalize_hostname_not_idempotent:
  "normalize Hostname ''host .'' = Inr ''host '' \<and> normalize Hostname ''host '' = Inr ''host''"
  by code_simp

section \<open>Merging\<close>

lemma has_stable_match_iff:
  "has_stable_match_with l r \<longleftrightarrow> dr_organization_id l = dr_organization_id r
    \<and> dr_site_id l = dr_site_id r
    \<and> (\<exists>i \<in> dr_identifiers l \<inter> dr_identifiers r. kind_strength (di_kind i) = Strong)"
  by (auto simp: has_stable_match_with_def kind_strength_def)

lemma weak_kind_iff: "k \<in> {Hostname, AssetTag} \<longleftrightarrow> kind_strength k = Weak"
  by (cases k) (simp_all add: kind_strength_def)

lemma can_auto_merge_sym: "can_auto_merge_with l r \<longleftrightarrow> can_auto_merge_with r l"
  by (auto simp: can_auto_merge_with_def has_stable_match_iff)

lemma weak_match_sym:
  "(\<exists>i \<in> A. P i \<and> i \<in> B) \<longleftrightarrow> (\<exists>i \<in> B. P i \<and> i \<in> A)"
  by blast

text \<open>Two records are merged automatically exactly when they share a strong identifier inside one
  organization and site and neither is retired or archived; the decision is symmetric, and
  outside one organization and site it is always \<open>DifferentResource\<close>.\<close>

theorem decide_merge_spec:
  "(decide_merge l r = SameResource \<longleftrightarrow>
      dr_organization_id l = dr_organization_id r \<and> dr_site_id l = dr_site_id r
      \<and> dr_lifecycle l \<notin> {Retired, Archived} \<and> dr_lifecycle r \<notin> {Retired, Archived}
      \<and> (\<exists>i \<in> dr_identifiers l \<inter> dr_identifiers r. kind_strength (di_kind i) = Strong))
   \<and> decide_merge l r = decide_merge r l
   \<and> (dr_organization_id l \<noteq> dr_organization_id r \<or> dr_site_id l \<noteq> dr_site_id r
      \<longrightarrow> decide_merge l r = DifferentResource)"
proof (intro conjI)
  have "decide_merge l r = SameResource \<longleftrightarrow> can_auto_merge_with l r"
    by (simp add: decide_merge_def)
  then show "decide_merge l r = SameResource \<longleftrightarrow>
      dr_organization_id l = dr_organization_id r \<and> dr_site_id l = dr_site_id r
      \<and> dr_lifecycle l \<notin> {Retired, Archived} \<and> dr_lifecycle r \<notin> {Retired, Archived}
      \<and> (\<exists>i \<in> dr_identifiers l \<inter> dr_identifiers r. kind_strength (di_kind i) = Strong)"
    unfolding can_auto_merge_with_def has_stable_match_iff by blast
  show "decide_merge l r = decide_merge r l"
    unfolding decide_merge_def can_auto_merge_sym [of l r]
      weak_match_sym [of "dr_identifiers l" _ "dr_identifiers r"]
    by (simp add: eq_commute)
  show "dr_organization_id l \<noteq> dr_organization_id r \<or> dr_site_id l \<noteq> dr_site_id r
      \<longrightarrow> decide_merge l r = DifferentResource"
    by (auto simp: decide_merge_def can_auto_merge_with_def has_stable_match_iff)
qed

definition demo_record :: "uuid \<Rightarrow> device_lifecycle \<Rightarrow> device_record" where
  "demo_record org l = \<lparr>dr_id = 1, dr_organization_id = org, dr_site_id = 3,
     dr_routing_domain_id = None, dr_lifecycle = l, dr_display_name = None,
     dr_identifiers = {\<lparr>di_kind = Serial, di_value = ''a-1''\<rparr>}, dr_vendor = None,
     dr_model = None, dr_version = 1\<rparr>"

theorem decide_merge_spec_witness:
  "decide_merge (demo_record 1 Managed) (demo_record 2 Managed) = DifferentResource
    \<and> decide_merge (demo_record 1 Managed) (demo_record 1 Discovered) = SameResource"
proof -
  note spec = decide_merge_spec [of "demo_record 1 Managed"]
  have "decide_merge (demo_record 1 Managed) (demo_record 2 Managed) = DifferentResource"
    using spec [of "demo_record 2 Managed", THEN conjunct2, THEN conjunct2]
    by (simp add: demo_record_def)
  moreover have "decide_merge (demo_record 1 Managed) (demo_record 1 Discovered) = SameResource"
    using spec [of "demo_record 1 Discovered", THEN conjunct1]
    by (simp add: demo_record_def kind_strength_def)
  ultimately show ?thesis ..
qed

text \<open>A retired record with the same serial number is reported as a different device, without a
  request for review.\<close>

lemma retired_twin_is_different:
  "decide_merge (demo_record 1 Retired) (demo_record 1 Managed) = DifferentResource"
  by (simp add: decide_merge_def can_auto_merge_with_def demo_record_def)

end
