(* ===== verification/Domain_Policies.thy ===== *)
theory Domain_Policies
  imports Ip_Addr Device_Domain
begin

unbundle bit_operations_syntax

text \<open>
  The decision functions of crates/domain/src besides inventory: data governance, discovery
  scopes, IPAM, monitoring, provider capabilities, change control and the trial licence.
\<close>

section \<open>Governance\<close>

datatype data_class = Public | Internal | Confidential | Secret

text \<open>The order the source derives: from what may be published to what must never be seen.\<close>

fun data_class_rank :: "data_class \<Rightarrow> nat" where
  "data_class_rank Public = 0"
| "data_class_rank Internal = 1"
| "data_class_rank Confidential = 2"
| "data_class_rank Secret = 3"

lemma data_class_rank_inj: "data_class_rank x = data_class_rank y \<longleftrightarrow> x = y"
  by (cases x; cases y) simp_all

instantiation data_class :: linorder
begin

definition less_eq_data_class :: "data_class \<Rightarrow> data_class \<Rightarrow> bool" where
  "less_eq_data_class x y \<longleftrightarrow> data_class_rank x \<le> data_class_rank y"

definition less_data_class :: "data_class \<Rightarrow> data_class \<Rightarrow> bool" where
  "less_data_class x y \<longleftrightarrow> data_class_rank x < data_class_rank y"

instance
  by standard (auto simp: less_eq_data_class_def less_data_class_def data_class_rank_inj order.antisym)

end

datatype purge_strategy = Delete | Anonymize | ArchiveThenDelete | AppendOnlyPolicy

record dataset_policy =
  dp_dataset :: string
  dp_owner :: string
  dp_purpose :: string
  dp_class :: data_class
  dp_retention_days :: "32 word"
  dp_purge_strategy :: purge_strategy
  dp_legal_hold_supported :: bool

definition dataset_policy_validate :: "dataset_policy \<Rightarrow> string + unit" where
  "dataset_policy_validate p =
     (if trim (dp_dataset p) = [] \<or> trim (dp_owner p) = [] \<or> trim (dp_purpose p) = []
      then Inl ''dataset, owner and purpose are required''
      else if dp_retention_days p = 0 \<and> dp_purge_strategy p \<noteq> AppendOnlyPolicy
      then Inl ''non append-only datasets need an explicit positive retention''
      else Inr ())"

section \<open>Discovery\<close>

datatype discovery_status =
  DiscoveryQueued | DiscoveryRunning | DiscoveryCompleted | DiscoveryPartial
  | DiscoveryFailed | DiscoveryCancelled

datatype observation_kind = Reachability | Neighbor | ReverseDns | Service | ManagementProtocol

datatype ipv6_discovery_strategy =
  SeededTargets | NeighborEvidence | DnsEvidence | ProviderInventory

record 'n discovery_scope =
  ds_id :: uuid
  ds_organization_id :: uuid
  ds_site_id :: uuid
  ds_routing_domain_id :: uuid
  ds_network :: 'n
  ds_observations :: "observation_kind list"
  ds_ipv6_strategy :: "ipv6_discovery_strategy option"
  ds_concurrency_limit :: "16 word"
  ds_rate_per_second :: "16 word"
  ds_timeout_ms :: "32 word"

definition discovery_scope_validate :: "'n ipnet_ops \<Rightarrow> 'n discovery_scope \<Rightarrow> string + unit" where
  "discovery_scope_validate ops s =
     (if ds_concurrency_limit s = 0 \<or> ds_rate_per_second s = 0 \<or> ds_timeout_ms s = 0
      then Inl ''discovery limits must be non-zero''
      else if net_is_v6 ops (ds_network s)
           \<and> net_prefix_len ops (ds_network s) \<le> 64
           \<and> ds_ipv6_strategy s = None
      then Inl ''large IPv6 scopes require an explicit evidence-based strategy''
      else Inr ())"

record fingerprint_evidence =
  fe_field :: string
  fe_value :: string
  fe_source :: string
  fe_confidence :: f32

definition fingerprint_validate :: "fingerprint_evidence \<Rightarrow> string + unit" where
  "fingerprint_validate e =
     (if trim (fe_field e) = [] \<or> trim (fe_source e) = []
      then Inl ''fingerprint field/source are required''
      else if \<not> in_unit_interval (fe_confidence e)
      then Inl ''confidence must be between 0 and 1''
      else Inr ())"

section \<open>IPAM\<close>

datatype address_state = Observed | Available | Reserved | Assigned | Deprecated | Conflict

record 'n scoped_prefix =
  sp_id :: uuid
  sp_organization_id :: uuid
  sp_site_id :: uuid
  sp_routing_domain_id :: uuid
  sp_prefix :: 'n

record ip_allocation =
  al_id :: uuid
  al_organization_id :: uuid
  al_site_id :: uuid
  al_routing_domain_id :: uuid
  al_interface_id :: "uuid option"
  al_address :: ip_addr
  al_state :: address_state

fun is_ipv6_link_local :: "ip_addr \<Rightarrow> bool" where
  "is_ipv6_link_local (V6 value) = (segment0 value AND 0xffc0 = 0xfe80)"
| "is_ipv6_link_local (V4 _) = False"

definition same_l3_identity :: "ip_allocation \<Rightarrow> ip_allocation \<Rightarrow> bool" where
  "same_l3_identity self other \<longleftrightarrow>
     al_organization_id self = al_organization_id other
     \<and> al_site_id self = al_site_id other
     \<and> al_routing_domain_id self = al_routing_domain_id other
     \<and> al_address self = al_address other
     \<and> (\<not> is_ipv6_link_local (al_address self) \<or> al_interface_id self = al_interface_id other)"

definition allocation_validate :: "ip_allocation \<Rightarrow> string + unit" where
  "allocation_validate a =
     (if is_ipv6_link_local (al_address a) \<and> al_interface_id a = None
      then Inl ''IPv6 link-local allocation requires interface scope''
      else Inr ())"

definition prefixes_conflict :: "'n ipnet_ops \<Rightarrow> 'n scoped_prefix \<Rightarrow> 'n scoped_prefix \<Rightarrow> bool" where
  "prefixes_conflict ops left right \<longleftrightarrow>
     (if sp_organization_id left \<noteq> sp_organization_id right
         \<or> sp_site_id left \<noteq> sp_site_id right
         \<or> sp_routing_domain_id left \<noteq> sp_routing_domain_id right
      then False
      else net_contains ops (sp_prefix left) (net_network ops (sp_prefix right))
           \<or> net_contains ops (sp_prefix right) (net_network ops (sp_prefix left)))"

section \<open>Monitoring\<close>

datatype health_state = Up | Down | Degraded | UnknownHealth | Stale

datatype alert_severity = Info | Warning | Critical

datatype alert_state = Open | Acknowledged | Resolved | Suppressed

record 'a observation =
  ob_value :: "'a option"
  ob_state :: health_state
  ob_observed_at_unix_ms :: i64
  ob_source :: string
  ob_error_code :: "string option"

definition observation_unknown :: "string \<Rightarrow> i64 \<Rightarrow> string \<Rightarrow> 'a observation" where
  "observation_unknown source observed_at error_code =
     \<lparr>ob_value = None, ob_state = UnknownHealth, ob_observed_at_unix_ms = observed_at,
      ob_source = source, ob_error_code = Some error_code\<rparr>"

record alert_fingerprint =
  af_organization :: string
  af_site :: "string option"
  af_resource :: string
  af_rule :: string
  af_dimension :: "string option"

definition or_dash :: "string option \<Rightarrow> string" where
  "or_dash x = (case x of None \<Rightarrow> ''-'' | Some s \<Rightarrow> s)"

definition stable_key :: "alert_fingerprint \<Rightarrow> string" where
  "stable_key f = af_organization f @ '':'' @ or_dash (af_site f) @ '':'' @ af_resource f
     @ '':'' @ af_rule f @ '':'' @ or_dash (af_dimension f)"

datatype suppression = Deliver | SuppressMaintenance | SuppressDebounce

definition suppression_decision :: "bool \<Rightarrow> 16 word \<Rightarrow> 16 word \<Rightarrow> suppression" where
  "suppression_decision in_maintenance stable_for_samples required_samples =
     (if in_maintenance then SuppressMaintenance
      else if stable_for_samples < required_samples then SuppressDebounce
      else Deliver)"

section \<open>Provider capabilities\<close>

definition identifier_byte :: "char \<Rightarrow> bool" where
  "identifier_byte b \<longleftrightarrow> is_ascii_lowercase b \<or> is_ascii_digit b
     \<or> b \<in> {CHR ''.'', CHR ''-'', CHR ''_''}"

definition capability_id_parse :: "string \<Rightarrow> string + string" where
  "capability_id_parse value =
     (let valid = (value \<noteq> [] \<and> length value \<le> 128 \<and> list_all identifier_byte value) in
      if \<not> valid \<or> \<not> contains_str ''.'' value
      then Inl ''capability id must be a dotted lowercase identifier''
      else Inr value)"

datatype access_mode = Read | Write

datatype support_status =
  Supported | Candidate | Experimental | ReadOnly | Blocked | DeprecatedSupport | UnsupportedSupport

datatype transport_kind =
  HttpsApi | Snmp | Ssh | WinRm | Netconf | Restconf | Gnmi | LocalSystem

datatype execution_placement = ControlPlane | SiteLocal | Either

record provider_capability =
  pc_provider :: string
  pc_product_family :: string
  pc_tested_versions :: "string list"
  pc_capability :: string
  pc_access :: access_mode
  pc_status :: support_status
  pc_transports :: "transport_kind list"
  pc_placement :: execution_placement
  pc_ipv4 :: bool
  pc_ipv6 :: bool
  pc_routing_domains :: bool
  pc_limitations :: "string list"
  pc_contract_test_ref :: "string option"
  pc_lab_evidence_ref :: "string option"

definition may_be_advertised_supported :: "provider_capability \<Rightarrow> bool" where
  "may_be_advertised_supported p \<longleftrightarrow>
     pc_status p = Supported
     \<and> pc_contract_test_ref p \<noteq> None
     \<and> pc_lab_evidence_ref p \<noteq> None
     \<and> pc_tested_versions p \<noteq> []"

section \<open>Change control\<close>

datatype change_risk = LowRisk | MediumRisk | HighRisk | CriticalRisk

text \<open>The order the source derives: from the least risk to the greatest.\<close>

fun change_risk_rank :: "change_risk \<Rightarrow> nat" where
  "change_risk_rank LowRisk = 0"
| "change_risk_rank MediumRisk = 1"
| "change_risk_rank HighRisk = 2"
| "change_risk_rank CriticalRisk = 3"

lemma change_risk_rank_inj: "change_risk_rank x = change_risk_rank y \<longleftrightarrow> x = y"
  by (cases x; cases y) simp_all

instantiation change_risk :: linorder
begin

definition less_eq_change_risk :: "change_risk \<Rightarrow> change_risk \<Rightarrow> bool" where
  "less_eq_change_risk x y \<longleftrightarrow> change_risk_rank x \<le> change_risk_rank y"

definition less_change_risk :: "change_risk \<Rightarrow> change_risk \<Rightarrow> bool" where
  "less_change_risk x y \<longleftrightarrow> change_risk_rank x < change_risk_rank y"

instance
  by standard (auto simp: less_eq_change_risk_def less_change_risk_def change_risk_rank_inj order.antisym)

end

datatype change_state =
  Planned | AwaitingApproval | Approved | Running | Paused | PartiallySucceeded
  | ChangeSucceeded | ChangeFailed | ChangeRolledBack | ChangeUnknown | ChangeCancelled

record change_plan =
  cp_id :: uuid
  cp_action :: string
  cp_target_fingerprint :: string
  cp_input_fingerprint :: string
  cp_provider_version :: string
  cp_risk :: change_risk
  cp_dry_run :: bool
  cp_rollback_supported :: bool

record approval =
  ap_plan_id :: uuid
  ap_approver_id :: uuid
  ap_target_fingerprint :: string
  ap_input_fingerprint :: string
  ap_provider_version :: string
  ap_approved_at_unix_ms :: i64
  ap_expires_at_unix_ms :: i64

definition approval_is_valid_for :: "approval \<Rightarrow> change_plan \<Rightarrow> i64 \<Rightarrow> bool" where
  "approval_is_valid_for a plan now \<longleftrightarrow>
     ap_plan_id a = cp_id plan
     \<and> ap_target_fingerprint a = cp_target_fingerprint plan
     \<and> ap_input_fingerprint a = cp_input_fingerprint plan
     \<and> ap_provider_version a = cp_provider_version plan
     \<and> now < ap_expires_at_unix_ms a"

datatype target_outcome =
  TargetSucceeded | TargetFailed | TargetRolledBack | TargetUnknown | NotAttempted

record target_result =
  tg_target_id :: string
  tg_outcome :: target_outcome
  tg_confirmed :: bool
  tg_error_code :: "string option"

definition summarize_targets :: "target_result list \<Rightarrow> change_state" where
  "summarize_targets results =
     (if results = [] then ChangeFailed
      else if list_ex (\<lambda>t. tg_outcome t = TargetUnknown \<or> \<not> tg_confirmed t) results
      then ChangeUnknown
      else let succeeded = length (filter (\<lambda>t. tg_outcome t = TargetSucceeded) results);
               failed = length (filter (\<lambda>t. tg_outcome t = TargetFailed) results)
           in if succeeded = length results then ChangeSucceeded
              else if failed = length results then ChangeFailed
              else PartiallySucceeded)"

section \<open>Trial licence\<close>

datatype trial_state = TrialInactive | TrialActive | TrialExpiring | TrialExpired | TrialConverted

record trial_policy =
  max_devices :: "32 word"
  max_sites :: "16 word"
  max_admin_users :: "16 word"
  allow_read_capabilities :: bool
  allow_low_risk_mutations :: bool
  allow_critical_mutations :: bool

definition default_trial_policy :: trial_policy where
  "default_trial_policy = \<lparr>max_devices = 100, max_sites = 3, max_admin_users = 3,
     allow_read_capabilities = True, allow_low_risk_mutations = False,
     allow_critical_mutations = False\<rparr>"

record trial_license =
  tl_id :: uuid
  tl_installation_id :: uuid
  tl_state :: trial_state
  tl_starts_at_unix_ms :: i64
  tl_expires_at_unix_ms :: i64
  tl_policy :: trial_policy

datatype trial_action =
  TrialRead | LowRiskMutation | CriticalMutation | CreateDevice | CreateSite | CreateAdminUser

record trial_usage =
  tu_devices :: "32 word"
  tu_sites :: "16 word"
  tu_admin_users :: "16 word"

datatype trial_decision = Allow | DenyExpired | DenyPolicy | DenyLimit

definition effective_state :: "trial_license \<Rightarrow> i64 \<Rightarrow> i64 \<Rightarrow> trial_state" where
  "effective_state l now expiring_window_ms =
     (if tl_state l = TrialConverted then TrialConverted
      else if tl_expires_at_unix_ms l \<le> now then TrialExpired
      else if saturating_sub64 (tl_expires_at_unix_ms l) expiring_window_ms \<le> now
      then TrialExpiring
      else TrialActive)"

definition trial_decide :: "trial_license \<Rightarrow> trial_action \<Rightarrow> trial_usage \<Rightarrow> i64 \<Rightarrow> trial_decision" where
  "trial_decide l action usage now =
     (if effective_state l now 0 = TrialConverted then Allow
      else if tl_expires_at_unix_ms l \<le> now
      then (if action = TrialRead then Allow else DenyExpired)
      else (case action of
          TrialRead \<Rightarrow> if allow_read_capabilities (tl_policy l) then Allow else DenyPolicy
        | LowRiskMutation \<Rightarrow> if allow_low_risk_mutations (tl_policy l) then Allow else DenyPolicy
        | CriticalMutation \<Rightarrow> if allow_critical_mutations (tl_policy l) then Allow else DenyPolicy
        | CreateDevice \<Rightarrow> if tu_devices usage < max_devices (tl_policy l) then Allow else DenyLimit
        | CreateSite \<Rightarrow> if tu_sites usage < max_sites (tl_policy l) then Allow else DenyLimit
        | CreateAdminUser \<Rightarrow>
            if tu_admin_users usage < max_admin_users (tl_policy l) then Allow else DenyLimit))"

section \<open>Properties\<close>

text \<open>Inside one routing domain two prefixes conflict exactly when some address lies in both;
  across organizations, sites or routing domains they never conflict.\<close>

theorem prefixes_conflict_iff:
  assumes "cidr_laws ops"
  shows "prefixes_conflict ops l r \<longleftrightarrow>
    sp_organization_id l = sp_organization_id r \<and> sp_site_id l = sp_site_id r
    \<and> sp_routing_domain_id l = sp_routing_domain_id r
    \<and> (\<exists>a. net_contains ops (sp_prefix l) a \<and> net_contains ops (sp_prefix r) a)"
  unfolding prefixes_conflict_def cidr_overlap_iff [OF assms] by auto

definition demo_prefix :: "uuid \<Rightarrow> 32 word \<Rightarrow> nat \<Rightarrow> (ip_addr \<times> nat) scoped_prefix" where
  "demo_prefix rd a n = \<lparr>sp_id = 9, sp_organization_id = 1, sp_site_id = 2,
     sp_routing_domain_id = rd, sp_prefix = (V4 a, n)\<rparr>"

theorem prefixes_conflict_iff_witness:
  "\<not> prefixes_conflict cidr_ops (demo_prefix 3 0x0A000000 24) (demo_prefix 4 0x0A000000 24)
    \<and> prefixes_conflict cidr_ops (demo_prefix 3 0x0A000000 24) (demo_prefix 3 0x0A000080 25)"
proof -
  note spec = prefixes_conflict_iff [OF cidr_ops_laws, of "demo_prefix 3 0x0A000000 24"]
  have "net_contains cidr_ops (V4 0x0A000000, 24) (V4 0x0A000080)"
    "net_contains cidr_ops (V4 0x0A000080, 25) (V4 0x0A000080)"
    by (simp_all add: cidr_ops_def cidr_len_def)
  then have "prefixes_conflict cidr_ops (demo_prefix 3 0x0A000000 24) (demo_prefix 3 0x0A000080 25)"
    unfolding spec by (auto simp: demo_prefix_def)
  moreover have "\<not> prefixes_conflict cidr_ops (demo_prefix 3 0x0A000000 24) (demo_prefix 4 0x0A000000 24)"
    unfolding spec by (simp add: demo_prefix_def)
  ultimately show ?thesis by simp
qed

lemma link_local_agrees: "is_ipv6_link_local (V6 a) \<longleftrightarrow> v6_is_unicast_link_local a"
  by (simp add: v6_is_unicast_link_local_def)

lemma same_l3_identity_equiv:
  "same_l3_identity a a"
  "same_l3_identity a b \<Longrightarrow> same_l3_identity b a"
  "same_l3_identity a b \<Longrightarrow> same_l3_identity b c \<Longrightarrow> same_l3_identity a c"
  by (auto simp: same_l3_identity_def)

text \<open>A change is reported as succeeded exactly when there is at least one target and every target
  is confirmed as succeeded; an unconfirmed or unknown target always makes the result unknown.\<close>

theorem summarize_targets_spec:
  "(summarize_targets rs = ChangeSucceeded \<longleftrightarrow>
      rs \<noteq> [] \<and> (\<forall>t \<in> set rs. tg_outcome t = TargetSucceeded \<and> tg_confirmed t))
   \<and> (summarize_targets rs = ChangeUnknown \<longleftrightarrow>
      (\<exists>t \<in> set rs. tg_outcome t = TargetUnknown \<or> \<not> tg_confirmed t))
   \<and> (summarize_targets rs = ChangeFailed \<longleftrightarrow>
      (\<forall>t \<in> set rs. tg_outcome t = TargetFailed \<and> tg_confirmed t))"
proof -
  have all: "length (filter p rs) = length rs \<longleftrightarrow> (\<forall>t \<in> set rs. p t)" for p :: "target_result \<Rightarrow> bool"
    by (metis filter_id_conv length_filter_less less_irrefl)
  show ?thesis
    unfolding summarize_targets_def all Let_def list_ex_iff by (cases rs) auto
qed

theorem summarize_targets_spec_witness:
  "summarize_targets [\<lparr>tg_target_id = ''a'', tg_outcome = TargetSucceeded, tg_confirmed = False,
      tg_error_code = None\<rparr>] = ChangeUnknown"
  using summarize_targets_spec [of "[\<lparr>tg_target_id = ''a'', tg_outcome = TargetSucceeded,
      tg_confirmed = False, tg_error_code = None\<rparr>]"] by simp

text \<open>Targets that were all rolled back are summed up as a partial success.\<close>

lemma rolled_back_is_partial:
  "summarize_targets [\<lparr>tg_target_id = ''a'', tg_outcome = TargetRolledBack, tg_confirmed = True,
      tg_error_code = None\<rparr>] = PartiallySucceeded"
  by (simp add: summarize_targets_def)

text \<open>An approval survives a change of the plan's action, risk and dry-run flag.\<close>

lemma approval_ignores_action:
  "approval_is_valid_for a (p\<lparr>cp_action := x, cp_risk := r, cp_dry_run := d\<rparr>) now
    \<longleftrightarrow> approval_is_valid_for a p now"
  by (simp add: approval_is_valid_for_def)

text \<open>A trial that is not converted allows nothing but reading from its expiry on, and before it a
  creation only below the limit of the policy; the decision is \<open>DenyExpired\<close> only after expiry.\<close>

theorem trial_decide_spec:
  assumes "tl_state l \<noteq> TrialConverted"
  shows "(tl_expires_at_unix_ms l \<le> now \<longrightarrow> (trial_decide l a u now = Allow \<longleftrightarrow> a = TrialRead))
    \<and> (now < tl_expires_at_unix_ms l \<and> trial_decide l a u now = Allow \<longrightarrow>
        (a = CreateDevice \<longrightarrow> tu_devices u < max_devices (tl_policy l))
        \<and> (a = CreateSite \<longrightarrow> tu_sites u < max_sites (tl_policy l))
        \<and> (a = CreateAdminUser \<longrightarrow> tu_admin_users u < max_admin_users (tl_policy l))
        \<and> (a = LowRiskMutation \<longrightarrow> allow_low_risk_mutations (tl_policy l))
        \<and> (a = CriticalMutation \<longrightarrow> allow_critical_mutations (tl_policy l)))
    \<and> (trial_decide l a u now = DenyExpired \<longrightarrow> tl_expires_at_unix_ms l \<le> now)"
  using assms
  by (cases a) (auto simp: trial_decide_def effective_state_def split: if_splits)

definition demo_license :: "trial_state \<Rightarrow> trial_license" where
  "demo_license st = \<lparr>tl_id = 1, tl_installation_id = 2, tl_state = st, tl_starts_at_unix_ms = 50,
     tl_expires_at_unix_ms = 100, tl_policy = default_trial_policy\<rparr>"

theorem trial_decide_spec_witness:
  "trial_decide (demo_license TrialActive) LowRiskMutation
      \<lparr>tu_devices = 0, tu_sites = 0, tu_admin_users = 0\<rparr> 101 \<noteq> Allow
   \<and> trial_decide (demo_license TrialActive) TrialRead
      \<lparr>tu_devices = 0, tu_sites = 0, tu_admin_users = 0\<rparr> 101 = Allow"
proof -
  have h: "tl_state (demo_license TrialActive) \<noteq> TrialConverted" by (simp add: demo_license_def)
  show ?thesis
    using trial_decide_spec [OF h, of 101] by (simp add: demo_license_def)
qed

text \<open>An inactive licence counts as active, also before it starts.\<close>

lemma inactive_trial_is_active:
  "effective_state (demo_license TrialInactive) 10 0 = TrialActive
   \<and> 10 < tl_starts_at_unix_ms (demo_license TrialInactive)"
  by (simp add: effective_state_def demo_license_def saturating_sub64_def in_i64_def
      i64_min_def i64_max_def)

text \<open>The effective state moves only forward in time.\<close>

fun trial_rank :: "trial_state \<Rightarrow> nat" where
  "trial_rank TrialInactive = 0"
| "trial_rank TrialActive = 1"
| "trial_rank TrialExpiring = 2"
| "trial_rank TrialExpired = 3"
| "trial_rank TrialConverted = 4"

lemma effective_state_mono:
  "t \<le> t' \<Longrightarrow> trial_rank (effective_state l t w) \<le> trial_rank (effective_state l t' w)"
  by (simp add: effective_state_def)

text \<open>Alert keys: without the separator in the fields, and with no field that is the placeholder,
  the key determines the fingerprint.\<close>

definition fingerprint_plain :: "alert_fingerprint \<Rightarrow> bool" where
  "fingerprint_plain f \<longleftrightarrow>
     (\<forall>s \<in> {af_organization f, or_dash (af_site f), af_resource f, af_rule f,
            or_dash (af_dimension f)}. CHR '':'' \<notin> set s)
     \<and> af_site f \<noteq> Some ''-'' \<and> af_dimension f \<noteq> Some ''-''"

lemma stable_key_pieces:
  assumes "fingerprint_plain f"
  shows "split_on (CHR '':'') (stable_key f) =
    [af_organization f, or_dash (af_site f), af_resource f, af_rule f, or_dash (af_dimension f)]"
  using assms by (simp add: stable_key_def fingerprint_plain_def split_on_append split_on_no_sep)

lemma or_dash_inj:
  "x \<noteq> Some ''-'' \<Longrightarrow> y \<noteq> Some ''-'' \<Longrightarrow> or_dash x = or_dash y \<longleftrightarrow> x = y"
  by (auto simp: or_dash_def split: option.splits)

text \<open>The key of an alert determines its fingerprint when no field holds a colon and no optional
  field is the placeholder for absence.\<close>

theorem stable_key_inj:
  assumes "fingerprint_plain f" and "fingerprint_plain g"
  shows "stable_key f = stable_key g \<longleftrightarrow> f = g"
proof
  assume eq: "stable_key f = stable_key g"
  then have "split_on (CHR '':'') (stable_key f) = split_on (CHR '':'') (stable_key g)" by simp
  then show "f = g"
    using assms unfolding stable_key_pieces [OF assms(1)] stable_key_pieces [OF assms(2)]
    by (simp add: fingerprint_plain_def or_dash_inj)
qed simp

definition demo_fingerprint :: "string option \<Rightarrow> alert_fingerprint" where
  "demo_fingerprint site = \<lparr>af_organization = ''o'', af_site = site, af_resource = ''r'',
     af_rule = ''u'', af_dimension = None\<rparr>"

theorem stable_key_inj_witness:
  "stable_key (demo_fingerprint None) \<noteq> stable_key (demo_fingerprint (Some ''a''))"
proof -
  have p: "fingerprint_plain (demo_fingerprint None)" "fingerprint_plain (demo_fingerprint (Some ''a''))"
    by (simp_all add: fingerprint_plain_def demo_fingerprint_def or_dash_def)
  show ?thesis using stable_key_inj [OF p] by (simp add: demo_fingerprint_def)
qed

text \<open>Without those conditions distinct alerts share a key.\<close>

lemma stable_key_collision:
  "stable_key (demo_fingerprint None) = stable_key (demo_fingerprint (Some ''-''))"
  by (simp add: stable_key_def demo_fingerprint_def or_dash_def)

end
