(* ===== verification/Rbac.thy ===== *)
theory Rbac
  imports SNM_Prelude
begin

text \<open>
  Role-based access control of the security crate (\<open>crates/security/src/rbac.rs\<close>): permission
  identifiers, resource scopes, the authorization of a request against the grants of a context,
  and the approval rule with separation of duties.

  The contract of an authorizer is the locale \<open>scope_authorizer\<close>: a request is allowed exactly
  when it is well formed and a grant of the requested permission covers its organization and
  site. The same contract is what the SQL query of the backend's \<open>AuthorizationService\<close> has to
  meet; both are interpretations of it.
\<close>

section \<open>The contract\<close>

type_synonym grant_key = "string \<times> uuid \<times> uuid option"

locale scope_authorizer =
  fixes grants :: "'c \<Rightarrow> grant_key set"
    and well_formed :: "'c \<Rightarrow> string \<Rightarrow> uuid \<Rightarrow> uuid option \<Rightarrow> bool"
    and allowed :: "'c \<Rightarrow> string \<Rightarrow> uuid \<Rightarrow> uuid option \<Rightarrow> bool"
  assumes allowed_iff: "allowed c p org site \<longleftrightarrow>
      well_formed c p org site
      \<and> (\<exists>s. (p, org, s) \<in> grants c \<and> (s = None \<or> s = site))"
begin

text \<open>Grants of other organizations never matter.\<close>

lemma other_organization_denied:
  "(\<And>p s. (p, org, s) \<notin> grants c) \<Longrightarrow> \<not> allowed c p org site"
  by (auto simp: allowed_iff)

text \<open>A grant on one site does not reach a sibling site, nor the organization as a whole.\<close>

lemma site_grant_stays_on_site:
  assumes "\<And>p' o' s'. (p', o', s') \<in> grants c \<Longrightarrow> s' = Some own"
    and "allowed c p org site"
  shows "site = Some own"
  using assms by (auto simp: allowed_iff)

text \<open>More grants never take a permission away.\<close>

lemma allowed_mono:
  "grants c \<subseteq> grants d \<Longrightarrow> well_formed d p org site \<Longrightarrow> allowed c p org site
   \<Longrightarrow> allowed d p org site"
  by (auto simp: allowed_iff)

text \<open>A permission on the whole organization holds on each of its sites.\<close>

lemma organization_grant_covers_site:
  "allowed c p org None \<Longrightarrow> well_formed c p org site \<Longrightarrow> allowed c p org site"
  by (auto simp: allowed_iff)

text \<open>No grant, no access.\<close>

lemma least_privilege: "allowed c p org site \<Longrightarrow> \<exists>s. (p, org, s) \<in> grants c"
  by (auto simp: allowed_iff)

end

section \<open>The model\<close>

datatype rbac_error = InvalidPermission | Denied | SelfApprovalDenied

definition permission_byte :: "char \<Rightarrow> bool" where
  "permission_byte byte \<longleftrightarrow> is_ascii_lowercase byte \<or> is_ascii_digit byte
     \<or> byte = CHR ''.'' \<or> byte = CHR ''_'' \<or> byte = CHR ''-''"

definition permission_parse :: "string \<Rightarrow> rbac_error + string" where
  "permission_parse value =
     (if value = [] \<or> length value > 128 \<or> \<not> contains_str ''.'' value
         \<or> \<not> list_all permission_byte value
      then Inl InvalidPermission else Inr value)"

record resource_scope =
  rs_organization_id :: uuid
  rs_site_id :: "uuid option"

definition scope_contains :: "resource_scope \<Rightarrow> resource_scope \<Rightarrow> bool" where
  "scope_contains self requested \<longleftrightarrow>
     rs_organization_id self = rs_organization_id requested
     \<and> (rs_site_id self = None \<or> rs_site_id self = rs_site_id requested)"

record permission_grant =
  pg_permission :: string
  pg_scope :: resource_scope

record authorization_context =
  ac_actor_id :: uuid
  ac_session_id :: uuid
  ac_grants :: "permission_grant list"

record authorization_request =
  ar_permission :: string
  ar_scope :: resource_scope

definition authorize :: "authorization_context \<Rightarrow> authorization_request \<Rightarrow> rbac_error + unit" where
  "authorize ctx request =
     (let allowed = list_ex (\<lambda>grant. pg_permission grant = ar_permission request
                     \<and> scope_contains (pg_scope grant) (ar_scope request)) (ac_grants ctx)
      in if allowed then Inr () else Inl Denied)"

definition authorize_approval ::
  "authorization_context \<Rightarrow> authorization_request \<Rightarrow> uuid \<Rightarrow> bool \<Rightarrow> rbac_error + unit" where
  "authorize_approval ctx request requested_by require_separation_of_duties =
     bindR (authorize ctx request) (\<lambda>_.
     if require_separation_of_duties \<and> ac_actor_id ctx = requested_by
     then Inl SelfApprovalDenied else Inr ())"

section \<open>The contract holds\<close>

definition context_grants :: "authorization_context \<Rightarrow> grant_key set" where
  "context_grants ctx =
     (\<lambda>g. (pg_permission g, rs_organization_id (pg_scope g), rs_site_id (pg_scope g)))
       ` set (ac_grants ctx)"

definition context_allows :: "authorization_context \<Rightarrow> string \<Rightarrow> uuid \<Rightarrow> uuid option \<Rightarrow> bool" where
  "context_allows ctx p org site =
     is_ok (authorize ctx \<lparr>ar_permission = p,
       ar_scope = \<lparr>rs_organization_id = org, rs_site_id = site\<rparr>\<rparr>)"

lemma authorize_ok_iff:
  "authorize ctx r = Inr () \<longleftrightarrow>
     (\<exists>g \<in> set (ac_grants ctx). pg_permission g = ar_permission r
        \<and> scope_contains (pg_scope g) (ar_scope r))"
  by (auto simp: authorize_def list_ex_iff Let_def)

interpretation context_authorizer: scope_authorizer context_grants "\<lambda>_ _ _ _. True" context_allows
  by unfold_locales
    (force simp: context_allows_def result_simps authorize_ok_iff scope_contains_def
      context_grants_def image_iff)

lemma scope_contains_refl: "scope_contains s s"
  by (simp add: scope_contains_def)

lemma scope_contains_trans:
  "scope_contains a b \<Longrightarrow> scope_contains b c \<Longrightarrow> scope_contains a c"
  by (auto simp: scope_contains_def)

lemma authorize_as_context:
  "authorize ctx r = Inr () \<longleftrightarrow>
     context_allows ctx (ar_permission r) (rs_organization_id (ar_scope r)) (rs_site_id (ar_scope r))"
  by (simp add: context_allows_def result_simps authorize_ok_iff scope_contains_def)

section \<open>Properties\<close>

text \<open>An approval is granted exactly when some grant of the approver names the permission, in the
  requested organization, on the whole organization or on exactly the requested site, and, where
  duties are separated, the approver is not the requester. The error says which rule failed.\<close>

theorem authorize_approval_spec:
  "(authorize_approval ctx r requested_by sod = Inr () \<longleftrightarrow>
      (\<exists>s. (ar_permission r, rs_organization_id (ar_scope r), s) \<in> context_grants ctx
           \<and> (s = None \<or> s = rs_site_id (ar_scope r)))
      \<and> \<not> (sod \<and> ac_actor_id ctx = requested_by))
   \<and> (authorize_approval ctx r requested_by sod = Inl SelfApprovalDenied \<longleftrightarrow>
      authorize ctx r = Inr () \<and> sod \<and> ac_actor_id ctx = requested_by)
   \<and> authorize_approval ctx r requested_by sod \<noteq> Inl InvalidPermission"
  using context_authorizer.allowed_iff [of ctx "ar_permission r" "rs_organization_id (ar_scope r)"
      "rs_site_id (ar_scope r)"]
  unfolding authorize_as_context [symmetric]
  by (auto simp: authorize_approval_def result_simps authorize_def Let_def split: if_splits)

text \<open>A context whose grants are all confined to one site can do nothing on any other site, on the
  organization as a whole, or in an organization none of its grants names.\<close>

theorem site_grants_do_not_escalate:
  assumes "\<And>g. g \<in> set (ac_grants ctx) \<Longrightarrow>
      rs_site_id (pg_scope g) = Some own \<and> rs_organization_id (pg_scope g) = org"
    and "authorize ctx r = Inr ()"
  shows "ar_scope r = \<lparr>rs_organization_id = org, rs_site_id = Some own\<rparr>"
proof -
  have "rs_site_id (ar_scope r) = Some own"
    by (rule context_authorizer.site_grant_stays_on_site [of ctx])
      (use assms in \<open>auto simp: context_grants_def authorize_as_context\<close>)
  moreover have "rs_organization_id (ar_scope r) = org"
    using context_authorizer.least_privilege [of ctx] assms
    by (fastforce simp: context_grants_def authorize_as_context)
  ultimately show ?thesis by simp
qed

definition demo_context :: authorization_context where
  "demo_context = \<lparr>ac_actor_id = 1, ac_session_id = 2, ac_grants =
     [\<lparr>pg_permission = ''devices.view'',
        pg_scope = \<lparr>rs_organization_id = 10, rs_site_id = Some 20\<rparr>\<rparr>]\<rparr>"

definition demo_view :: authorization_request where
  "demo_view = \<lparr>ar_permission = ''devices.view'',
     ar_scope = \<lparr>rs_organization_id = 10, rs_site_id = Some 20\<rparr>\<rparr>"

theorem site_grants_do_not_escalate_witness:
  "authorize demo_context demo_view = Inr ()
   \<and> ar_scope demo_view = \<lparr>rs_organization_id = 10, rs_site_id = Some 20\<rparr>"
proof -
  have ok: "authorize demo_context demo_view = Inr ()"
    by (simp add: authorize_def demo_context_def demo_view_def scope_contains_def)
  have "ar_scope demo_view = \<lparr>rs_organization_id = 10, rs_site_id = Some 20\<rparr>"
    by (rule site_grants_do_not_escalate [OF _ ok]) (auto simp: demo_context_def)
  with ok show ?thesis by simp
qed

text \<open>Permission identifiers are canonical: parsing accepts only what it returns unchanged, and
  the accepted strings are already lower case and free of white space.\<close>

lemma permission_parse_ok_iff:
  "permission_parse v = Inr p \<longleftrightarrow>
     p = v \<and> length v \<le> 128 \<and> CHR ''.'' \<in> set v \<and> list_all permission_byte v"
  by (auto simp: permission_parse_def contains_char_iff)

lemma permission_lowercase:
  "permission_parse v = Inr p \<Longrightarrow> to_ascii_lowercase p = p"
proof -
  have "permission_byte c \<Longrightarrow> lower_char c = c" for c
    by (auto simp: permission_byte_def lower_char_def is_ascii_uppercase_def
        is_ascii_lowercase_def is_ascii_digit_def code_of_def)
  then show "permission_parse v = Inr p \<Longrightarrow> to_ascii_lowercase p = p"
    by (auto simp: permission_parse_ok_iff to_ascii_lowercase_def list_all_iff intro: map_idI)
qed

end
