(* ===== verification/Token.thy ===== *)
theory Token
  imports SNM_Prelude
begin

text \<open>
  Access tokens and opaque tokens of the security crate (\<open>crates/security/src/token.rs\<close>).

  The crates it calls are a record of operations: base64 without padding, HMAC-SHA256 (\<open>None\<close> is
  a key the constructor rejects), SHA-256, and the JSON (de)serialization of the header and of
  the claims. What the code relies on is \<open>token_laws\<close>: decoding inverts encoding, base64
  produces ASCII text without a dot, and HMAC takes keys of every length. Nothing is assumed
  of the hash functions; where security rests on them, the theorems say so by naming the collision
  or the message-authentication equation. Randomness is an argument.
\<close>

record access_claims =
  cl_iss :: string
  cl_aud :: string
  cl_sub :: uuid
  cl_org :: uuid
  cl_sid :: uuid
  cl_jti :: uuid
  cl_scopes :: "string list"
  cl_iat :: i64
  cl_nbf :: i64
  cl_exp :: i64

record jwt_header =
  jh_alg :: string
  jh_typ :: string

datatype token_error =
    WeakSigningKey | InvalidSigningKey | InvalidLifetime | SerializationFailed | MalformedToken
  | InvalidSignature | UnsupportedTokenAlgorithm | InvalidContext | ExpiredOrNotYetValid
  | InvalidPrefix

section \<open>The crates the code calls\<close>

record token_ops =
  b64_encode :: "bytes \<Rightarrow> string"
  b64_decode :: "string \<Rightarrow> bytes option"
  hmac_new :: "bytes \<Rightarrow> (bytes \<Rightarrow> bytes) option"
  sha256 :: "bytes \<Rightarrow> bytes"
  header_to_vec :: "jwt_header \<Rightarrow> bytes option"
  header_from_slice :: "bytes \<Rightarrow> jwt_header option"
  claims_to_vec :: "access_claims \<Rightarrow> bytes option"
  claims_from_slice :: "bytes \<Rightarrow> access_claims option"

definition token_laws :: "'z token_ops_scheme \<Rightarrow> bool" where
  "token_laws ops \<longleftrightarrow>
     (\<forall>b. b64_decode ops (b64_encode ops b) = Some b)
     \<and> (\<forall>b. CHR ''.'' \<notin> set (b64_encode ops b))
     \<and> (\<forall>k. hmac_new ops k \<noteq> None)
     \<and> (\<forall>h b. header_to_vec ops h = Some b \<longrightarrow> header_from_slice ops b = Some h)
     \<and> (\<forall>c b. claims_to_vec ops c = Some b \<longrightarrow> claims_from_slice ops b = Some c)"

lemma token_lawsD:
  assumes "token_laws ops"
  shows "b64_decode ops (b64_encode ops b) = Some b"
    and "CHR ''.'' \<notin> set (b64_encode ops b)"
    and "\<exists>mac. hmac_new ops k = Some mac"
    and "header_to_vec ops h = Some b \<Longrightarrow> header_from_slice ops b = Some h"
    and "claims_to_vec ops c = Some b \<Longrightarrow> claims_from_slice ops b = Some c"
  using assms by (auto simp: token_laws_def)

section \<open>Access tokens\<close>

definition access_token_clock_skew_seconds :: i64 where
  "access_token_clock_skew_seconds = 60"

definition access_token_max_lifetime_seconds :: i64 where
  "access_token_max_lifetime_seconds = 15 * 60"

definition access_token_key_new :: "bytes \<Rightarrow> token_error + bytes" where
  "access_token_key_new secret =
     (if length secret < 32 then Inl WeakSigningKey else Inr secret)"

definition key_mac :: "'z token_ops_scheme \<Rightarrow> bytes \<Rightarrow> token_error + (bytes \<Rightarrow> bytes)" where
  "key_mac ops key = ok_or InvalidSigningKey (hmac_new ops key)"

definition validate_claim_lifetime :: "access_claims \<Rightarrow> token_error + unit" where
  "validate_claim_lifetime claims =
     (if cl_iat claims < 0
         \<or> cl_nbf claims < saturating_sub64 (cl_iat claims) access_token_clock_skew_seconds
         \<or> cl_exp claims \<le> cl_nbf claims
         \<or> cl_exp claims \<le> cl_iat claims
         \<or> saturating_sub64 (cl_exp claims) (cl_iat claims) > access_token_max_lifetime_seconds
      then Inl InvalidLifetime else Inr ())"

definition encode_access_token ::
  "'z token_ops_scheme \<Rightarrow> access_claims \<Rightarrow> bytes \<Rightarrow> token_error + string" where
  "encode_access_token ops claims key =
     bindR (validate_claim_lifetime claims) (\<lambda>_.
     let header = \<lparr>jh_alg = ''HS256'', jh_typ = ''JWT''\<rparr> in
     bindR (ok_or SerializationFailed (header_to_vec ops header)) (\<lambda>hb.
     let encoded_header = b64_encode ops hb in
     bindR (ok_or SerializationFailed (claims_to_vec ops claims)) (\<lambda>cb.
     let encoded_claims = b64_encode ops cb;
         signing_input = encoded_header @ ''.'' @ encoded_claims in
     bindR (key_mac ops key) (\<lambda>mac.
     let signature = b64_encode ops (mac signing_input) in
     Inr (signing_input @ ''.'' @ signature)))))"

text \<open>\<open>verify_slice\<close> compares the whole authentication code with the presented bytes.\<close>

definition decode_access_token ::
  "'z token_ops_scheme \<Rightarrow> string \<Rightarrow> bytes \<Rightarrow> i64 \<Rightarrow> string \<Rightarrow> string
     \<Rightarrow> token_error + access_claims" where
  "decode_access_token ops token key now expected_issuer expected_audience =
     (if length token > 16384 then Inl MalformedToken else
      (case split_on (CHR ''.'') token of
         [header_part, claims_part, signature_part] \<Rightarrow>
           bindR (ok_or MalformedToken (b64_decode ops signature_part)) (\<lambda>signature.
           let signing_input = header_part @ ''.'' @ claims_part in
           bindR (key_mac ops key) (\<lambda>mac.
           bindR (ensure (mac signing_input = signature) InvalidSignature) (\<lambda>_.
           bindR (ok_or MalformedToken (b64_decode ops header_part)) (\<lambda>hb.
           bindR (ok_or MalformedToken (header_from_slice ops hb)) (\<lambda>header.
           if jh_alg header \<noteq> ''HS256'' \<or> jh_typ header \<noteq> ''JWT''
           then Inl UnsupportedTokenAlgorithm else
           bindR (ok_or MalformedToken (b64_decode ops claims_part)) (\<lambda>cb.
           bindR (ok_or MalformedToken (claims_from_slice ops cb)) (\<lambda>claims.
           if cl_iss claims \<noteq> expected_issuer \<or> cl_aud claims \<noteq> expected_audience
           then Inl InvalidContext else
           bindR (validate_claim_lifetime claims) (\<lambda>_.
           if cl_exp claims \<le> now
              \<or> cl_nbf claims > saturating_add64 now access_token_clock_skew_seconds
              \<or> cl_iat claims > saturating_add64 now access_token_clock_skew_seconds
           then Inl ExpiredOrNotYetValid else Inr claims))))))))
       | _ \<Rightarrow> Inl MalformedToken))"

section \<open>Opaque tokens\<close>

record issued_opaque_token =
  io_secret :: string
  io_prefix :: string
  io_hash :: bytes

definition hash_opaque_token :: "'z token_ops_scheme \<Rightarrow> bytes \<Rightarrow> bytes" where
  "hash_opaque_token ops token = sha256 ops token"

definition prefix_byte :: "char \<Rightarrow> bool" where
  "prefix_byte value \<longleftrightarrow> is_ascii_lowercase value \<or> is_ascii_digit value \<or> value = CHR ''_''"

text \<open>The secret is ASCII, so taking characters is taking bytes.\<close>

definition issue_opaque_token ::
  "'z token_ops_scheme \<Rightarrow> bytes \<Rightarrow> string \<Rightarrow> token_error + issued_opaque_token" where
  "issue_opaque_token ops random prefix =
     (if prefix = [] \<or> length prefix > 16 \<or> \<not> list_all prefix_byte prefix
      then Inl InvalidPrefix
      else (let encoded = b64_encode ops random;
                secret = prefix @ ''_'' @ encoded;
                hash = hash_opaque_token ops secret;
                visible_prefix = take (length prefix + 9) secret
            in Inr \<lparr>io_secret = secret, io_prefix = visible_prefix, io_hash = hash\<rparr>))"

text \<open>The comparison key is a constant; the \<open>expect\<close> on it is the branch \<open>None\<close>.\<close>

definition opaque_token_matches :: "'z token_ops_scheme \<Rightarrow> bytes \<Rightarrow> bytes \<Rightarrow> bool option" where
  "opaque_token_matches ops token expected_hash =
     map_option (\<lambda>mac. mac expected_hash = mac (hash_opaque_token ops token))
       (hmac_new ops ''snm-token-hash-compare'')"

lemma issued_secret:
  assumes "issue_opaque_token ops random prefix = Inr t"
  shows "io_secret t = prefix @ ''_'' @ b64_encode ops random"
    and "io_hash t = hash_opaque_token ops (io_secret t)"
    and "io_prefix t = take (length prefix + 9) (io_secret t)"
  using assms by (auto simp: issue_opaque_token_def Let_def split: if_splits)

section \<open>Facts about tokens\<close>

lemma split_three:
  assumes "d \<notin> set a" and "d \<notin> set b" and "d \<notin> set c"
  shows "split_on d (a @ [d] @ b @ [d] @ c) = [a, b, c]"
  using assms by (simp add: split_on_append split_on_no_sep)

lemma split_three_iff:
  "split_on d t = [a, b, c] \<longleftrightarrow>
     t = a @ [d] @ b @ [d] @ c \<and> d \<notin> set a \<and> d \<notin> set b \<and> d \<notin> set c"
proof
  assume split: "split_on d t = [a, b, c]"
  then have "t = a @ [d] @ b @ [d] @ c"
    using join_split [of d t] by simp
  moreover have "d \<notin> set a \<and> d \<notin> set b \<and> d \<notin> set c"
    using split_on_pieces [of _ d t] split by simp
  ultimately show "t = a @ [d] @ b @ [d] @ c \<and> d \<notin> set a \<and> d \<notin> set b \<and> d \<notin> set c"
    by blast
next
  assume "t = a @ [d] @ b @ [d] @ c \<and> d \<notin> set a \<and> d \<notin> set b \<and> d \<notin> set c"
  then show "split_on d t = [a, b, c]"
    using split_three by blast
qed

text \<open>The shape of what the encoder returns.\<close>

lemma encode_ok_iff:
  "encode_access_token ops claims key = Inr t \<longleftrightarrow>
     validate_claim_lifetime claims = Inr () \<and>
     (\<exists>hb cb mac. header_to_vec ops \<lparr>jh_alg = ''HS256'', jh_typ = ''JWT''\<rparr> = Some hb
        \<and> claims_to_vec ops claims = Some cb \<and> hmac_new ops key = Some mac
        \<and> t = b64_encode ops hb @ ''.'' @ b64_encode ops cb @ ''.''
              @ b64_encode ops (mac (b64_encode ops hb @ ''.'' @ b64_encode ops cb)))"
  by (auto simp: encode_access_token_def key_mac_def result_simps Let_def)

text \<open>The checks that follow the signature, on the claims alone.\<close>

definition check_claims :: "access_claims \<Rightarrow> i64 \<Rightarrow> string \<Rightarrow> string \<Rightarrow> token_error + access_claims" where
  "check_claims claims now expected_issuer expected_audience =
     (if cl_iss claims \<noteq> expected_issuer \<or> cl_aud claims \<noteq> expected_audience
      then Inl InvalidContext else
      bindR (validate_claim_lifetime claims) (\<lambda>_.
      if cl_exp claims \<le> now
         \<or> cl_nbf claims > saturating_add64 now access_token_clock_skew_seconds
         \<or> cl_iat claims > saturating_add64 now access_token_clock_skew_seconds
      then Inl ExpiredOrNotYetValid else Inr claims))"

lemma decode_ok_iff:
  "decode_access_token ops token key now iss aud = Inr claims \<longleftrightarrow>
     length token \<le> 16384 \<and>
     (\<exists>h c s sig mac hb header cb.
        token = h @ ''.'' @ c @ ''.'' @ s
        \<and> CHR ''.'' \<notin> set h \<and> CHR ''.'' \<notin> set c \<and> CHR ''.'' \<notin> set s
        \<and> b64_decode ops s = Some sig \<and> hmac_new ops key = Some mac
        \<and> mac (h @ ''.'' @ c) = sig
        \<and> b64_decode ops h = Some hb \<and> header_from_slice ops hb = Some header
        \<and> jh_alg header = ''HS256'' \<and> jh_typ header = ''JWT''
        \<and> b64_decode ops c = Some cb \<and> claims_from_slice ops cb = Some claims
        \<and> check_claims claims now iss aud = Inr claims)" (is "?L \<longleftrightarrow> ?R")
proof
  assume ?L
  then have len: "length token \<le> 16384" by (simp add: decode_access_token_def split: if_splits)
  with \<open>?L\<close> obtain h c s where split: "split_on (CHR ''.'') token = [h, c, s]"
    by (auto simp: decode_access_token_def split: list.splits)
  note tok = split [unfolded split_three_iff]
  from \<open>?L\<close> len have "\<exists>sig mac hb header cb.
      b64_decode ops s = Some sig \<and> hmac_new ops key = Some mac \<and> mac (h @ ''.'' @ c) = sig
      \<and> b64_decode ops h = Some hb \<and> header_from_slice ops hb = Some header
      \<and> jh_alg header = ''HS256'' \<and> jh_typ header = ''JWT''
      \<and> b64_decode ops c = Some cb \<and> claims_from_slice ops cb = Some claims
      \<and> check_claims claims now iss aud = Inr claims"
    unfolding decode_access_token_def split list.case
    by (auto simp: check_claims_def key_mac_def result_simps Let_def split: if_splits)
  with len tok show ?R by blast
next
  assume ?R
  then obtain h c s sig mac hb header cb where *:
    "length token \<le> 16384" "split_on (CHR ''.'') token = [h, c, s]"
    "b64_decode ops s = Some sig" "hmac_new ops key = Some mac" "mac (h @ ''.'' @ c) = sig"
    "b64_decode ops h = Some hb" "header_from_slice ops hb = Some header"
    "jh_alg header = ''HS256''" "jh_typ header = ''JWT''"
    "b64_decode ops c = Some cb" "claims_from_slice ops cb = Some claims"
    "check_claims claims now iss aud = Inr claims"
    unfolding split_three_iff by blast
  then show ?L
    by (simp add: decode_access_token_def key_mac_def check_claims_def)
qed

text \<open>Decoding a token the encoder issued, whatever the outcome.\<close>

lemma decode_encoded:
  assumes laws: "token_laws ops" and enc: "encode_access_token ops claims key = Inr t"
  shows "decode_access_token ops t key now iss aud
    = (if length t > 16384 then Inl MalformedToken else check_claims claims now iss aud)"
proof -
  note L = token_lawsD [OF laws]
  obtain hb cb mac where e: "validate_claim_lifetime claims = Inr ()"
    "header_to_vec ops \<lparr>jh_alg = ''HS256'', jh_typ = ''JWT''\<rparr> = Some hb"
    "claims_to_vec ops claims = Some cb" "hmac_new ops key = Some mac"
    "t = b64_encode ops hb @ ''.'' @ b64_encode ops cb @ ''.''
         @ b64_encode ops (mac (b64_encode ops hb @ ''.'' @ b64_encode ops cb))"
    using enc by (auto simp: encode_ok_iff)
  have split: "split_on (CHR ''.'') t = [b64_encode ops hb, b64_encode ops cb,
      b64_encode ops (mac (b64_encode ops hb @ ''.'' @ b64_encode ops cb))]"
    unfolding split_three_iff using e(5) L(2) by blast
  show ?thesis
    unfolding decode_access_token_def split list.case
    by (simp add: L(1) L(4) [OF e(2)] L(5) [OF e(3)] key_mac_def e(4) check_claims_def)
qed

lemma lifetime_ok_iff:
  assumes "in_i64 (cl_iat c)" and "in_i64 (cl_exp c)" and "in_i64 (cl_nbf c)"
  shows "validate_claim_lifetime c = Inr () \<longleftrightarrow>
    0 \<le> cl_iat c \<and> cl_iat c - 60 \<le> cl_nbf c \<and> cl_nbf c < cl_exp c \<and> cl_iat c < cl_exp c
    \<and> cl_exp c \<le> cl_iat c + 900"
  using assms
  by (auto simp: validate_claim_lifetime_def saturating_sub64_def sat64_def in_i64_def i64_min_def
      i64_max_def access_token_clock_skew_seconds_def access_token_max_lifetime_seconds_def
      split: if_splits)

definition claims_in_range :: "access_claims \<Rightarrow> bool" where
  "claims_in_range c \<longleftrightarrow> in_i64 (cl_iat c) \<and> in_i64 (cl_exp c) \<and> in_i64 (cl_nbf c)"

lemma check_claims_ok_iff:
  assumes "claims_in_range c" and "in_i64 now"
  shows "check_claims c now iss aud = Inr c' \<longleftrightarrow>
    c' = c \<and> cl_iss c = iss \<and> cl_aud c = aud
    \<and> 0 \<le> cl_iat c \<and> cl_iat c - 60 \<le> cl_nbf c \<and> cl_exp c \<le> cl_iat c + 900
    \<and> now < cl_exp c \<and> cl_nbf c \<le> now + 60 \<and> cl_iat c \<le> now + 60
    \<and> cl_nbf c < cl_exp c \<and> cl_iat c < cl_exp c"
proof -
  have sat: "saturating_add64 now access_token_clock_skew_seconds < x \<longleftrightarrow> now + 60 < x"
    if "in_i64 x" for x
    using that assms(2)
    by (auto simp: saturating_add64_def sat64_def in_i64_def i64_min_def i64_max_def
        access_token_clock_skew_seconds_def)
  show ?thesis
    using assms lifetime_ok_iff [of c]
    by (auto simp: check_claims_def claims_in_range_def result_simps not_less sat split: if_splits)
qed

section \<open>Concrete operations for the witnesses\<close>

text \<open>A two-letters-per-byte codec stands for base64, a keyed concatenation for HMAC.\<close>

definition demo_encode :: "bytes \<Rightarrow> string" where
  "demo_encode b = concat (map (\<lambda>c. [char_of (97 + code_of c div 16),
     char_of (97 + code_of c mod 16)]) b)"

fun demo_decode :: "string \<Rightarrow> bytes option" where
  "demo_decode [] = Some []"
| "demo_decode [a] = None"
| "demo_decode (a # b # s) =
     map_option (Cons (char_of ((code_of a - 97) * 16 + (code_of b - 97)))) (demo_decode s)"

lemma demo_decode_encode: "demo_decode (demo_encode b) = Some b"
proof (induction b)
  case (Cons c b)
  have "code_of (char_of (97 + code_of c div 16) :: char) = 97 + code_of c div 16"
    "code_of (char_of (97 + code_of c mod 16) :: char) = 97 + code_of c mod 16"
    using code_of_less [of c] by (simp_all add: code_of_char_of)
  then have "char_of ((code_of (char_of (97 + code_of c div 16)) - 97) * 16
      + (code_of (char_of (97 + code_of c mod 16)) - 97)) = c"
    by (simp add: code_of_def)
  with Cons show ?case by (simp add: demo_encode_def)
qed (simp add: demo_encode_def)

lemma demo_encode_no_dot: "CHR ''.'' \<notin> set (demo_encode b)"
proof (induction b)
  case (Cons c b)
  have "code_of (char_of (97 + code_of c div 16) :: char) \<noteq> code_of (CHR ''.'')"
    "code_of (char_of (97 + code_of c mod 16) :: char) \<noteq> code_of (CHR ''.'')"
    using code_of_less [of c] by (simp_all add: code_of_char_of) (simp_all add: code_of_def)
  with Cons show ?case by (auto simp: demo_encode_def)
qed (simp add: demo_encode_def)

definition demo_claims :: access_claims where
  "demo_claims = \<lparr>cl_iss = ''snm'', cl_aud = ''snm-api'', cl_sub = 1, cl_org = 2, cl_sid = 3,
     cl_jti = 4, cl_scopes = [''devices.view''], cl_iat = 1000, cl_nbf = 1000, cl_exp = 1600\<rparr>"

definition demo_ops :: token_ops where
  "demo_ops = \<lparr>b64_encode = demo_encode, b64_decode = demo_decode,
     hmac_new = (\<lambda>k. Some (\<lambda>m. k @ m)), sha256 = (\<lambda>m. take 32 (rev m @ replicate 32 CHR ''0'')),
     header_to_vec = (\<lambda>h. if h = \<lparr>jh_alg = ''HS256'', jh_typ = ''JWT''\<rparr> then Some ''h'' else None),
     header_from_slice = (\<lambda>b. if b = ''h'' then Some \<lparr>jh_alg = ''HS256'', jh_typ = ''JWT''\<rparr> else None),
     claims_to_vec = (\<lambda>c. if c = demo_claims then Some ''c'' else None),
     claims_from_slice = (\<lambda>b. if b = ''c'' then Some demo_claims else None)\<rparr>"

lemma demo_ops_laws: "token_laws demo_ops"
  by (auto simp: token_laws_def demo_ops_def demo_decode_encode demo_encode_no_dot)

lemma demo_token_issued: "encode_access_token demo_ops demo_claims ''k'' = Inr ''gi.gd.glghgjcoghge''"
  by code_simp

section \<open>Properties\<close>

text \<open>C22: Round trip of access tokens: a token issued under a key decodes under that key to exactly the
  claims it was issued for, precisely when it is at most 16384 bytes long, issuer and audience
  are the expected ones, and the clock is before the expiry and at most the 60 seconds of skew
  before \<open>nbf\<close> and \<open>iat\<close>; no other claims ever come out of it.\<close>

theorem access_token_roundtrip:
  assumes "token_laws ops" and "encode_access_token ops claims key = Inr t"
    and "claims_in_range claims" and "in_i64 now"
  shows "decode_access_token ops t key now iss aud = Inr claims' \<longleftrightarrow>
    claims' = claims \<and> length t \<le> 16384 \<and> cl_iss claims = iss \<and> cl_aud claims = aud
    \<and> now < cl_exp claims \<and> cl_nbf claims \<le> now + 60 \<and> cl_iat claims \<le> now + 60"
proof -
  have "validate_claim_lifetime claims = Inr ()"
    using assms(2) by (simp add: encode_ok_iff)
  then have life: "0 \<le> cl_iat claims" "cl_iat claims - 60 \<le> cl_nbf claims"
    "cl_nbf claims < cl_exp claims" "cl_iat claims < cl_exp claims"
    "cl_exp claims \<le> cl_iat claims + 900"
    using assms(3) by (simp_all add: claims_in_range_def lifetime_ok_iff)
  show ?thesis
    using life check_claims_ok_iff [OF assms(3,4), of iss aud claims']
    by (auto simp: decode_encoded [OF assms(1,2)])
qed

theorem access_token_roundtrip_witness:
  "decode_access_token demo_ops ''gi.gd.glghgjcoghge'' ''k'' 1599 ''snm'' ''snm-api''
     = Inr demo_claims
   \<and> decode_access_token demo_ops ''gi.gd.glghgjcoghge'' ''k'' 1600 ''snm'' ''snm-api''
     \<noteq> Inr demo_claims"
proof -
  have range: "claims_in_range demo_claims" "in_i64 1599" "in_i64 1600"
    by (simp_all add: claims_in_range_def demo_claims_def in_i64_def i64_min_def i64_max_def)
  note rt = access_token_roundtrip [OF demo_ops_laws demo_token_issued range(1)]
  show ?thesis
    by (simp add: rt [OF range(2)] rt [OF range(3)]) (simp add: demo_claims_def)
qed

text \<open>An accepted access token is authentic and fresh: its last part is the HMAC, under the
  verification key, of everything before it; its issuer and audience are the expected ones; it
  is not expired, was issued at most 60 seconds ahead of the clock, and lives at most 15
  minutes. Hence two clocks at which one token is accepted are less than 16 minutes apart.\<close>

theorem accepted_token_is_authentic:
  assumes "decode_access_token ops t key now iss aud = Inr c"
    and "claims_in_range c" and "in_i64 now"
  shows "(\<exists>signing_input s mac. t = signing_input @ ''.'' @ s \<and> hmac_new ops key = Some mac
      \<and> b64_decode ops s = Some (mac signing_input))
    \<and> cl_iss c = iss \<and> cl_aud c = aud
    \<and> now < cl_exp c \<and> cl_iat c \<le> now + 60 \<and> cl_nbf c \<le> now + 60 \<and> cl_exp c \<le> cl_iat c + 900
    \<and> (\<forall>now'. in_i64 now' \<and> decode_access_token ops t key now' iss aud = Inr c
        \<longrightarrow> \<bar>now - now'\<bar> < 960)"
proof -
  obtain h cp s sig mac where t: "t = h @ ''.'' @ cp @ ''.'' @ s" "b64_decode ops s = Some sig"
    "hmac_new ops key = Some mac" "mac (h @ ''.'' @ cp) = sig"
    using assms(1) unfolding decode_ok_iff by blast
  then have "t = (h @ ''.'' @ cp) @ ''.'' @ s \<and> hmac_new ops key = Some mac
      \<and> b64_decode ops s = Some (mac (h @ ''.'' @ cp))" by simp
  then have auth: "\<exists>signing_input s mac. t = signing_input @ ''.'' @ s \<and> hmac_new ops key = Some mac
      \<and> b64_decode ops s = Some (mac signing_input)" by blast
  have window: "cl_iss c = iss \<and> cl_aud c = aud \<and> now' < cl_exp c \<and> cl_iat c \<le> now' + 60
      \<and> cl_nbf c \<le> now' + 60 \<and> cl_exp c \<le> cl_iat c + 900"
    if "decode_access_token ops t key now' iss aud = Inr c" "in_i64 now'" for now'
    using that check_claims_ok_iff [OF assms(2) that(2)] unfolding decode_ok_iff by auto
  have "\<bar>now - now'\<bar> < 960"
    if "in_i64 now'" "decode_access_token ops t key now' iss aud = Inr c" for now'
    using window [OF assms(1,3)] window [OF that(2,1)] by linarith
  then show ?thesis using auth window [OF assms(1,3)] by blast
qed

theorem accepted_token_is_authentic_witness:
  "cl_exp demo_claims \<le> cl_iat demo_claims + 900 \<and> cl_iss demo_claims = ''snm''
   \<and> (\<exists>signing_input s mac. ''gi.gd.glghgjcoghge'' = signing_input @ ''.'' @ s
        \<and> hmac_new demo_ops ''k'' = Some mac \<and> b64_decode demo_ops s = Some (mac signing_input))
   \<and> \<bar>1599 - (1000::int)\<bar> < 960"
proof -
  have range: "claims_in_range demo_claims" "in_i64 1599" "in_i64 1000"
    by (simp_all add: claims_in_range_def demo_claims_def in_i64_def i64_min_def i64_max_def)
  have dec: "decode_access_token demo_ops ''gi.gd.glghgjcoghge'' ''k'' 1599 ''snm'' ''snm-api''
      = Inr demo_claims"
    "decode_access_token demo_ops ''gi.gd.glghgjcoghge'' ''k'' 1000 ''snm'' ''snm-api''
      = Inr demo_claims"
    by code_simp+
  from accepted_token_is_authentic [OF dec(1) range(1,2)] dec(2) range(3)
  show ?thesis by blast
qed

text \<open>An opaque token is issued exactly for a prefix of 1 to 16 bytes over \<open>a-z0-9_\<close>. Its stored
  hash accepts it; the stored visible prefix reveals the prefix, the underscore and the first 8
  characters of the random part. Any other token the hash accepts is a collision of SHA-256 or of
  the comparison code.\<close>

theorem opaque_token_spec:
  assumes "token_laws ops"
  shows "(is_ok (issue_opaque_token ops random prefix) \<longleftrightarrow>
      1 \<le> length prefix \<and> length prefix \<le> 16 \<and> list_all prefix_byte prefix)
    \<and> (\<forall>t. issue_opaque_token ops random prefix = Inr t \<longrightarrow>
      opaque_token_matches ops (io_secret t) (io_hash t) = Some True
      \<and> io_prefix t = prefix @ ''_'' @ take 8 (b64_encode ops random)
      \<and> (\<forall>other. opaque_token_matches ops other (io_hash t) = Some True \<longrightarrow>
           other = io_secret t
           \<or> (other \<noteq> io_secret t \<and> sha256 ops other = sha256 ops (io_secret t))
           \<or> (\<exists>mac. hmac_new ops ''snm-token-hash-compare'' = Some mac
                \<and> sha256 ops other \<noteq> sha256 ops (io_secret t)
                \<and> mac (sha256 ops other) = mac (sha256 ops (io_secret t)))))"
proof -
  obtain mac where mac: "hmac_new ops ''snm-token-hash-compare'' = Some mac"
    using token_lawsD(3) [OF assms] by blast
  have "is_ok (issue_opaque_token ops random prefix) \<longleftrightarrow>
      1 \<le> length prefix \<and> length prefix \<le> 16 \<and> list_all prefix_byte prefix"
    by (cases prefix) (auto simp: issue_opaque_token_def Let_def)
  then show ?thesis
    using mac
    by (auto simp: issue_opaque_token_def opaque_token_matches_def hash_opaque_token_def Let_def
        split: if_splits)
qed

theorem opaque_token_spec_witness:
  "is_ok (issue_opaque_token demo_ops ''xyz'' ''snm_rt'')
   \<and> opaque_token_matches demo_ops ''snm_rt_hihjhk'' (sha256 demo_ops ''snm_rt_hihjhk'') = Some True"
proof -
  note spec = opaque_token_spec [OF demo_ops_laws, of "''xyz''" "''snm_rt''"]
  have ok: "is_ok (issue_opaque_token demo_ops ''xyz'' ''snm_rt'')"
    by (subst spec [THEN conjunct1]) code_simp
  have t: "issue_opaque_token demo_ops ''xyz'' ''snm_rt'' = Inr \<lparr>io_secret = ''snm_rt_hihjhk'',
      io_prefix = ''snm_rt_hihjhk'', io_hash = sha256 demo_ops ''snm_rt_hihjhk''\<rparr>"
    by code_simp
  have "opaque_token_matches demo_ops ''snm_rt_hihjhk'' (sha256 demo_ops ''snm_rt_hihjhk'')
      = Some True"
    using spec [THEN conjunct2, rule_format, OF t, THEN conjunct1]
    by (simp only: issued_opaque_token.select_convs)
  with ok show ?thesis by blast
qed

text \<open>The encoder does not check the limit the decoder enforces: a token of more than 16384 bytes is
  issued and then refused as malformed.\<close>

lemma oversized_token_is_refused:
  "token_laws ops \<Longrightarrow> encode_access_token ops claims key = Inr t \<Longrightarrow> 16384 < length t
   \<Longrightarrow> decode_access_token ops t key now iss aud = Inl MalformedToken"
  by (simp add: decode_encoded)

end
