(* ===== verification/Factors.thy ===== *)
theory Factors
  imports SNM_Prelude
begin

text \<open>
  Authentication factors of the security crate: one-time codes and recovery codes
  (\<open>crates/security/src/totp.rs\<close>) and password hashing (\<open>crates/security/src/password.rs\<close>).

  HMAC-SHA1, SHA-256, base64 and Argon2 are parameters; the laws the code relies on are
  \<open>hmac_sha1_laws\<close> and \<open>argon2_laws\<close>. Random bytes are arguments. The dynamic truncation of the
  digest is written out on 32-bit words.
\<close>

unbundle bit_operations_syntax

section \<open>One-time codes\<close>

datatype totp_error = WeakSecret | InvalidTime | InvalidRecoveryCodeCount

definition totp_step_seconds :: i64 where "totp_step_seconds = 30"
definition totp_digits :: nat where "totp_digits = 6"

record totp_ops =
  hmac_sha1 :: "bytes \<Rightarrow> bytes \<Rightarrow> bytes option"
  totp_sha256 :: "bytes \<Rightarrow> bytes"
  totp_b64 :: "bytes \<Rightarrow> string"

text \<open>HMAC accepts a key of any length and its digest has 20 bytes.\<close>

definition hmac_sha1_laws :: "totp_ops \<Rightarrow> bool" where
  "hmac_sha1_laws ops \<longleftrightarrow> (\<forall>key msg. \<exists>d. hmac_sha1 ops key msg = Some d \<and> length d = 20)"

text \<open>\<open>u64::to_be_bytes\<close>.\<close>

definition to_be_bytes64 :: "64 word \<Rightarrow> bytes" where
  "to_be_bytes64 w = map (\<lambda>i. char_of (uint (drop_bit (8 * i) w AND 255))) [7, 6, 5, 4, 3, 2, 1, 0]"

definition byte32 :: "char \<Rightarrow> 32 word" where
  "byte32 c = word_of_int (code_of c)"

definition dynamic_truncation :: "bytes \<Rightarrow> 32 word" where
  "dynamic_truncation digest =
     (let offset = unat (byte32 (digest ! 19) AND 0x0f) in
      push_bit 24 (byte32 (digest ! offset) AND 0x7f)
      OR push_bit 16 (byte32 (digest ! (offset + 1)))
      OR push_bit 8 (byte32 (digest ! (offset + 2)))
      OR byte32 (digest ! (offset + 3)))"

definition code_at :: "totp_ops \<Rightarrow> bytes \<Rightarrow> i64 \<Rightarrow> totp_error + 32 word" where
  "code_at ops secret unix_seconds =
     (if length secret < 20 then Inl WeakSecret
      else if unix_seconds < 0 then Inl InvalidTime
      else (let counter = word_of_int (unix_seconds div totp_step_seconds) in
        bindR (ok_or WeakSecret (hmac_sha1 ops secret (to_be_bytes64 counter))) (\<lambda>digest.
        Inr (dynamic_truncation digest mod 10 ^ totp_digits))))"

text \<open>\<open>format!("{:06}", n)\<close> for a number of at most six digits.\<close>

definition format06 :: "32 word \<Rightarrow> string" where
  "format06 n = map (\<lambda>k. char_of (48 + uint n div 10 ^ k mod 10)) [5, 4, 3, 2, 1, 0]"

fun try_offsets :: "totp_ops \<Rightarrow> bytes \<Rightarrow> string \<Rightarrow> i64 \<Rightarrow> i64 list \<Rightarrow> totp_error + bool" where
  "try_offsets ops secret code unix_seconds [] = Inr False"
| "try_offsets ops secret code unix_seconds (offset # offsets) =
     (let candidate_time = saturating_add64 unix_seconds offset in
      if candidate_time < 0 then try_offsets ops secret code unix_seconds offsets
      else bindR (code_at ops secret candidate_time) (\<lambda>n.
        if format06 n = code then Inr True
        else try_offsets ops secret code unix_seconds offsets))"

definition verify_code :: "totp_ops \<Rightarrow> bytes \<Rightarrow> string \<Rightarrow> i64 \<Rightarrow> totp_error + bool" where
  "verify_code ops secret code unix_seconds =
     (if length code \<noteq> totp_digits \<or> \<not> list_all is_ascii_digit code then Inr False
      else try_offsets ops secret code unix_seconds
             [- totp_step_seconds, 0, totp_step_seconds])"

section \<open>Recovery codes\<close>

record recovery_code_set =
  rc_codes :: "string list"
  rc_hashes :: "bytes list"

text \<open>\<open>random i\<close> are the 16 bytes of the \<open>i\<close>-th turn of the loop.\<close>

definition issue_recovery_codes :: "totp_ops \<Rightarrow> (nat \<Rightarrow> bytes) \<Rightarrow> nat \<Rightarrow> totp_error + recovery_code_set" where
  "issue_recovery_codes ops random count =
     (if \<not> (4 \<le> count \<and> count \<le> 20) then Inl InvalidRecoveryCodeCount
      else (let codes = map (\<lambda>i. totp_b64 ops (random i)) [0..<count] in
        Inr \<lparr>rc_codes = codes, rc_hashes = map (totp_sha256 ops) codes\<rparr>))"

definition recovery_code_matches :: "totp_ops \<Rightarrow> bytes \<Rightarrow> bytes \<Rightarrow> bool" where
  "recovery_code_matches ops code expected_hash \<longleftrightarrow> totp_sha256 ops code = expected_hash"

section \<open>Passwords\<close>

record password_policy =
  pp_memory_kib :: "32 word"
  pp_iterations :: "32 word"
  pp_parallelism :: "32 word"

definition default_password_policy :: password_policy where
  "default_password_policy = \<lparr>pp_memory_kib = 65536, pp_iterations = 3, pp_parallelism = 1\<rparr>"

datatype password_error = InvalidLength | InvalidPolicy | HashFailed | MalformedHash

text \<open>A parsed PHC string.\<close>

record phc =
  phc_algorithm :: string
  phc_version :: "int option"
  phc_get_decimal :: "string \<Rightarrow> 32 word option"

record password_ops =
  encode_salt :: "bytes \<Rightarrow> string option"
  argon2_params :: "password_policy \<Rightarrow> bool"
  argon2id_hash :: "password_policy \<Rightarrow> bytes \<Rightarrow> string \<Rightarrow> string option"
  phc_parse :: "string \<Rightarrow> phc option"
  argon2_verify :: "bytes \<Rightarrow> phc \<Rightarrow> bool"

definition hash_password :: "password_ops \<Rightarrow> bytes \<Rightarrow> bytes \<Rightarrow> password_policy \<Rightarrow> password_error + string" where
  "hash_password ops salt_bytes password policy =
     (if length password < 12 \<or> length password > 1024 then Inl InvalidLength
      else bindR (ok_or HashFailed (encode_salt ops salt_bytes)) (\<lambda>salt.
        bindR (ensure (argon2_params ops policy) InvalidPolicy) (\<lambda>_.
        ok_or HashFailed (argon2id_hash ops policy password salt))))"

definition verify_password :: "password_ops \<Rightarrow> bytes \<Rightarrow> string \<Rightarrow> password_error + bool" where
  "verify_password ops password encoded =
     bindR (ok_or MalformedHash (phc_parse ops encoded)) (\<lambda>parsed.
     Inr (argon2_verify ops password parsed))"

definition unwrap_or :: "'a \<Rightarrow> 'a option \<Rightarrow> 'a" where
  "unwrap_or d x = (case x of None \<Rightarrow> d | Some y \<Rightarrow> y)"

definition needs_rehash :: "password_ops \<Rightarrow> string \<Rightarrow> password_policy \<Rightarrow> password_error + bool" where
  "needs_rehash ops encoded policy =
     bindR (ok_or MalformedHash (phc_parse ops encoded)) (\<lambda>parsed.
     if phc_algorithm parsed \<noteq> ''argon2id'' \<or> phc_version parsed \<noteq> Some 19 then Inr True
     else (let memory = unwrap_or 0 (phc_get_decimal parsed ''m'');
               iterations = unwrap_or 0 (phc_get_decimal parsed ''t'');
               parallelism = unwrap_or 0 (phc_get_decimal parsed ''p'')
           in Inr (memory \<noteq> pp_memory_kib policy \<or> iterations \<noteq> pp_iterations policy
                \<or> parallelism \<noteq> pp_parallelism policy)))"

text \<open>What the argon2 crate documents: a hash it returns is a PHC string that names the algorithm,
  version 19 and the parameters it was computed with, and verifies with the same password.\<close>

definition argon2_laws :: "password_ops \<Rightarrow> bool" where
  "argon2_laws ops \<longleftrightarrow> (\<forall>policy password salt h. argon2id_hash ops policy password salt = Some h \<longrightarrow>
     (\<exists>p. phc_parse ops h = Some p \<and> phc_algorithm p = ''argon2id'' \<and> phc_version p = Some 19
        \<and> phc_get_decimal p ''m'' = Some (pp_memory_kib policy)
        \<and> phc_get_decimal p ''t'' = Some (pp_iterations policy)
        \<and> phc_get_decimal p ''p'' = Some (pp_parallelism policy)
        \<and> argon2_verify ops password p))"

section \<open>Facts\<close>

lemma format06_digits: "length (format06 n) = 6 \<and> list_all is_ascii_digit (format06 n)"
proof -
  have "is_ascii_digit (char_of (48 + m mod 10))" for m :: int
  proof -
    have "0 \<le> m mod 10" "m mod 10 < 10" by simp_all
    then show ?thesis by (simp add: is_ascii_digit_def code_of_char_of)
  qed
  then show ?thesis by (simp add: format06_def)
qed

lemma code_at_lt:
  assumes "code_at ops secret t = Inr n"
  shows "n < 10 ^ totp_digits"
proof -
  obtain w where "n = w mod 10 ^ totp_digits"
    using assms by (auto simp: code_at_def Let_def result_simps split: if_splits)
  moreover have "uint (10 ^ totp_digits :: 32 word) = 1000000"
    by (simp add: totp_digits_def)
  ultimately show ?thesis
    by (simp add: word_less_def uint_mod)
qed

text \<open>The code of a time step.\<close>

definition step_code :: "totp_ops \<Rightarrow> bytes \<Rightarrow> int \<Rightarrow> string" where
  "step_code ops secret counter =
     (case code_at ops secret (30 * counter) of Inl _ \<Rightarrow> [] | Inr n \<Rightarrow> format06 n)"

lemma code_at_step:
  assumes "hmac_sha1_laws ops" and "20 \<le> length secret" and "0 \<le> t"
  shows "\<exists>n. code_at ops secret t = Inr n \<and> format06 n = step_code ops secret (t div 30)"
proof -
  obtain d where d: "hmac_sha1 ops secret (to_be_bytes64 (word_of_int (t div 30))) = Some d"
    using assms(1) by (meson hmac_sha1_laws_def)
  have nonneg: "0 \<le> t div 30" using assms(3) by simp
  have "code_at ops secret t = Inr (dynamic_truncation d mod 10 ^ totp_digits)"
    "code_at ops secret (30 * (t div 30)) = Inr (dynamic_truncation d mod 10 ^ totp_digits)"
    using assms(2,3) d nonneg by (simp_all add: code_at_def totp_step_seconds_def not_less)
  then show ?thesis by (simp add: step_code_def)
qed

lemma step_code_shape:
  assumes "hmac_sha1_laws ops" and "20 \<le> length secret" and "0 \<le> c"
  shows "length (step_code ops secret c) = totp_digits \<and> list_all is_ascii_digit (step_code ops secret c)"
proof -
  obtain n where "format06 n = step_code ops secret c"
    using code_at_step [OF assms(1,2), of "30 * c"] assms(3) by auto
  then show ?thesis using format06_digits [of n] by (simp add: totp_digits_def)
qed

lemma try_offsets_spec:
  assumes "hmac_sha1_laws ops" and "20 \<le> length secret"
  shows "try_offsets ops secret code t offs = Inr (\<exists>off \<in> set offs.
     0 \<le> saturating_add64 t off \<and> code = step_code ops secret (saturating_add64 t off div 30))"
proof (induction offs)
  case (Cons off offs)
  show ?case
  proof (cases "saturating_add64 t off < 0")
    case False
    then obtain n where "code_at ops secret (saturating_add64 t off) = Inr n"
      "format06 n = step_code ops secret (saturating_add64 t off div 30)"
      using code_at_step [OF assms, of "saturating_add64 t off"] by auto
    with False Cons show ?thesis by (auto simp: Let_def not_less)
  qed (use Cons in \<open>simp add: Let_def\<close>)
qed simp

section \<open>Properties\<close>

text \<open>C38: One-time codes: for a secret of at least 160 bits and a clock at which the window does not
  overflow, verification never fails, and it accepts exactly the codes of the current 30-second
  step, the one before (if there is one) and the one after.\<close>

theorem verify_code_window:
  assumes "hmac_sha1_laws ops" and "20 \<le> length secret"
    and "0 \<le> now" and "now \<le> i64_max - 30"
  shows "verify_code ops secret code now = Inr (\<exists>k \<in> {-1, 0, 1}.
     0 \<le> now div 30 + k \<and> code = step_code ops secret (now div 30 + k))"
proof -
  have sat: "saturating_add64 now (30 * k) = now + 30 * k" if "k \<in> {-1, 0, 1}" for k
    using that assms(3,4)
    by (auto simp: saturating_add64_def sat64_def i64_min_def i64_max_def)
  have step: "(now + 30 * k) div 30 = now div 30 + k" for k by simp
  have nonneg: "0 \<le> now + 30 * k \<longleftrightarrow> 0 \<le> now div 30 + k" for k
    by presburger
  have offs: "[- totp_step_seconds, 0, totp_step_seconds] = map ((*) 30) [-1, 0, 1]"
    by (simp add: totp_step_seconds_def)
  let ?W = "\<exists>k \<in> {-1, 0, 1}. 0 \<le> now div 30 + k \<and> code = step_code ops secret (now div 30 + k)"
  have "(\<exists>off \<in> set (map ((*) 30) [-1, 0, 1]). 0 \<le> saturating_add64 now off
      \<and> code = step_code ops secret (saturating_add64 now off div 30)) \<longleftrightarrow> ?W"
    unfolding set_map bex_simps(7) by (simp only: list.set sat step nonneg cong: bex_cong)
  then have loop: "try_offsets ops secret code now [- totp_step_seconds, 0, totp_step_seconds] = Inr ?W"
    unfolding offs try_offsets_spec [OF assms(1,2)] by simp
  show ?thesis
  proof (cases "length code \<noteq> totp_digits \<or> \<not> list_all is_ascii_digit code")
    case True
    then have "\<not> ?W" using step_code_shape [OF assms(1,2)] by blast
    with True show ?thesis unfolding verify_code_def by auto
  next
    case False
    then show ?thesis unfolding verify_code_def loop by simp
  qed
qed

definition demo_totp_ops :: totp_ops where
  "demo_totp_ops = \<lparr>hmac_sha1 = (\<lambda>k m. Some (take 20 (rev m @ k @ replicate 20 CHR ''x''))),
     totp_sha256 = (\<lambda>m. take 32 (rev m @ replicate 32 CHR ''0'')), totp_b64 = (\<lambda>b. b)\<rparr>"

lemma demo_totp_laws: "hmac_sha1_laws demo_totp_ops"
  by (auto simp: hmac_sha1_laws_def demo_totp_ops_def min_def)

theorem verify_code_window_witness:
  "verify_code demo_totp_ops (replicate 20 CHR ''p'') ''554432'' 59 = Inr True
   \<and> verify_code demo_totp_ops (replicate 20 CHR ''p'') ''123456'' 59 = Inr False"
proof -
  have bounds: "20 \<le> length (replicate 20 CHR ''p'')" "0 \<le> (59::int)" "(59::int) \<le> i64_max - 30"
    by (simp_all add: i64_max_def)
  note window = verify_code_window [OF demo_totp_laws bounds]
  show ?thesis
    by (simp only: window) code_simp
qed

text \<open>Every issued recovery code matches the hash stored at its position, there are as many hashes
  as codes, between 4 and 20, and a code that matches a stored hash is the issued one or a
  SHA-256 collision with it.\<close>

theorem recovery_codes_spec:
  assumes "issue_recovery_codes ops random count = Inr s"
  shows "length (rc_codes s) = count \<and> length (rc_hashes s) = count \<and> 4 \<le> count \<and> count \<le> 20
    \<and> (\<forall>i < count. recovery_code_matches ops (rc_codes s ! i) (rc_hashes s ! i))
    \<and> (\<forall>i < count. \<forall>other. recovery_code_matches ops other (rc_hashes s ! i) \<longrightarrow>
         other = rc_codes s ! i
         \<or> (other \<noteq> rc_codes s ! i \<and> totp_sha256 ops other = totp_sha256 ops (rc_codes s ! i)))"
  using assms by (auto simp: issue_recovery_codes_def recovery_code_matches_def Let_def
      split: if_splits)

definition demo_random :: "nat \<Rightarrow> bytes" where
  "demo_random i = [char_of (97 + int i)]"

theorem recovery_codes_spec_witness:
  "recovery_code_matches demo_totp_ops ''c'' (totp_sha256 demo_totp_ops ''c'')"
proof -
  have issued: "issue_recovery_codes demo_totp_ops demo_random 4
      = Inr \<lparr>rc_codes = [''a'', ''b'', ''c'', ''d''],
         rc_hashes = map (totp_sha256 demo_totp_ops) [''a'', ''b'', ''c'', ''d'']\<rparr>"
    by code_simp
  show ?thesis
    using recovery_codes_spec [OF issued, THEN conjunct2, THEN conjunct2, THEN conjunct2,
        THEN conjunct2, THEN conjunct1, rule_format, of 2]
    by (simp add: numeral_2_eq_2)
qed

text \<open>A password hash that is produced verifies with its password and asks for a rehash exactly
  under another policy; passwords shorter than 12 or longer than 1024 bytes are refused before
  anything is hashed.\<close>

theorem password_hash_spec:
  assumes "argon2_laws ops"
  shows "(hash_password ops salt password policy = Inr encoded \<longrightarrow>
      12 \<le> length password \<and> length password \<le> 1024
      \<and> verify_password ops password encoded = Inr True
      \<and> needs_rehash ops encoded policy' = Inr (policy' \<noteq> policy))
    \<and> (\<not> (12 \<le> length password \<and> length password \<le> 1024) \<longrightarrow>
      hash_password ops salt password policy = Inl InvalidLength)"
proof -
  have eq: "policy' \<noteq> policy \<longleftrightarrow> pp_memory_kib policy \<noteq> pp_memory_kib policy'
      \<or> pp_iterations policy \<noteq> pp_iterations policy' \<or> pp_parallelism policy \<noteq> pp_parallelism policy'"
    by (cases policy; cases policy') auto
  have "12 \<le> length password \<and> length password \<le> 1024
      \<and> verify_password ops password encoded = Inr True
      \<and> needs_rehash ops encoded policy' = Inr (policy' \<noteq> policy)"
    if h: "hash_password ops salt password policy = Inr encoded"
  proof -
    obtain s where s: "argon2id_hash ops policy password s = Some encoded"
      and len: "12 \<le> length password" "length password \<le> 1024"
      using h by (auto simp: hash_password_def result_simps split: if_splits)
    obtain p where "phc_parse ops encoded = Some p" "phc_algorithm p = ''argon2id''"
      "phc_version p = Some 19" "phc_get_decimal p ''m'' = Some (pp_memory_kib policy)"
      "phc_get_decimal p ''t'' = Some (pp_iterations policy)"
      "phc_get_decimal p ''p'' = Some (pp_parallelism policy)" "argon2_verify ops password p"
      using assms s unfolding argon2_laws_def by blast
    with len show ?thesis
      by (simp add: verify_password_def needs_rehash_def unwrap_or_def eq)
  qed
  then show ?thesis by (auto simp: hash_password_def)
qed

definition demo_phc :: phc where
  "demo_phc = \<lparr>phc_algorithm = ''argon2id'', phc_version = Some 19,
     phc_get_decimal = [''m'' \<mapsto> 65536, ''t'' \<mapsto> 3, ''p'' \<mapsto> 1]\<rparr>"

definition demo_password_ops :: password_ops where
  "demo_password_ops = \<lparr>encode_salt = Some, argon2_params = (\<lambda>_. True),
     argon2id_hash = (\<lambda>policy password salt. if policy = default_password_policy
        \<and> password = ''correct horse'' then Some ''phc'' else None),
     phc_parse = (\<lambda>s. if s = ''phc'' then Some demo_phc else None),
     argon2_verify = (\<lambda>password p. password = ''correct horse'')\<rparr>"

lemma demo_password_laws: "argon2_laws demo_password_ops"
  by (auto simp: argon2_laws_def demo_password_ops_def demo_phc_def default_password_policy_def)

theorem password_hash_spec_witness:
  "verify_password demo_password_ops ''correct horse'' ''phc'' = Inr True
   \<and> hash_password demo_password_ops ''salt'' ''short'' default_password_policy = Inl InvalidLength"
proof -
  have h: "hash_password demo_password_ops ''salt'' ''correct horse'' default_password_policy = Inr ''phc''"
    by (simp add: hash_password_def demo_password_ops_def)
  show ?thesis
    using password_hash_spec [OF demo_password_laws, of "''salt''" "''correct horse''"] h
      password_hash_spec [OF demo_password_laws, of "''salt''" "''short''" default_password_policy]
    by simp
qed

end
