(* ===== verification/Vault.thy ===== *)
theory Vault
  imports SNM_Prelude
begin

text \<open>
  The envelope encryption of the security crate (\<open>crates/security/src/vault.rs\<close>): master keys,
  the key ring, and secrets encrypted under a fresh data key that is itself wrapped under a master
  key. AES-256-GCM and SHA-256 are parameters with the laws \<open>vault_laws\<close>; the random bytes of one
  encryption are its argument.
\<close>

record master_key =
  mk_version :: "32 word"
  mk_key :: bytes

record key_ring =
  kr_keys :: "32 word \<rightharpoonup> master_key"
  kr_current_version :: "32 word option"

record encrypted_secret =
  es_key_version :: "32 word"
  es_wrapped_dek_nonce :: bytes
  es_wrapped_dek :: bytes
  es_data_nonce :: bytes
  es_ciphertext :: bytes
  es_aad_hash :: bytes

datatype vault_error =
    InvalidKeyVersion | InvalidMasterKey | InvalidDataKey | NoCurrentMasterKey
  | MissingMasterKey "32 word" | AssociatedDataMismatch | EncryptionFailed | DecryptionFailed

section \<open>The crates the code calls\<close>

text \<open>\<open>aead_key k\<close>: the cipher accepts the key; encryption and decryption take the key, the nonce, the
  message and the associated data.\<close>

record vault_ops =
  aead_key :: "bytes \<Rightarrow> bool"
  aead_encrypt :: "bytes \<Rightarrow> bytes \<Rightarrow> bytes \<Rightarrow> bytes \<Rightarrow> bytes option"
  aead_decrypt :: "bytes \<Rightarrow> bytes \<Rightarrow> bytes \<Rightarrow> bytes \<Rightarrow> bytes option"
  vault_sha256 :: "bytes \<Rightarrow> bytes"

definition vault_laws :: "'z vault_ops_scheme \<Rightarrow> bool" where
  "vault_laws ops \<longleftrightarrow>
     (\<forall>k. aead_key ops k \<longleftrightarrow> length k = 32)
     \<and> (\<forall>k n m a c. aead_encrypt ops k n m a = Some c \<longrightarrow> aead_decrypt ops k n c a = Some m)
     \<and> (\<forall>m. length (vault_sha256 ops m) = 32)"

lemma vault_lawsD:
  assumes "vault_laws ops"
  shows "aead_key ops k \<longleftrightarrow> length k = 32"
    and "aead_encrypt ops k n m a = Some c \<Longrightarrow> aead_decrypt ops k n c a = Some m"
    and "length (vault_sha256 ops m) = 32"
  using assms by (simp_all add: vault_laws_def)

text \<open>The random bytes of one encryption, in the order they are drawn.\<close>

record vault_random =
  vr_dek :: bytes
  vr_data_nonce :: bytes
  vr_wrapped_dek_nonce :: bytes

definition random_ok :: "vault_random \<Rightarrow> bool" where
  "random_ok r \<longleftrightarrow> length (vr_dek r) = 32 \<and> length (vr_data_nonce r) = 12
     \<and> length (vr_wrapped_dek_nonce r) = 12"

section \<open>Keys\<close>

definition master_key_new :: "32 word \<Rightarrow> bytes \<Rightarrow> vault_error + master_key" where
  "master_key_new version key =
     (if version = 0 then Inl InvalidKeyVersion
      else Inr \<lparr>mk_version = version, mk_key = key\<rparr>)"

definition key_cipher :: "'z vault_ops_scheme \<Rightarrow> master_key \<Rightarrow> vault_error + bytes" where
  "key_cipher ops key =
     bindR (ensure (aead_key ops (mk_key key)) InvalidMasterKey) (\<lambda>_. Inr (mk_key key))"

definition empty_ring :: key_ring where
  "empty_ring = \<lparr>kr_keys = Map.empty, kr_current_version = None\<rparr>"

definition ring_insert :: "master_key \<Rightarrow> bool \<Rightarrow> key_ring \<Rightarrow> key_ring" where
  "ring_insert key make_current ring =
     (let ring = (if make_current then ring\<lparr>kr_current_version := Some (mk_version key)\<rparr> else ring)
      in ring\<lparr>kr_keys := (kr_keys ring)(mk_version key \<mapsto> key)\<rparr>)"

definition ring_get :: "key_ring \<Rightarrow> 32 word \<Rightarrow> vault_error + master_key" where
  "ring_get ring version = ok_or (MissingMasterKey version) (kr_keys ring version)"

definition ring_current :: "key_ring \<Rightarrow> vault_error + master_key" where
  "ring_current ring =
     bindR (ok_or NoCurrentMasterKey (kr_current_version ring)) (\<lambda>version.
     ok_or (MissingMasterKey version) (kr_keys ring version))"

section \<open>Envelope encryption\<close>

definition wrapping_aad :: "bytes \<Rightarrow> bytes" where
  "wrapping_aad aad = ''snm:vault:dek:'' @ aad"

definition vault_encrypt ::
  "'z vault_ops_scheme \<Rightarrow> vault_random \<Rightarrow> bytes \<Rightarrow> bytes \<Rightarrow> master_key
     \<Rightarrow> vault_error + encrypted_secret" where
  "vault_encrypt ops r plaintext aad key =
     (let dek = vr_dek r in
      bindR (ensure (aead_key ops dek) InvalidDataKey) (\<lambda>_.
      bindR (ok_or EncryptionFailed (aead_encrypt ops dek (vr_data_nonce r) plaintext aad))
        (\<lambda>ciphertext.
      bindR (key_cipher ops key) (\<lambda>cipher.
      bindR (ok_or EncryptionFailed
               (aead_encrypt ops cipher (vr_wrapped_dek_nonce r) dek (wrapping_aad aad)))
        (\<lambda>wrapped_dek.
      Inr \<lparr>es_key_version = mk_version key, es_wrapped_dek_nonce = vr_wrapped_dek_nonce r,
           es_wrapped_dek = wrapped_dek, es_data_nonce = vr_data_nonce r,
           es_ciphertext = ciphertext, es_aad_hash = vault_sha256 ops aad\<rparr>)))))"

definition vault_decrypt ::
  "'z vault_ops_scheme \<Rightarrow> encrypted_secret \<Rightarrow> bytes \<Rightarrow> key_ring \<Rightarrow> vault_error + bytes" where
  "vault_decrypt ops e aad keys =
     (if es_aad_hash e \<noteq> vault_sha256 ops aad then Inl AssociatedDataMismatch
      else bindR (ring_get keys (es_key_version e)) (\<lambda>master.
        bindR (key_cipher ops master) (\<lambda>cipher.
        bindR (ok_or DecryptionFailed
                 (aead_decrypt ops cipher (es_wrapped_dek_nonce e) (es_wrapped_dek e)
                    (wrapping_aad aad))) (\<lambda>dek.
        bindR (ensure (aead_key ops dek) InvalidDataKey) (\<lambda>_.
        ok_or DecryptionFailed (aead_decrypt ops dek (es_data_nonce e) (es_ciphertext e) aad))))))"

definition vault_rotate ::
  "'z vault_ops_scheme \<Rightarrow> vault_random \<Rightarrow> encrypted_secret \<Rightarrow> bytes \<Rightarrow> key_ring
     \<Rightarrow> vault_error + encrypted_secret" where
  "vault_rotate ops r e aad keys =
     bindR (vault_decrypt ops e aad keys) (\<lambda>plaintext.
     bindR (ring_current keys) (\<lambda>key. vault_encrypt ops r plaintext aad key))"

section \<open>Facts\<close>

text \<open>A ring files every key under its own version.\<close>

definition ring_ok :: "key_ring \<Rightarrow> bool" where
  "ring_ok ring \<longleftrightarrow> (\<forall>v k. kr_keys ring v = Some k \<longrightarrow> mk_version k = v)"

lemma ring_ok_empty: "ring_ok empty_ring"
  by (simp add: ring_ok_def empty_ring_def)

lemma ring_ok_insert: "ring_ok ring \<Longrightarrow> ring_ok (ring_insert k mc ring)"
  by (auto simp: ring_ok_def ring_insert_def Let_def)

lemma ring_current_ok:
  assumes "ring_ok ring" and "ring_current ring = Inr k"
  shows "ring_get ring (mk_version k) = Inr k \<and> kr_current_version ring = Some (mk_version k)"
  using assms by (auto simp: ring_current_def ring_get_def ring_ok_def result_simps)

lemma ring_current_after_insert: "ring_current (ring_insert k True ring) = Inr k"
  by (simp add: ring_current_def ring_insert_def)

lemma ring_get_after_insert:
  "ring_get (ring_insert k mc ring) v = (if v = mk_version k then Inr k else ring_get ring v)"
  by (simp add: ring_get_def ring_insert_def Let_def)

lemma encrypt_ok_iff:
  "vault_encrypt ops r m aad key = Inr e \<longleftrightarrow>
     aead_key ops (vr_dek r) \<and> aead_key ops (mk_key key) \<and>
     (\<exists>c w. aead_encrypt ops (vr_dek r) (vr_data_nonce r) m aad = Some c
        \<and> aead_encrypt ops (mk_key key) (vr_wrapped_dek_nonce r) (vr_dek r) (wrapping_aad aad) = Some w
        \<and> e = \<lparr>es_key_version = mk_version key, es_wrapped_dek_nonce = vr_wrapped_dek_nonce r,
               es_wrapped_dek = w, es_data_nonce = vr_data_nonce r, es_ciphertext = c,
               es_aad_hash = vault_sha256 ops aad\<rparr>)"
  by (auto simp: vault_encrypt_def key_cipher_def result_simps Let_def)

lemma decrypt_encrypted:
  assumes laws: "vault_laws ops" and enc: "vault_encrypt ops r m aad key = Inr e"
    and get: "ring_get ring (mk_version key) = Inr key"
  shows "vault_decrypt ops e aad ring = Inr m"
proof -
  obtain c w where "aead_key ops (vr_dek r)" "aead_key ops (mk_key key)"
    "aead_encrypt ops (vr_dek r) (vr_data_nonce r) m aad = Some c"
    "aead_encrypt ops (mk_key key) (vr_wrapped_dek_nonce r) (vr_dek r) (wrapping_aad aad) = Some w"
    "e = \<lparr>es_key_version = mk_version key, es_wrapped_dek_nonce = vr_wrapped_dek_nonce r,
      es_wrapped_dek = w, es_data_nonce = vr_data_nonce r, es_ciphertext = c,
      es_aad_hash = vault_sha256 ops aad\<rparr>"
    using enc by (auto simp: encrypt_ok_iff)
  then show ?thesis
    using get vault_lawsD(2) [OF laws] by (simp add: vault_decrypt_def key_cipher_def)
qed

lemma decrypt_other_aad:
  "vault_encrypt ops r m aad key = Inr e \<Longrightarrow> vault_sha256 ops aad' \<noteq> vault_sha256 ops aad
   \<Longrightarrow> vault_decrypt ops e aad' ring = Inl AssociatedDataMismatch"
  by (auto simp: vault_decrypt_def encrypt_ok_iff)

lemma decrypt_ok_hash: "vault_decrypt ops e aad ring = Inr m \<Longrightarrow> es_aad_hash e = vault_sha256 ops aad"
  by (auto simp: vault_decrypt_def split: if_splits)

section \<open>Properties\<close>


text \<open>A cipher that writes the key, nonce and associated data before the message: enough to evaluate.\<close>

definition demo_frame :: "bytes \<Rightarrow> bytes \<Rightarrow> bytes \<Rightarrow> bytes" where
  "demo_frame k n a = k @ n @ a"

definition demo_vault_ops :: vault_ops where
  "demo_vault_ops = \<lparr>aead_key = (\<lambda>k. length k = 32),
     aead_encrypt = (\<lambda>k n m a. Some (demo_frame k n a @ m)),
     aead_decrypt = (\<lambda>k n c a. strip_prefix (demo_frame k n a) c),
     vault_sha256 = (\<lambda>m. take 32 (rev m @ replicate 32 CHR ''0''))\<rparr>"

lemma demo_vault_laws: "vault_laws demo_vault_ops"
  by (auto simp: vault_laws_def demo_vault_ops_def min_def)

definition demo_key :: "32 word \<Rightarrow> master_key" where
  "demo_key v = \<lparr>mk_version = v, mk_key = replicate 32 CHR ''k''\<rparr>"

definition demo_vault_random :: vault_random where
  "demo_vault_random = \<lparr>vr_dek = replicate 32 CHR ''d'', vr_data_nonce = replicate 12 CHR ''n'',
     vr_wrapped_dek_nonce = replicate 12 CHR ''w''\<rparr>"

definition demo_ring :: key_ring where
  "demo_ring = ring_insert (demo_key 2) True (ring_insert (demo_key 1) False empty_ring)"

lemma demo_encrypt_total:
  "\<exists>e. vault_encrypt demo_vault_ops demo_vault_random m aad (demo_key v) = Inr e"
  by (simp add: vault_encrypt_def key_cipher_def demo_vault_ops_def demo_key_def
      demo_vault_random_def Let_def)

definition demo_secret :: encrypted_secret where
  "demo_secret = (case vault_encrypt demo_vault_ops demo_vault_random ''hunter2'' ''aad'' (demo_key 1) of
     Inr e \<Rightarrow> e)"

lemma demo_secret_encrypted:
  "vault_encrypt demo_vault_ops demo_vault_random ''hunter2'' ''aad'' (demo_key 1) = Inr demo_secret"
  using demo_encrypt_total [of "''hunter2''" "''aad''" 1] by (auto simp: demo_secret_def)

lemma demo_ring_keys: "ring_get demo_ring 1 = Inr (demo_key 1)" "ring_current demo_ring = Inr (demo_key 2)"
  "ring_ok demo_ring"
  by (simp_all add: demo_ring_def ring_get_after_insert ring_current_after_insert demo_key_def
      ring_ok_insert ring_ok_empty)


text \<open>Rotation keeps the secret and moves it to the current key: it succeeds on what decrypts, the
  result carries the current version and decrypts, with the same associated data, to the same
  plaintext, also in a ring from which the old key has been removed.\<close>

theorem vault_rotation:
  assumes "vault_laws ops" and "ring_ok ring" and "ring_current ring = Inr key"
    and "vault_decrypt ops e aad ring = Inr m" and "vault_rotate ops r e aad ring = Inr e'"
  shows "es_key_version e' = mk_version key \<and> vault_decrypt ops e' aad ring = Inr m
    \<and> (\<forall>ring'. ring_get ring' (mk_version key) = Inr key \<longrightarrow> vault_decrypt ops e' aad ring' = Inr m)"
proof -
  have enc: "vault_encrypt ops r m aad key = Inr e'"
    using assms(3-5) by (simp add: vault_rotate_def)
  then have "es_key_version e' = mk_version key" by (auto simp: encrypt_ok_iff)
  moreover have "ring_get ring (mk_version key) = Inr key"
    using ring_current_ok [OF assms(2,3)] by blast
  ultimately show ?thesis using decrypt_encrypted [OF assms(1) enc] by blast
qed

theorem vault_rotation_witness:
  "\<exists>e'. vault_rotate demo_vault_ops demo_vault_random demo_secret ''aad'' demo_ring = Inr e'
     \<and> es_key_version e' = 2 \<and> vault_decrypt demo_vault_ops e' ''aad'' demo_ring = Inr ''hunter2''"
proof -
  have dec: "vault_decrypt demo_vault_ops demo_secret ''aad'' demo_ring = Inr ''hunter2''"
    by (rule decrypt_encrypted [OF demo_vault_laws demo_secret_encrypted])
      (simp add: demo_key_def demo_ring_keys(1) [unfolded demo_key_def])
  obtain e' where e': "vault_rotate demo_vault_ops demo_vault_random demo_secret ''aad'' demo_ring = Inr e'"
    using demo_encrypt_total [of "''hunter2''" "''aad''" 2]
    by (auto simp: vault_rotate_def dec demo_ring_keys(2))
  show ?thesis
    using vault_rotation [OF demo_vault_laws demo_ring_keys(3,2) dec e'] e'
    by (simp add: demo_key_def)
qed

end
