(* ===== verification/Credential_Store.thy ===== *)
theory Credential_Store
  imports Vault Redaction
begin

text \<open>
  The credential store (\<open>crates/security-store/src/lib.rs\<close>) over the vault: profiles and their
  ciphertext rows, and the operations create, get, list, resolve, replace, deactivate and rotate.

  The two tables are lists of rows. An operation that fails leaves the database as it was, since
  every error returns before the commit; so an operation is a function from the database to an
  error or the new database with its result. The identifier, the clock and the random bytes an
  operation draws are arguments. Of the schema, the primary keys, the unique name in an
  organization and the reference to the organization are checked on insert; the size checks on
  the ciphertext columns hold of every AES-GCM output and are not repeated.
  The columns \<open>updated_at\<close> and \<open>rotated_at\<close>, which nothing reads, are left out.
\<close>

section \<open>Data\<close>

record credential_profile =
  cp_id :: uuid
  cp_organization_id :: uuid
  cp_name :: string
  cp_kind :: string
  cp_username :: "string option"
  cp_metadata :: json
  cp_active :: bool
  cp_created_at :: timestamp

record ciphertext_row =
  cc_profile_id :: uuid
  cc_key_version :: i32
  cc_wrapped_dek_nonce :: bytes
  cc_wrapped_dek :: bytes
  cc_data_nonce :: bytes
  cc_ciphertext :: bytes
  cc_aad_hash :: bytes

record credential_db =
  cd_organizations :: "uuid set"
  cd_profiles :: "credential_profile list"
  cd_ciphertexts :: "ciphertext_row list"

record credential_summary =
  sm_id :: uuid
  sm_organization_id :: uuid
  sm_name :: string
  sm_kind :: string
  sm_username :: "string option"
  sm_metadata :: json
  sm_active :: bool
  sm_key_version :: "i32 option"

record new_credential_profile =
  np_organization_id :: uuid
  np_name :: string
  np_kind :: string
  np_username :: "string option"
  np_metadata :: json
  np_secret :: bytes

datatype cred_error =
    InvalidMetadata | InvalidSecret | NotFound | Inactive | InvalidStoredCiphertext
  | VaultErr vault_error | DatabaseErr

text \<open>The store: the crypto crates, the textual form of identifiers, and the key ring.\<close>

record credential_env = vault_ops +
  ce_uuid_str :: "uuid \<Rightarrow> string"
  ce_keys :: key_ring

definition store_new :: "credential_env \<Rightarrow> cred_error + credential_env" where
  "store_new env = bindR (map_err VaultErr (ring_current (ce_keys env))) (\<lambda>_. Inr env)"

section \<open>Helpers of the source\<close>

definition validate_profile_input :: "new_credential_profile \<Rightarrow> cred_error + unit" where
  "validate_profile_input input =
     (if trim (np_name input) = [] \<or> length (np_name input) > 200
         \<or> trim (np_kind input) = [] \<or> length (np_kind input) > 100
      then Inl InvalidMetadata
      else if np_secret input = [] \<or> length (np_secret input) > 64 * 1024
      then Inl InvalidSecret
      else if (case np_username input of None \<Rightarrow> False
               | Some value \<Rightarrow> trim value = [] \<or> length value > 320)
      then Inl InvalidMetadata
      else Inr ())"

definition profile_aad :: "credential_env \<Rightarrow> uuid \<Rightarrow> uuid \<Rightarrow> string \<Rightarrow> bytes" where
  "profile_aad env organization_id profile_id kind =
     ''snm:credential:v1:'' @ ce_uuid_str env organization_id @ '':''
       @ ce_uuid_str env profile_id @ '':'' @ kind"

text \<open>\<open>i32::try_from\<close> of the key version, and the row written to the table.\<close>

definition ciphertext_to_row :: "uuid \<Rightarrow> encrypted_secret \<Rightarrow> cred_error + ciphertext_row" where
  "ciphertext_to_row profile_id e =
     bindR (ok_or InvalidStoredCiphertext (i32_try_from (uint (es_key_version e)))) (\<lambda>key_version.
     Inr \<lparr>cc_profile_id = profile_id, cc_key_version = key_version,
          cc_wrapped_dek_nonce = es_wrapped_dek_nonce e, cc_wrapped_dek = es_wrapped_dek e,
          cc_data_nonce = es_data_nonce e, cc_ciphertext = es_ciphertext e,
          cc_aad_hash = es_aad_hash e\<rparr>)"

definition fixed :: "nat \<Rightarrow> bytes \<Rightarrow> cred_error + bytes" where
  "fixed n value = (if length value = n then Inr value else Inl InvalidStoredCiphertext)"

definition row_to_ciphertext :: "ciphertext_row \<Rightarrow> cred_error + encrypted_secret" where
  "row_to_ciphertext row =
     (if cc_key_version row < 0 then Inl InvalidStoredCiphertext else
      bindR (fixed 12 (cc_wrapped_dek_nonce row)) (\<lambda>wrapped_dek_nonce.
      bindR (fixed 12 (cc_data_nonce row)) (\<lambda>data_nonce.
      bindR (fixed 32 (cc_aad_hash row)) (\<lambda>aad_hash.
      Inr \<lparr>es_key_version = word_of_int (cc_key_version row),
           es_wrapped_dek_nonce = wrapped_dek_nonce, es_wrapped_dek = cc_wrapped_dek row,
           es_data_nonce = data_nonce, es_ciphertext = cc_ciphertext row,
           es_aad_hash = aad_hash\<rparr>))))"

definition insert_ciphertext ::
  "uuid \<Rightarrow> encrypted_secret \<Rightarrow> credential_db \<Rightarrow> cred_error + credential_db" where
  "insert_ciphertext profile_id e db =
     bindR (ciphertext_to_row profile_id e) (\<lambda>row.
     if list_ex (\<lambda>c. cc_profile_id c = profile_id) (cd_ciphertexts db) then Inl DatabaseErr
     else Inr (db\<lparr>cd_ciphertexts := cd_ciphertexts db @ [row]\<rparr>))"

definition update_ciphertext ::
  "uuid \<Rightarrow> encrypted_secret \<Rightarrow> credential_db \<Rightarrow> cred_error + credential_db" where
  "update_ciphertext profile_id e db =
     bindR (ciphertext_to_row profile_id e) (\<lambda>row.
     if rows_affected (\<lambda>c. cc_profile_id c = profile_id) (cd_ciphertexts db) \<noteq> 1
     then Inl NotFound
     else Inr (db\<lparr>cd_ciphertexts :=
            upd_where (\<lambda>c. cc_profile_id c = profile_id) (\<lambda>_. row) (cd_ciphertexts db)\<rparr>))"

definition ciphertext_of :: "credential_db \<Rightarrow> uuid \<Rightarrow> ciphertext_row option" where
  "ciphertext_of db profile_id =
     List.find (\<lambda>c. cc_profile_id c = profile_id) (cd_ciphertexts db)"

definition profile_of :: "credential_db \<Rightarrow> uuid \<Rightarrow> uuid \<Rightarrow> credential_profile option" where
  "profile_of db organization_id profile_id =
     List.find (\<lambda>p. cp_id p = profile_id \<and> cp_organization_id p = organization_id)
       (cd_profiles db)"

text \<open>The inner join of both tables on one profile of one organization.\<close>

definition joined ::
  "credential_db \<Rightarrow> uuid \<Rightarrow> uuid \<Rightarrow> (credential_profile \<times> ciphertext_row) option" where
  "joined db organization_id profile_id =
     (case profile_of db organization_id profile_id of None \<Rightarrow> None
      | Some p \<Rightarrow> map_option (Pair p) (ciphertext_of db profile_id))"

definition row_to_summary :: "credential_db \<Rightarrow> credential_profile \<Rightarrow> credential_summary" where
  "row_to_summary db p = \<lparr>sm_id = cp_id p, sm_organization_id = cp_organization_id p,
     sm_name = cp_name p, sm_kind = cp_kind p, sm_username = cp_username p,
     sm_metadata = cp_metadata p, sm_active = cp_active p,
     sm_key_version = map_option cc_key_version (ciphertext_of db (cp_id p))\<rparr>"

section \<open>Operations\<close>

definition insert_profile :: "credential_profile \<Rightarrow> credential_db \<Rightarrow> cred_error + credential_db" where
  "insert_profile p db =
     (if cp_organization_id p \<notin> cd_organizations db
         \<or> list_ex (\<lambda>q. cp_id q = cp_id p
              \<or> (cp_organization_id q = cp_organization_id p \<and> cp_name q = cp_name p))
            (cd_profiles db)
      then Inl DatabaseErr
      else Inr (db\<lparr>cd_profiles := cd_profiles db @ [p]\<rparr>))"

definition cred_create ::
  "credential_env \<Rightarrow> vault_random \<Rightarrow> uuid \<Rightarrow> timestamp \<Rightarrow> new_credential_profile \<Rightarrow> credential_db
     \<Rightarrow> cred_error + (credential_db \<times> credential_summary)" where
  "cred_create env r profile_id now input db =
     bindR (validate_profile_input input) (\<lambda>_.
     let aad = profile_aad env (np_organization_id input) profile_id (np_kind input) in
     bindR (map_err VaultErr (ring_current (ce_keys env))) (\<lambda>key.
     bindR (map_err VaultErr (vault_encrypt env r (np_secret input) aad key)) (\<lambda>encrypted.
     bindR (insert_profile \<lparr>cp_id = profile_id, cp_organization_id = np_organization_id input,
              cp_name = trim (np_name input), cp_kind = trim (np_kind input),
              cp_username = map_option trim (np_username input),
              cp_metadata = np_metadata input, cp_active = True, cp_created_at = now\<rparr> db) (\<lambda>db.
     bindR (insert_ciphertext profile_id encrypted db) (\<lambda>db.
     bindR (ok_or InvalidStoredCiphertext (i32_try_from (uint (es_key_version encrypted))))
       (\<lambda>key_version.
     Inr (db, \<lparr>sm_id = profile_id, sm_organization_id = np_organization_id input,
       sm_name = trim (np_name input), sm_kind = trim (np_kind input),
       sm_username = map_option trim (np_username input), sm_metadata = np_metadata input,
       sm_active = True, sm_key_version = Some key_version\<rparr>)))))))"

definition cred_get_summary :: "credential_db \<Rightarrow> uuid \<Rightarrow> uuid \<Rightarrow> credential_summary option" where
  "cred_get_summary db organization_id profile_id =
     map_option (row_to_summary db) (profile_of db organization_id profile_id)"

definition cred_list_summaries :: "credential_db \<Rightarrow> uuid \<Rightarrow> i64 \<Rightarrow> i64 \<Rightarrow> credential_summary list" where
  "cred_list_summaries db organization_id limit offset =
     (let rows = sort_key (\<lambda>p. (- cp_created_at p, uint (cp_id p)))
            (filter (\<lambda>p. cp_organization_id p = organization_id) (cd_profiles db))
      in map (row_to_summary db)
           (take (nat (clampi 1 250 limit)) (drop (nat (max 0 offset)) rows)))"

definition cred_resolve_secret ::
  "credential_env \<Rightarrow> credential_db \<Rightarrow> uuid \<Rightarrow> uuid \<Rightarrow> cred_error + bytes" where
  "cred_resolve_secret env db organization_id profile_id =
     bindR (ok_or NotFound (joined db organization_id profile_id)) (\<lambda>(p, c).
     if \<not> cp_active p then Inl Inactive else
     bindR (row_to_ciphertext c) (\<lambda>encrypted.
     let aad = profile_aad env organization_id profile_id (cp_kind p) in
     map_err VaultErr (vault_decrypt env encrypted aad (ce_keys env))))"

definition cred_replace_secret ::
  "credential_env \<Rightarrow> vault_random \<Rightarrow> uuid \<Rightarrow> uuid \<Rightarrow> bytes \<Rightarrow> credential_db
     \<Rightarrow> cred_error + credential_db" where
  "cred_replace_secret env r organization_id profile_id new_secret db =
     (if new_secret = [] \<or> length new_secret > 64 * 1024 then Inl InvalidSecret else
      bindR (ok_or NotFound (List.find (\<lambda>p. cp_id p = profile_id
          \<and> cp_organization_id p = organization_id \<and> cp_active p) (cd_profiles db))) (\<lambda>p.
      let aad = profile_aad env organization_id profile_id (cp_kind p) in
      bindR (map_err VaultErr (ring_current (ce_keys env))) (\<lambda>key.
      bindR (map_err VaultErr (vault_encrypt env r new_secret aad key)) (\<lambda>encrypted.
      update_ciphertext profile_id encrypted db))))"

definition cred_deactivate :: "uuid \<Rightarrow> uuid \<Rightarrow> credential_db \<Rightarrow> credential_db \<times> bool" where
  "cred_deactivate organization_id profile_id db =
     (let hit = (\<lambda>p. cp_id p = profile_id \<and> cp_organization_id p = organization_id \<and> cp_active p)
      in (db\<lparr>cd_profiles := upd_where hit (cp_active_update (\<lambda>_. False)) (cd_profiles db)\<rparr>,
          rows_affected hit (cd_profiles db) = 1))"

definition cred_rotate_profile_key ::
  "credential_env \<Rightarrow> vault_random \<Rightarrow> uuid \<Rightarrow> uuid \<Rightarrow> credential_db
     \<Rightarrow> cred_error + (credential_db \<times> bool)" where
  "cred_rotate_profile_key env r organization_id profile_id db =
     bindR (map_err VaultErr (ring_current (ce_keys env))) (\<lambda>key.
     let current_version = mk_version key in
     bindR (ok_or NotFound (joined db organization_id profile_id)) (\<lambda>(p, c).
     let stored_version = cc_key_version c in
     bindR (ok_or InvalidStoredCiphertext (i32_try_from (uint current_version)))
       (\<lambda>current_version_i32.
     if stored_version = current_version_i32 then Inr (db, False) else
     bindR (row_to_ciphertext c) (\<lambda>encrypted.
     let aad = profile_aad env organization_id profile_id (cp_kind p) in
     bindR (map_err VaultErr (vault_rotate env r encrypted aad (ce_keys env))) (\<lambda>rotated.
     bindR (update_ciphertext profile_id rotated db) (\<lambda>db. Inr (db, True)))))))"

section \<open>Facts about rows\<close>

lemma row_roundtrip:
  assumes "vault_laws env" and "random_ok r" and "vault_encrypt env r m aad key = Inr e"
    and "ciphertext_to_row profile_id e = Inr row"
  shows "row_to_ciphertext row = Inr e" and "cc_profile_id row = profile_id"
    and "cc_key_version row = uint (mk_version key)"
  using assms
  by (auto simp: ciphertext_to_row_def row_to_ciphertext_def fixed_def encrypt_ok_iff random_ok_def
      vault_lawsD(3) i32_try_from_def result_simps split: if_splits)

lemma update_ciphertext_lookup:
  assumes "update_ciphertext profile_id e db = Inr db'"
  obtains row where "ciphertext_to_row profile_id e = Inr row"
    and "\<And>i. ciphertext_of db' i = (if i = profile_id then Some row else ciphertext_of db i)"
    and "cd_profiles db' = cd_profiles db" and "cd_organizations db' = cd_organizations db"
    and "map cc_profile_id (cd_ciphertexts db') = map cc_profile_id (cd_ciphertexts db)"
proof -
  obtain row where row: "ciphertext_to_row profile_id e = Inr row"
    and one: "rows_affected (\<lambda>c. cc_profile_id c = profile_id) (cd_ciphertexts db) = 1"
    and db': "db' = db\<lparr>cd_ciphertexts :=
        upd_where (\<lambda>c. cc_profile_id c = profile_id) (\<lambda>_. row) (cd_ciphertexts db)\<rparr>"
    using assms by (auto simp: update_ciphertext_def result_simps split: if_splits)
  have id: "cc_profile_id row = profile_id"
    using row by (auto simp: ciphertext_to_row_def result_simps)
  obtain c where "List.find (\<lambda>c. cc_profile_id c = profile_id) (cd_ciphertexts db) = Some c"
    using rows_affected_find [OF one] by blast
  then have "ciphertext_of db' i = (if i = profile_id then Some row else ciphertext_of db i)" for i
    using find_upd_where_key [of cc_profile_id profile_id "\<lambda>_. row" i "cd_ciphertexts db"]
    by (simp add: db' ciphertext_of_def id)
  moreover have "map cc_profile_id (cd_ciphertexts db') = map cc_profile_id (cd_ciphertexts db)"
    by (simp add: db' map_upd_where id)
  ultimately show thesis using that row db' by simp
qed

lemma create_effect:
  assumes "cred_create env r i now input db = Inr (db', s)"
  obtains key e row p where
    "validate_profile_input input = Inr ()" and "ring_current (ce_keys env) = Inr key"
    and "vault_encrypt env r (np_secret input)
           (profile_aad env (np_organization_id input) i (np_kind input)) key = Inr e"
    and "ciphertext_to_row i e = Inr row"
    and "cp_id p = i" and "cp_organization_id p = np_organization_id input"
    and "cp_kind p = trim (np_kind input)" and "cp_active p"
    and "\<forall>q \<in> set (cd_profiles db). cp_id q \<noteq> i"
    and "\<forall>c \<in> set (cd_ciphertexts db). cc_profile_id c \<noteq> i"
    and "cd_profiles db' = cd_profiles db @ [p]"
    and "cd_ciphertexts db' = cd_ciphertexts db @ [row]"
    and "s = row_to_summary db' p"
proof -
  let ?p = "\<lparr>cp_id = i, cp_organization_id = np_organization_id input,
      cp_name = trim (np_name input), cp_kind = trim (np_kind input),
      cp_username = map_option trim (np_username input),
      cp_metadata = np_metadata input, cp_active = True, cp_created_at = now\<rparr>"
  obtain key e db1 kv where steps: "validate_profile_input input = Inr ()"
    "ring_current (ce_keys env) = Inr key"
    "vault_encrypt env r (np_secret input)
       (profile_aad env (np_organization_id input) i (np_kind input)) key = Inr e"
    "insert_profile ?p db = Inr db1" "insert_ciphertext i e db1 = Inr db'"
    "i32_try_from (uint (es_key_version e)) = Some kv"
    "s = \<lparr>sm_id = i, sm_organization_id = np_organization_id input,
       sm_name = trim (np_name input), sm_kind = trim (np_kind input),
       sm_username = map_option trim (np_username input), sm_metadata = np_metadata input,
       sm_active = True, sm_key_version = Some kv\<rparr>"
    using assms
    unfolding cred_create_def Let_def bindR_Inr_iff map_err_Inr_iff ok_or_Inr_iff
      ex_unit_iff sum.inject prod.inject
    by blast
  have db1: "db1 = db\<lparr>cd_profiles := cd_profiles db @ [?p]\<rparr>"
    and fresh: "\<forall>q \<in> set (cd_profiles db). cp_id q \<noteq> i"
    using steps(4) by (auto simp: insert_profile_def list_ex_iff split: if_splits)
  obtain row where row: "ciphertext_to_row i e = Inr row"
    and fresh': "\<forall>c \<in> set (cd_ciphertexts db). cc_profile_id c \<noteq> i"
    and db': "db' = db1\<lparr>cd_ciphertexts := cd_ciphertexts db @ [row]\<rparr>"
    using steps(5) by (auto simp: insert_ciphertext_def result_simps db1 list_ex_iff split: if_splits)
  have id: "cc_profile_id row = i" "cc_key_version row = kv"
    using row steps(6) by (auto simp: ciphertext_to_row_def result_simps)
  then have "ciphertext_of db' i = Some row"
    by (simp add: ciphertext_of_def db' find_append_new [OF fresh'])
  then have "s = row_to_summary db' ?p"
    by (simp add: row_to_summary_def steps(7) id(2))
  with that [OF steps(1-3) row, of ?p] fresh fresh' show thesis by (simp add: db' db1)
qed

section \<open>The invariant\<close>

text \<open>\<open>opens env p c s\<close>: the row decrypts to \<open>s\<close> under the associated data of its profile.\<close>

definition opens :: "credential_env \<Rightarrow> credential_profile \<Rightarrow> ciphertext_row \<Rightarrow> bytes \<Rightarrow> bool" where
  "opens env p c s \<longleftrightarrow> (\<exists>e. row_to_ciphertext c = Inr e
     \<and> vault_decrypt env e (profile_aad env (cp_organization_id p) (cp_id p) (cp_kind p))
         (ce_keys env) = Inr s)"

definition keys_ok :: "credential_db \<Rightarrow> bool" where
  "keys_ok db \<longleftrightarrow> distinct (map cp_id (cd_profiles db))
     \<and> distinct (map cc_profile_id (cd_ciphertexts db))"

definition healthy :: "credential_env \<Rightarrow> credential_db \<Rightarrow> bool" where
  "healthy env db \<longleftrightarrow> keys_ok db
     \<and> (\<forall>p \<in> set (cd_profiles db). \<exists>c s. ciphertext_of db (cp_id p) = Some c \<and> opens env p c s)"

definition env_ok :: "credential_env \<Rightarrow> bool" where
  "env_ok env \<longleftrightarrow> vault_laws env \<and> ring_ok (ce_keys env)"

lemma profile_of_Some:
  "profile_of db org i = Some p \<Longrightarrow> p \<in> set (cd_profiles db) \<and> cp_id p = i \<and> cp_organization_id p = org"
  by (auto simp: profile_of_def dest: find_Some_set)

lemma profile_of_self:
  assumes "keys_ok db" and "p \<in> set (cd_profiles db)"
  shows "profile_of db (cp_organization_id p) (cp_id p) = Some p"
proof (cases "profile_of db (cp_organization_id p) (cp_id p)")
  case None
  with assms(2) show ?thesis by (auto simp: profile_of_def find_None_set)
next
  case (Some q)
  then have "q \<in> set (cd_profiles db)" "cp_id q = cp_id p" using profile_of_Some by blast+
  with Some assms show ?thesis by (metis distinct_key_unique keys_ok_def)
qed

lemma resolve_ok_iff:
  "cred_resolve_secret env db org i = Inr s \<longleftrightarrow>
     (\<exists>p c. profile_of db org i = Some p \<and> ciphertext_of db i = Some c \<and> cp_active p
        \<and> opens env p c s)"
proof -
  have "profile_of db org i = Some p \<Longrightarrow> cp_id p = i \<and> cp_organization_id p = org" for p
    using profile_of_Some by blast
  then show ?thesis
    by (auto simp: cred_resolve_secret_def joined_def opens_def result_simps Let_def
        split: option.splits if_splits)
qed

text \<open>Encrypting for a profile and writing the row makes the profile open with the new secret.\<close>

lemma encrypted_row_opens:
  assumes "env_ok env" and "random_ok r" and "ring_current (ce_keys env) = Inr key"
    and "vault_encrypt env r s (profile_aad env (cp_organization_id p) (cp_id p) (cp_kind p)) key = Inr e"
    and "ciphertext_to_row i e = Inr row"
  shows "opens env p row s"
proof -
  have "ring_get (ce_keys env) (mk_version key) = Inr key"
    using assms(1,3) ring_current_ok unfolding env_ok_def by blast
  then show ?thesis
    using assms row_roundtrip(1) [OF _ assms(2,4,5)] decrypt_encrypted [OF _ assms(4)]
    by (auto simp: opens_def env_ok_def)
qed

section \<open>The operations keep the store healthy\<close>

lemma healthyD:
  "healthy env db \<Longrightarrow> p \<in> set (cd_profiles db)
   \<Longrightarrow> \<exists>c s. ciphertext_of db (cp_id p) = Some c \<and> opens env p c s"
  by (simp add: healthy_def)

lemma opens_active: "opens env (p\<lparr>cp_active := b\<rparr>) c s = opens env p c s"
  by (simp add: opens_def)

lemma create_healthy:
  assumes env: "env_ok env" "random_ok r" and kind: "trim (np_kind input) = np_kind input"
    and create: "cred_create env r i now input db = Inr (db', s)" and h: "healthy env db"
  shows "healthy env db'"
proof -
  obtain key e row p where c: "ring_current (ce_keys env) = Inr key"
    "vault_encrypt env r (np_secret input)
       (profile_aad env (np_organization_id input) i (np_kind input)) key = Inr e"
    "ciphertext_to_row i e = Inr row" "cp_id p = i" "cp_organization_id p = np_organization_id input"
    "cp_kind p = trim (np_kind input)" "\<forall>q \<in> set (cd_profiles db). cp_id q \<noteq> i"
    "\<forall>c \<in> set (cd_ciphertexts db). cc_profile_id c \<noteq> i"
    "cd_profiles db' = cd_profiles db @ [p]" "cd_ciphertexts db' = cd_ciphertexts db @ [row]"
    using create_effect [OF create] by metis
  have row: "cc_profile_id row = i"
    using env c(2,3) row_roundtrip(2) unfolding env_ok_def by blast
  have "opens env p row (np_secret input)"
    by (rule encrypted_row_opens [OF env c(1) _ c(3)]) (use c(2,4,5,6) kind in simp)
  moreover have "ciphertext_of db' i = Some row"
    by (simp add: ciphertext_of_def c(10) find_append_new [OF c(8)] row)
  moreover have "ciphertext_of db' j = ciphertext_of db j" if "j \<noteq> i" for j
    using that by (simp add: ciphertext_of_def c(10) find_append_other row)
  moreover have "keys_ok db'"
    using h c(4,7,8) row by (auto simp: healthy_def keys_ok_def c(9,10))
  ultimately show ?thesis
    using h c(4,7) unfolding healthy_def c(9) by auto
qed

lemma update_healthy:
  assumes upd: "update_ciphertext i e db = Inr db'" and h: "healthy env db"
    and p: "p \<in> set (cd_profiles db)" "cp_id p = i"
    and opens: "\<And>row. ciphertext_to_row i e = Inr row \<Longrightarrow> opens env p row s"
  shows "healthy env db'" and "ciphertext_of db' j = ciphertext_of db j \<or> j = i"
    and "cred_resolve_secret env db' (cp_organization_id p) i = (if cp_active p then Inr s else Inl Inactive)"
proof -
  obtain row where row: "ciphertext_to_row i e = Inr row"
    and look: "\<And>j. ciphertext_of db' j = (if j = i then Some row else ciphertext_of db j)"
    and same: "cd_profiles db' = cd_profiles db"
      "map cc_profile_id (cd_ciphertexts db') = map cc_profile_id (cd_ciphertexts db)"
    using update_ciphertext_lookup [OF upd] by metis
  have keys: "keys_ok db'" using h by (simp add: healthy_def keys_ok_def same)
  have "\<exists>c s. ciphertext_of db' (cp_id q) = Some c \<and> opens env q c s"
    if "q \<in> set (cd_profiles db)" for q
  proof (cases "cp_id q = i")
    case True
    with that p h have "q = p" using distinct_key_unique unfolding healthy_def keys_ok_def by metis
    then show ?thesis using look opens [OF row] p(2) by auto
  next
    case False
    then show ?thesis using healthyD [OF h that] look by simp
  qed
  with keys show "healthy env db'" by (simp add: healthy_def same)
  show "ciphertext_of db' j = ciphertext_of db j \<or> j = i" by (simp add: look)
  have prof: "profile_of db' (cp_organization_id p) i = Some p"
    using profile_of_self [OF keys, of p] p by (simp add: same)
  show "cred_resolve_secret env db' (cp_organization_id p) i
      = (if cp_active p then Inr s else Inl Inactive)"
  proof (cases "cp_active p")
    case True
    then show ?thesis using prof look opens [OF row] by (simp add: resolve_ok_iff)
  qed (simp add: cred_resolve_secret_def joined_def prof look)
qed

lemma replace_effect:
  assumes env: "env_ok env" "random_ok r" and h: "healthy env db"
    and rep: "cred_replace_secret env r org i new_secret db = Inr db'"
  shows "healthy env db' \<and> cred_resolve_secret env db' org i = Inr new_secret
    \<and> (\<forall>j. j \<noteq> i \<longrightarrow> ciphertext_of db' j = ciphertext_of db j)"
proof -
  obtain p key e where "List.find (\<lambda>p. cp_id p = i \<and> cp_organization_id p = org \<and> cp_active p)
      (cd_profiles db) = Some p"
    and key: "ring_current (ce_keys env) = Inr key"
    and enc: "vault_encrypt env r new_secret (profile_aad env org i (cp_kind p)) key = Inr e"
    and upd: "update_ciphertext i e db = Inr db'"
    using rep by (auto simp: cred_replace_secret_def Let_def result_simps split: if_splits)
  then have p: "p \<in> set (cd_profiles db)" "cp_id p = i" "cp_organization_id p = org" "cp_active p"
    using find_Some_set by fastforce+
  have "opens env p row new_secret" if "ciphertext_to_row i e = Inr row" for row
    by (rule encrypted_row_opens [OF env key _ that]) (use enc p in simp)
  from update_healthy [OF upd h p(1,2) this] p show ?thesis by auto
qed

lemma rotate_effect:
  assumes env: "env_ok env" "random_ok r" and h: "healthy env db"
    and rot: "cred_rotate_profile_key env r org i db = Inr (db', changed)"
  shows "healthy env db' \<and> cred_resolve_secret env db' org i = cred_resolve_secret env db org i
    \<and> (\<forall>j. j \<noteq> i \<longrightarrow> ciphertext_of db' j = ciphertext_of db j)
    \<and> cd_profiles db' = cd_profiles db
    \<and> (\<exists>c key. ciphertext_of db' i = Some c \<and> ring_current (ce_keys env) = Inr key
         \<and> cc_key_version c = uint (mk_version key))"
proof -
  obtain key p c where key: "ring_current (ce_keys env) = Inr key"
    and prof: "profile_of db org i = Some p" and c: "ciphertext_of db i = Some c"
    and i32: "i32_try_from (uint (mk_version key)) = Some (uint (mk_version key))"
    and rest: "if cc_key_version c = uint (mk_version key) then db' = db \<and> \<not> changed
      else changed \<and> (\<exists>e e'. row_to_ciphertext c = Inr e
        \<and> vault_rotate env r e (profile_aad env org i (cp_kind p)) (ce_keys env) = Inr e'
        \<and> update_ciphertext i e' db = Inr db')"
    using rot
    by (auto simp: cred_rotate_profile_key_def joined_def Let_def result_simps i32_try_from_def
        split: option.splits if_splits)
  show ?thesis
  proof (cases "cc_key_version c = uint (mk_version key)")
    case True
    with rest have "db' = db" by simp
    with h c key True show ?thesis by auto
  next
    case False
    with rest obtain e e' where e: "row_to_ciphertext c = Inr e"
      and rot': "vault_rotate env r e (profile_aad env org i (cp_kind p)) (ce_keys env) = Inr e'"
      and upd: "update_ciphertext i e' db = Inr db'" by auto
    have p: "p \<in> set (cd_profiles db)" "cp_id p = i" "cp_organization_id p = org"
      using profile_of_Some [OF prof] by auto
    obtain s where s: "opens env p c s" using healthyD [OF h p(1)] c p(2) by auto
    then have "vault_decrypt env e (profile_aad env org i (cp_kind p)) (ce_keys env) = Inr s"
      using e p by (simp add: opens_def)
    with rot' key have enc: "vault_encrypt env r s (profile_aad env org i (cp_kind p)) key = Inr e'"
      by (simp add: vault_rotate_def)
    have opens': "opens env p row s" if "ciphertext_to_row i e' = Inr row" for row
      by (rule encrypted_row_opens [OF env key _ that]) (use enc p in simp)
    have "cred_resolve_secret env db org i = (if cp_active p then Inr s else Inl Inactive)"
    proof (cases "cp_active p")
      case True
      then show ?thesis using prof c s by (simp add: resolve_ok_iff)
    qed (simp add: cred_resolve_secret_def joined_def prof c)
    moreover obtain row where "ciphertext_to_row i e' = Inr row" "ciphertext_of db' i = Some row"
      "cd_profiles db' = cd_profiles db"
      using update_ciphertext_lookup [OF upd] by metis
    ultimately show ?thesis
      using update_healthy [OF upd h p(1,2) opens'] p key
        row_roundtrip(3) [OF _ env(2) enc] env(1)
      unfolding env_ok_def by auto
  qed
qed

lemma deactivate_effect:
  assumes h: "healthy env db" and deact: "cred_deactivate org i db = (db', hit)"
  shows "healthy env db' \<and> (hit \<longrightarrow> cred_resolve_secret env db' org i = Inl Inactive)
    \<and> cd_ciphertexts db' = cd_ciphertexts db"
proof -
  let ?hit = "\<lambda>p. cp_id p = i \<and> cp_organization_id p = org \<and> cp_active p"
  have db': "db' = db\<lparr>cd_profiles := upd_where ?hit (cp_active_update (\<lambda>_. False)) (cd_profiles db)\<rparr>"
    and hit: "hit \<longleftrightarrow> rows_affected ?hit (cd_profiles db) = 1"
    using deact by (auto simp: cred_deactivate_def Let_def)
  have look: "ciphertext_of db' j = ciphertext_of db j" for j
    by (simp add: ciphertext_of_def db')
  have keys: "keys_ok db'"
    using h by (simp add: healthy_def keys_ok_def db' map_upd_where)
  have h': "healthy env db'"
    unfolding healthy_def
  proof (intro conjI keys ballI)
    fix q assume "q \<in> set (cd_profiles db')"
    then obtain p where "p \<in> set (cd_profiles db)" "q = p \<or> q = p\<lparr>cp_active := False\<rparr>"
      by (auto simp: db' set_upd_where)
    then show "\<exists>c s. ciphertext_of db' (cp_id q) = Some c \<and> opens env q c s"
      using healthyD [OF h] look opens_active by auto
  qed
  moreover have "cred_resolve_secret env db' org i = Inl Inactive" if hit
  proof -
    have "rows_affected ?hit (cd_profiles db) = 1" using \<open>hit\<close> hit by simp
    then obtain p where p: "p \<in> set (cd_profiles db)" "?hit p"
      using rows_affected_1D by blast
    then have q: "p\<lparr>cp_active := False\<rparr> \<in> set (cd_profiles db')"
      by (auto simp: db' set_upd_where image_iff intro!: bexI [of _ p])
    have "profile_of db' org i = Some (p\<lparr>cp_active := False\<rparr>)"
      using profile_of_self [OF keys q] p(2) by simp
    moreover obtain c where "ciphertext_of db' i = Some c"
      using healthyD [OF h p(1)] look p(2) by auto
    ultimately show ?thesis by (simp add: cred_resolve_secret_def joined_def)
  qed
  ultimately show ?thesis by (simp add: db')
qed

section \<open>The store as a machine\<close>

text \<open>The operations that write, in any order; profiles are created with a trimmed kind.\<close>

inductive cred_step :: "credential_env \<Rightarrow> credential_db \<Rightarrow> credential_db \<Rightarrow> bool" for env where
  step_create: "random_ok r \<Longrightarrow> trim (np_kind input) = np_kind input
     \<Longrightarrow> cred_create env r i now input db = Inr (db', s) \<Longrightarrow> cred_step env db db'"
| step_replace: "random_ok r \<Longrightarrow> cred_replace_secret env r org i new_secret db = Inr db'
     \<Longrightarrow> cred_step env db db'"
| step_rotate: "random_ok r \<Longrightarrow> cred_rotate_profile_key env r org i db = Inr (db', changed)
     \<Longrightarrow> cred_step env db db'"
| step_deactivate: "cred_deactivate org i db = (db', hit) \<Longrightarrow> cred_step env db db'"

lemma cred_step_healthy:
  assumes "env_ok env" and "cred_step env db db'" and "healthy env db"
  shows "healthy env db'"
  using assms(2)
proof cases
  case step_create
  then show ?thesis using create_healthy assms by blast
next
  case step_replace
  then show ?thesis using replace_effect assms by blast
next
  case step_rotate
  then show ?thesis using rotate_effect assms by blast
next
  case step_deactivate
  then show ?thesis using deactivate_effect assms by blast
qed

interpretation cred_machine: invariant_machine
  "\<lambda>db db'. env_ok env \<and> cred_step env db db'" "healthy env" for env
  by unfold_locales (blast intro: cred_step_healthy)

definition empty_cred_db :: "uuid set \<Rightarrow> credential_db" where
  "empty_cred_db orgs = \<lparr>cd_organizations = orgs, cd_profiles = [], cd_ciphertexts = []\<rparr>"

lemma empty_healthy: "healthy env (empty_cred_db orgs)"
  by (simp add: healthy_def keys_ok_def empty_cred_db_def)

lemma cred_reach_healthy:
  assumes "env_ok env" and "(cred_step env)\<^sup>*\<^sup>* (empty_cred_db orgs) db"
  shows "healthy env db"
proof -
  have "(\<lambda>db db'. env_ok env \<and> cred_step env db db')\<^sup>*\<^sup>* (empty_cred_db orgs) db"
    using assms(2) by (rule rtranclp_mono [THEN predicate2D, rotated]) (use assms(1) in auto)
  then show ?thesis using cred_machine.reach_inv empty_healthy by blast
qed

section \<open>Properties\<close>


definition demo_env :: credential_env where
  "demo_env = \<lparr>aead_key = aead_key demo_vault_ops, aead_encrypt = aead_encrypt demo_vault_ops,
     aead_decrypt = aead_decrypt demo_vault_ops, vault_sha256 = vault_sha256 demo_vault_ops,
     ce_uuid_str = (\<lambda>u. if u = 1 then ''1'' else ''2''), ce_keys = demo_ring\<rparr>"

definition demo_profile :: "string \<Rightarrow> new_credential_profile" where
  "demo_profile kind = \<lparr>np_organization_id = 1, np_name = ''core'', np_kind = kind,
     np_username = None, np_metadata = JNull, np_secret = ''hunter2''\<rparr>"

lemma demo_env_ok: "env_ok demo_env"
  using demo_vault_laws demo_ring_keys(3) by (simp add: env_ok_def demo_env_def vault_laws_def)

lemma demo_random_ok: "random_ok demo_vault_random"
  by (simp add: random_ok_def demo_vault_random_def)

lemma demo_create:
  assumes "trim kind \<noteq> []" and "length kind \<le> 100"
  shows "\<exists>db' s. cred_create demo_env demo_vault_random 7 100 (demo_profile kind)
    (empty_cred_db {1}) = Inr (db', s) \<and> sm_id s = 7 \<and> (\<exists>p \<in> set (cd_profiles db').
      cp_id p = 7 \<and> cp_organization_id p = 1 \<and> cp_active p)"
proof -
  have "vault_encrypt demo_env r m aad key = vault_encrypt demo_vault_ops r m aad key" for r m aad key
    by (simp add: vault_encrypt_def key_cipher_def demo_env_def)
  then obtain e where e: "vault_encrypt demo_env demo_vault_random ''hunter2''
      (profile_aad demo_env 1 7 kind) (demo_key 2) = Inr e"
    using demo_encrypt_total by metis
  then have v: "es_key_version e = 2" by (auto simp: encrypt_ok_iff demo_key_def)
  have "trim ''core'' = ''core''" by code_simp
  moreover have "ce_keys demo_env = demo_ring" by (simp add: demo_env_def)
  ultimately show ?thesis
    using assms e v demo_ring_keys(2)
    by (simp add: cred_create_def validate_profile_input_def demo_profile_def insert_profile_def
        insert_ciphertext_def ciphertext_to_row_def i32_try_from_def empty_cred_db_def not_less)
qed


text \<open>Creating a profile whose kind carries no white space around it makes its secret resolvable in
  its organization. With white space around the kind the ciphertext is bound to the kind as
  given and the row stores the trimmed one: the profile is created, reported as active, and its
  secret can never be resolved (unless SHA-256 collides).\<close>

theorem create_then_resolve:
  assumes "env_ok env" and "random_ok r" and "keys_ok db"
    and "cred_create env r i now input db = Inr (db', s)"
  shows "(trim (np_kind input) = np_kind input \<longrightarrow>
      cred_resolve_secret env db' (np_organization_id input) i = Inr (np_secret input))
    \<and> (vault_sha256 env (profile_aad env (np_organization_id input) i (np_kind input))
        \<noteq> vault_sha256 env (profile_aad env (np_organization_id input) i (trim (np_kind input)))
       \<longrightarrow> cred_resolve_secret env db' (np_organization_id input) i
             = Inl (VaultErr AssociatedDataMismatch))
    \<and> cred_get_summary db' (np_organization_id input) i = Some s \<and> sm_active s"
proof -
  obtain key e row p where c: "ring_current (ce_keys env) = Inr key"
    "vault_encrypt env r (np_secret input)
       (profile_aad env (np_organization_id input) i (np_kind input)) key = Inr e"
    "ciphertext_to_row i e = Inr row" "cp_id p = i" "cp_organization_id p = np_organization_id input"
    "cp_kind p = trim (np_kind input)" "cp_active p" "\<forall>q \<in> set (cd_profiles db). cp_id q \<noteq> i"
    "\<forall>c \<in> set (cd_ciphertexts db). cc_profile_id c \<noteq> i"
    "cd_profiles db' = cd_profiles db @ [p]" "cd_ciphertexts db' = cd_ciphertexts db @ [row]"
    "s = row_to_summary db' p"
    using create_effect [OF assms(4)] by metis
  have row: "row_to_ciphertext row = Inr e" "cc_profile_id row = i"
    using assms(1,2) c(2,3) row_roundtrip(1,2) unfolding env_ok_def by blast+
  have prof: "profile_of db' (np_organization_id input) i = Some p"
    using c(8) by (simp add: profile_of_def c(10) find_append_new c(4,5))
  have ct: "ciphertext_of db' i = Some row"
    by (simp add: ciphertext_of_def c(11) find_append_new [OF c(9)] row(2))
  have "opens env p row (np_secret input)" if "trim (np_kind input) = np_kind input"
    by (rule encrypted_row_opens [OF assms(1,2) c(1) _ c(3)]) (use that c in simp)
  moreover have "cred_resolve_secret env db' (np_organization_id input) i
      = Inl (VaultErr AssociatedDataMismatch)"
    if "vault_sha256 env (profile_aad env (np_organization_id input) i (np_kind input))
        \<noteq> vault_sha256 env (profile_aad env (np_organization_id input) i (trim (np_kind input)))"
    using decrypt_other_aad [OF c(2) that [symmetric]]
    by (simp add: cred_resolve_secret_def joined_def prof ct c(6,7) row(1))
  ultimately show ?thesis
    using prof ct c(4,7,12)
    by (auto simp: resolve_ok_iff cred_get_summary_def row_to_summary_def)
qed

theorem create_then_resolve_witness:
  "\<exists>db s. cred_create demo_env demo_vault_random 7 100 (demo_profile ''snmp_v3 '')
      (empty_cred_db {1}) = Inr (db, s)
    \<and> sm_active s
    \<and> cred_resolve_secret demo_env db 1 7 = Inl (VaultErr AssociatedDataMismatch)"
proof -
  have trim: "trim ''snmp_v3 '' = ''snmp_v3''" by code_simp
  then obtain db s where c: "cred_create demo_env demo_vault_random 7 100 (demo_profile ''snmp_v3 '')
      (empty_cred_db {1}) = Inr (db, s)"
    using demo_create [of "''snmp_v3 ''"] by auto
  have keys: "keys_ok (empty_cred_db {1})" by (simp add: keys_ok_def empty_cred_db_def)
  have "np_organization_id (demo_profile ''snmp_v3 '') = 1" "np_kind (demo_profile ''snmp_v3 '') = ''snmp_v3 ''"
    by (simp_all add: demo_profile_def)
  moreover have "vault_sha256 demo_env (profile_aad demo_env 1 7 ''snmp_v3 '')
      \<noteq> vault_sha256 demo_env (profile_aad demo_env 1 7 ''snmp_v3'')"
    by (simp add: demo_env_def demo_vault_ops_def profile_aad_def)
  ultimately show ?thesis
    using create_then_resolve [OF demo_env_ok demo_random_ok keys c] c trim by auto
qed

text \<open>Replacing a secret makes the profile resolve to the new one; rotating its key changes nothing a
  caller can resolve and leaves the row under the current master key; both touch no other
  profile's ciphertext; deactivating makes the secret unreachable and keeps the ciphertext.\<close>

theorem credential_updates_spec:
  assumes "env_ok env" and "random_ok r" and "healthy env db"
  shows "(cred_replace_secret env r org i new_secret db = Inr db' \<longrightarrow>
      cred_resolve_secret env db' org i = Inr new_secret
      \<and> (\<forall>j. j \<noteq> i \<longrightarrow> ciphertext_of db' j = ciphertext_of db j))
    \<and> (cred_rotate_profile_key env r org i db = Inr (db', changed) \<longrightarrow>
      cred_resolve_secret env db' org i = cred_resolve_secret env db org i
      \<and> (\<exists>c key. ciphertext_of db' i = Some c \<and> ring_current (ce_keys env) = Inr key
           \<and> cc_key_version c = uint (mk_version key))
      \<and> (\<forall>j. j \<noteq> i \<longrightarrow> ciphertext_of db' j = ciphertext_of db j))
    \<and> (cred_deactivate org i db = (db', True) \<longrightarrow>
      cred_resolve_secret env db' org i = Inl Inactive \<and> cd_ciphertexts db' = cd_ciphertexts db)"
  using replace_effect [OF assms, of org i new_secret db']
    rotate_effect [OF assms, of org i db' changed] deactivate_effect [OF assms(3), of org i db' True]
  by (intro conjI impI) simp_all

theorem credential_updates_spec_witness:
  "\<exists>db db'. cred_deactivate 1 7 db = (db', True)
     \<and> cred_resolve_secret demo_env db' 1 7 = Inl Inactive"
proof -
  have trim: "trim ''snmp_v3'' = ''snmp_v3''" by code_simp
  then obtain db s p where c: "cred_create demo_env demo_vault_random 7 100 (demo_profile ''snmp_v3'')
      (empty_cred_db {1}) = Inr (db, s)"
    and p: "p \<in> set (cd_profiles db)" "cp_id p = 7" "cp_organization_id p = 1" "cp_active p"
    using demo_create [of "''snmp_v3''"] by auto
  have h: "healthy demo_env db"
    by (rule create_healthy [OF demo_env_ok demo_random_ok _ c empty_healthy])
      (simp add: demo_profile_def trim)
  have "distinct (map cp_id (cd_profiles db))" using h by (simp add: healthy_def keys_ok_def)
  then have "rows_affected (\<lambda>p. cp_id p = 7 \<and> cp_organization_id p = 1 \<and> cp_active p)
      (cd_profiles db) = 1"
    using p by (subst rows_affected_key) auto
  then have d: "cred_deactivate 1 7 db = (fst (cred_deactivate 1 7 db), True)"
    by (simp add: cred_deactivate_def Let_def)
  with credential_updates_spec [OF demo_env_ok demo_random_ok h] show ?thesis by blast
qed

end
