(* ===== verification/Audit_Chain.thy ===== *)
theory Audit_Chain
  imports Redaction Ip_Addr
begin

text \<open>
  The audit trail: sealing and verification of events (\<open>crates/security/src/audit.rs\<close>) and the
  store that appends them to a hash chain per organization (\<open>crates/audit-store/src/lib.rs\<close>).

  SHA-256 and the JSON (de)serialization of a draft are parameters (\<open>audit_ops\<close>). The JSON law is
  restricted to drafts whose JSON numbers are integers, because \<open>serde_json\<close> promises exact
  reparsing of fractions only with a feature the build does not enable; and \<open>Some(Null)\<close> comes
  back as \<open>None\<close>, as \<open>Option\<close> fields do. The table is the list of its rows; appends in one
  organization are serialized by the advisory lock the code takes, so a sequence of them is a
  sequence of applications of \<open>audit_append\<close>.
\<close>

section \<open>Events\<close>

datatype actor_type = UserActor | ServiceAccountActor | SystemActor

fun actor_type_as_str :: "actor_type \<Rightarrow> string" where
  "actor_type_as_str UserActor = ''user''"
| "actor_type_as_str ServiceAccountActor = ''service_account''"
| "actor_type_as_str SystemActor = ''system''"

datatype audit_status =
  AuditSucceeded | AuditFailed | AuditDenied | AuditPartial | AuditUnknown | AuditCancelled

fun audit_status_str :: "audit_status \<Rightarrow> string" where
  "audit_status_str AuditSucceeded = ''succeeded''"
| "audit_status_str AuditFailed = ''failed''"
| "audit_status_str AuditDenied = ''denied''"
| "audit_status_str AuditPartial = ''partial''"
| "audit_status_str AuditUnknown = ''unknown''"
| "audit_status_str AuditCancelled = ''cancelled''"

record audit_draft =
  ad_organization_id :: uuid
  ad_site_id :: "uuid option"
  ad_actor_type :: actor_type
  ad_actor_id :: "uuid option"
  ad_session_id :: "uuid option"
  ad_source_ip :: "string option"
  ad_request_id :: string
  ad_correlation_id :: uuid
  ad_action :: string
  ad_resource_type :: string
  ad_resource_id :: "string option"
  ad_provider :: "string option"
  ad_occurred_at_unix_ms :: i64
  ad_duration_ms :: "64 word option"
  ad_status :: audit_status
  ad_reason_code :: "string option"
  ad_before :: "json option"
  ad_after :: "json option"
  ad_result :: "json option"

record audit_ops =
  audit_sha256 :: "bytes \<Rightarrow> bytes"
  draft_to_vec :: "audit_draft \<Rightarrow> bytes option"
  draft_from_slice :: "bytes \<Rightarrow> audit_draft option"

datatype audit_error = SerializationFailed

record sealed_audit_event =
  sl_event :: audit_draft
  sl_previous_hash :: "bytes option"
  sl_event_hash :: bytes

definition sanitize :: "audit_draft \<Rightarrow> audit_draft" where
  "sanitize d = d\<lparr>ad_before := map_option sanitize_json (ad_before d),
     ad_after := map_option sanitize_json (ad_after d),
     ad_result := map_option sanitize_json (ad_result d)\<rparr>"

text \<open>The bytes fed to the hasher: the domain tag, the previous hash if there is one, the payload.\<close>

definition hash_input :: "bytes option \<Rightarrow> bytes \<Rightarrow> bytes" where
  "hash_input previous payload = ''snm:audit:v1'' @ [CHR 0x00]
     @ (case previous of None \<Rightarrow> [] | Some p \<Rightarrow> p) @ payload"

definition seal :: "audit_ops \<Rightarrow> bytes option \<Rightarrow> audit_draft \<Rightarrow> audit_error + sealed_audit_event" where
  "seal ops previous_hash d =
     (let sanitized = sanitize d in
      bindR (ok_or SerializationFailed (draft_to_vec ops sanitized)) (\<lambda>payload.
      let event_hash = audit_sha256 ops (hash_input previous_hash payload) in
      Inr \<lparr>sl_event = sanitized, sl_previous_hash = previous_hash, sl_event_hash = event_hash\<rparr>))"

definition sealed_verify :: "audit_ops \<Rightarrow> sealed_audit_event \<Rightarrow> audit_error + bool" where
  "sealed_verify ops s =
     bindR (seal ops (sl_previous_hash s) (sl_event s)) (\<lambda>recomputed.
     Inr (sl_event_hash recomputed = sl_event_hash s))"

section \<open>The store\<close>

record audit_row =
  ae_id :: uuid
  ae_organization_id :: uuid
  ae_site_id :: "uuid option"
  ae_actor_type :: string
  ae_actor_id :: "uuid option"
  ae_session_id :: "uuid option"
  ae_source_ip :: "string option"
  ae_request_id :: "string option"
  ae_action :: string
  ae_resource_type :: string
  ae_resource_id :: "string option"
  ae_correlation_id :: uuid
  ae_provider :: "string option"
  ae_status :: string
  ae_duration_ms :: "i64 option"
  ae_reason_code :: "string option"
  ae_before_state :: "json option"
  ae_after_state :: "json option"
  ae_result :: json
  ae_occurred_at_unix_ms :: "i64 option"
  ae_chain_sequence :: "i64 option"
  ae_canonical_payload :: "bytes option"
  ae_previous_hash :: "bytes option"
  ae_event_hash :: "bytes option"

record audit_db =
  au_organizations :: "uuid set"
  au_sites :: "uuid set"
  au_sessions :: "uuid set"
  au_events :: "audit_row list"

datatype audit_store_error =
  InvalidDraft | InvalidStoredChain | AuditErr audit_error | JsonErr | AuditDatabaseErr

datatype audit_verification = Valid nat | Broken nat uuid string

definition validate_draft :: "audit_draft \<Rightarrow> audit_store_error + unit" where
  "validate_draft d =
     (if trim (ad_request_id d) = [] \<or> length (ad_request_id d) > 200
         \<or> trim (ad_action d) = [] \<or> length (ad_action d) > 200
         \<or> trim (ad_resource_type d) = [] \<or> length (ad_resource_type d) > 120
         \<or> ad_occurred_at_unix_ms d < 0
      then Inl InvalidDraft
      else if (case ad_source_ip d of None \<Rightarrow> False | Some value \<Rightarrow> parse_ip value = None)
      then Inl InvalidDraft
      else Inr ())"

definition hash_event :: "audit_ops \<Rightarrow> bytes \<Rightarrow> bytes option \<Rightarrow> bytes" where
  "hash_event ops canonical_payload previous_hash =
     audit_sha256 ops (hash_input previous_hash canonical_payload)"

definition fixed32 :: "bytes \<Rightarrow> audit_store_error + bytes" where
  "fixed32 value = (if length value = 32 then Inr value else Inl InvalidStoredChain)"

definition optional_fixed32 :: "bytes option \<Rightarrow> audit_store_error + bytes option" where
  "optional_fixed32 value = (case value of None \<Rightarrow> Inr None
     | Some v \<Rightarrow> bindR (fixed32 v) (\<lambda>v. Inr (Some v)))"

text \<open>The sealed rows of an organization in the order of the chain.\<close>

definition seq_of :: "audit_row \<Rightarrow> i64" where
  "seq_of r = (case ae_chain_sequence r of None \<Rightarrow> 0 | Some s \<Rightarrow> s)"

definition sealed_rows :: "audit_db \<Rightarrow> uuid \<Rightarrow> audit_row list" where
  "sealed_rows db org = sort_key seq_of
     (filter (\<lambda>r. ae_organization_id r = org \<and> ae_chain_sequence r \<noteq> None) (au_events db))"

definition next_chain_position ::
  "audit_db \<Rightarrow> uuid \<Rightarrow> audit_store_error + (i64 \<times> bytes option)" where
  "next_chain_position db org =
     (case rev (sealed_rows db org) of
        [] \<Rightarrow> Inr (1, None)
      | row # _ \<Rightarrow>
          bindR (ok_or AuditDatabaseErr (ae_event_hash row)) (\<lambda>stored.
          bindR (fixed32 stored) (\<lambda>hash.
          if seq_of row = i64_max then Inl InvalidStoredChain
          else Inr (seq_of row + 1, Some hash))))"

definition row_of ::
  "uuid \<Rightarrow> i64 \<Rightarrow> bytes \<Rightarrow> sealed_audit_event \<Rightarrow> audit_row" where
  "row_of new_id chain_sequence canonical_payload s = (let e = sl_event s in
     \<lparr>ae_id = new_id, ae_organization_id = ad_organization_id e, ae_site_id = ad_site_id e,
      ae_actor_type = actor_type_as_str (ad_actor_type e), ae_actor_id = ad_actor_id e,
      ae_session_id = ad_session_id e, ae_source_ip = ad_source_ip e,
      ae_request_id = Some (ad_request_id e), ae_action = ad_action e,
      ae_resource_type = ad_resource_type e, ae_resource_id = ad_resource_id e,
      ae_correlation_id = ad_correlation_id e, ae_provider = ad_provider e,
      ae_status = audit_status_str (ad_status e),
      ae_duration_ms = map_option (\<lambda>v. min i64_max (uint v)) (ad_duration_ms e),
      ae_reason_code = ad_reason_code e, ae_before_state = ad_before e,
      ae_after_state = ad_after e,
      ae_result = (case ad_result e of None \<Rightarrow> JNull | Some r \<Rightarrow> r),
      ae_occurred_at_unix_ms = Some (ad_occurred_at_unix_ms e),
      ae_chain_sequence = Some chain_sequence, ae_canonical_payload = Some canonical_payload,
      ae_previous_hash = sl_previous_hash s, ae_event_hash = Some (sl_event_hash s)\<rparr>)"

text \<open>The constraints of the table: references, primary key, unique sequence and unique hash.\<close>

definition insert_event :: "audit_row \<Rightarrow> audit_db \<Rightarrow> audit_store_error + audit_db" where
  "insert_event r db =
     (if ae_organization_id r \<notin> au_organizations db
         \<or> (case ae_site_id r of None \<Rightarrow> False | Some s \<Rightarrow> s \<notin> au_sites db)
         \<or> (case ae_session_id r of None \<Rightarrow> False | Some s \<Rightarrow> s \<notin> au_sessions db)
         \<or> list_ex (\<lambda>q. ae_id q = ae_id r
             \<or> (ae_organization_id q = ae_organization_id r
                \<and> ae_chain_sequence r \<noteq> None \<and> ae_chain_sequence q = ae_chain_sequence r)
             \<or> (ae_event_hash r \<noteq> None \<and> ae_event_hash q = ae_event_hash r)) (au_events db)
      then Inl AuditDatabaseErr
      else Inr (db\<lparr>au_events := au_events db @ [r]\<rparr>))"

definition audit_append ::
  "audit_ops \<Rightarrow> uuid \<Rightarrow> audit_draft \<Rightarrow> audit_db \<Rightarrow> audit_store_error + (audit_db \<times> uuid)" where
  "audit_append ops new_id draft db =
     bindR (validate_draft draft) (\<lambda>_.
     bindR (next_chain_position db (ad_organization_id draft)) (\<lambda>(chain_sequence, previous_hash).
     bindR (map_err AuditErr (seal ops previous_hash draft)) (\<lambda>sealed.
     bindR (ok_or JsonErr (draft_to_vec ops (sl_event sealed))) (\<lambda>canonical_payload.
     bindR (insert_event (row_of new_id chain_sequence canonical_payload sealed) db) (\<lambda>db.
     Inr (db, new_id))))))"

fun verify_rows ::
  "audit_ops \<Rightarrow> bytes option \<Rightarrow> i64 \<Rightarrow> nat \<Rightarrow> audit_row list
     \<Rightarrow> audit_store_error + audit_verification" where
  "verify_rows ops expected_previous expected_sequence checked [] = Inr (Valid checked)"
| "verify_rows ops expected_previous expected_sequence checked (row # rows) =
     (if seq_of row \<noteq> expected_sequence
      then Inr (Broken checked (ae_id row) ''chain_sequence_gap'')
      else bindR (ok_or AuditDatabaseErr (ae_canonical_payload row)) (\<lambda>canonical_payload.
        bindR (optional_fixed32 (ae_previous_hash row)) (\<lambda>stored_previous.
        bindR (ok_or AuditDatabaseErr (ae_event_hash row)) (\<lambda>stored_hash.
        bindR (fixed32 stored_hash) (\<lambda>event_hash.
        if stored_previous \<noteq> expected_previous
        then Inr (Broken checked (ae_id row) ''previous_hash_mismatch'')
        else if hash_event ops canonical_payload stored_previous \<noteq> event_hash
        then Inr (Broken checked (ae_id row) ''event_hash_mismatch'')
        else bindR (ok_or JsonErr (draft_from_slice ops canonical_payload)) (\<lambda>event.
          bindR (map_err AuditErr (sealed_verify ops \<lparr>sl_event = event,
                   sl_previous_hash = stored_previous, sl_event_hash = event_hash\<rparr>)) (\<lambda>ok.
          if \<not> ok then Inr (Broken checked (ae_id row) ''canonical_payload_invalid'')
          else verify_rows ops (Some event_hash) (expected_sequence + 1) (Suc checked) rows)))))))"

definition verify_organization_chain ::
  "audit_ops \<Rightarrow> audit_db \<Rightarrow> uuid \<Rightarrow> audit_store_error + audit_verification" where
  "verify_organization_chain ops db org = verify_rows ops None 1 0 (sealed_rows db org)"

section \<open>What the code relies on\<close>

fun json_plain :: "json \<Rightarrow> bool" where
  "json_plain (JNumber s) = list_all (\<lambda>c. is_ascii_digit c \<or> c = CHR ''-'') s"
| "json_plain (JArray xs) = list_all json_plain xs"
| "json_plain (JObject kvs) = (distinct (map fst kvs) \<and> list_all (\<lambda>kv. json_plain (snd kv)) kvs)"
| "json_plain _ = True"

definition draft_plain :: "audit_draft \<Rightarrow> bool" where
  "draft_plain d \<longleftrightarrow> in_i64 (ad_occurred_at_unix_ms d)
     \<and> pred_option json_plain (ad_before d) \<and> pred_option json_plain (ad_after d)
     \<and> pred_option json_plain (ad_result d)"

definition null_none :: "json option \<Rightarrow> json option" where
  "null_none x = (if x = Some JNull then None else x)"

definition null_to_none :: "audit_draft \<Rightarrow> audit_draft" where
  "null_to_none d = d\<lparr>ad_before := null_none (ad_before d), ad_after := null_none (ad_after d),
     ad_result := null_none (ad_result d)\<rparr>"

definition audit_laws :: "audit_ops \<Rightarrow> bool" where
  "audit_laws ops \<longleftrightarrow> (\<forall>m. length (audit_sha256 ops m) = 32)
     \<and> (\<forall>d b. draft_plain d \<and> draft_to_vec ops d = Some b
          \<longrightarrow> draft_from_slice ops b = Some (null_to_none d))
     \<and> (\<forall>d. draft_to_vec ops (null_to_none d) = draft_to_vec ops d)"

lemma audit_lawsD:
  assumes "audit_laws ops"
  shows "length (audit_sha256 ops m) = 32"
    and "draft_plain d \<Longrightarrow> draft_to_vec ops d = Some b \<Longrightarrow> draft_from_slice ops b = Some (null_to_none d)"
    and "draft_to_vec ops (null_to_none d) = draft_to_vec ops d"
  using assms by (simp_all add: audit_laws_def)

section \<open>Sealing\<close>

lemma sanitize_plain: "json_plain j \<Longrightarrow> json_plain (sanitize_json j)"
proof (induction j)
  case (JArray xs)
  then show ?case by (simp add: list_all_iff)
next
  case (JObject kvs)
  have "map fst (map (\<lambda>kv. (fst kv, if audit_sensitive (fst kv) then JString redacted
      else sanitize_json (snd kv))) kvs) = map fst kvs" by simp
  then have "distinct (map fst (map (\<lambda>kv. (fst kv, if audit_sensitive (fst kv) then JString redacted
      else sanitize_json (snd kv))) kvs))" using JObject.prems by (simp only: json_plain.simps)
  moreover have "json_plain (if audit_sensitive (fst kv) then JString redacted else sanitize_json (snd kv))"
    if "kv \<in> set kvs" for kv
    using JObject that by (cases kv) (auto simp: list_all_iff)
  ultimately show ?case
    unfolding audit_redactor.redact_object json_plain.simps by (auto simp: list_all_iff)
qed simp_all

lemma sanitize_draft_plain: "draft_plain d \<Longrightarrow> draft_plain (sanitize d)"
  by (cases "ad_before d"; cases "ad_after d"; cases "ad_result d")
    (auto simp: draft_plain_def sanitize_def sanitize_plain)

lemma sanitize_idem: "sanitize (sanitize d) = sanitize d"
  by (simp add: sanitize_def option.map_comp comp_def audit_redactor.redact_idem)

lemma null_none_sanitize: "map_option sanitize_json (null_none x) = null_none (map_option sanitize_json x)"
  by (cases x) (simp_all add: null_none_def audit_redactor.redact_null_iff)

lemma sanitize_null_to_none: "sanitize (null_to_none d) = null_to_none (sanitize d)"
  by (simp add: sanitize_def null_to_none_def null_none_sanitize)

text \<open>What the store reads back of a sealed payload verifies.\<close>

lemma resealed:
  assumes "audit_laws ops" and "draft_plain d" and "draft_to_vec ops (sanitize d) = Some payload"
  shows "draft_from_slice ops payload = Some (null_to_none (sanitize d))"
    and "sealed_verify ops \<lparr>sl_event = null_to_none (sanitize d), sl_previous_hash = previous,
           sl_event_hash = hash_event ops payload previous\<rparr> = Inr True"
proof -
  show "draft_from_slice ops payload = Some (null_to_none (sanitize d))"
    using assms sanitize_draft_plain audit_lawsD(2) by blast
  show "sealed_verify ops \<lparr>sl_event = null_to_none (sanitize d), sl_previous_hash = previous,
      sl_event_hash = hash_event ops payload previous\<rparr> = Inr True"
    by (simp add: sealed_verify_def seal_def sanitize_null_to_none sanitize_idem
        audit_lawsD(3) [OF assms(1)] assms(3) hash_event_def)
qed

section \<open>Chains\<close>

fun chain :: "audit_ops \<Rightarrow> bytes option \<Rightarrow> i64 \<Rightarrow> audit_row list \<Rightarrow> bool" where
  "chain ops previous n [] = True"
| "chain ops previous n (r # rs) = (seq_of r = n \<and> ae_previous_hash r = previous
     \<and> (\<exists>p d. ae_canonical_payload r = Some p \<and> ae_event_hash r = Some (hash_event ops p previous)
          \<and> draft_from_slice ops p = Some d
          \<and> sealed_verify ops \<lparr>sl_event = d, sl_previous_hash = previous,
               sl_event_hash = hash_event ops p previous\<rparr> = Inr True
          \<and> chain ops (Some (hash_event ops p previous)) (n + 1) rs))"

definition last_hash :: "bytes option \<Rightarrow> audit_row list \<Rightarrow> bytes option" where
  "last_hash previous rs = (if rs = [] then previous else ae_event_hash (last rs))"

lemma last_hash_Cons: "last_hash previous (r # rs) = last_hash (ae_event_hash r) rs"
  by (simp add: last_hash_def)

lemma chain_append:
  "chain ops previous n (xs @ ys) \<longleftrightarrow>
     chain ops previous n xs \<and> chain ops (last_hash previous xs) (n + int (length xs)) ys"
proof (induction xs arbitrary: previous n)
  case (Cons r xs)
  have "n + 1 + int (length xs) = n + int (length (r # xs))" by simp
  then show ?case by (auto simp: Cons.IH last_hash_Cons add.assoc)
qed (simp add: last_hash_def)

lemma chain_seq: "chain ops previous n rs \<Longrightarrow> r \<in> set rs \<Longrightarrow> n \<le> seq_of r \<and> seq_of r < n + int (length rs)"
  by (induction ops previous n rs rule: chain.induct) fastforce+

lemma chain_last_seq: "chain ops previous n rs \<Longrightarrow> rs \<noteq> [] \<Longrightarrow> seq_of (last rs) = n + int (length rs) - 1"
  by (induction ops previous n rs rule: chain.induct) auto

lemma optional_fixed32_ok: "pred_option (\<lambda>p. length p = 32) x \<Longrightarrow> optional_fixed32 x = Inr x"
  by (cases x) (simp_all add: optional_fixed32_def fixed32_def)

lemma hash_event_length: "audit_laws ops \<Longrightarrow> length (hash_event ops p previous) = 32"
  by (simp add: hash_event_def audit_lawsD(1))

lemma verify_rows_valid_iff:
  assumes "audit_laws ops" and "pred_option (\<lambda>p. length p = 32) previous"
  shows "verify_rows ops previous n k rs = Inr (Valid m) \<longleftrightarrow>
    chain ops previous n rs \<and> m = k + length rs"
  using assms(2)
proof (induction rs arbitrary: previous n k)
  case (Cons r rs)
  have IH: "verify_rows ops (Some (hash_event ops p previous)) (n + 1) (Suc k) rs = Inr (Valid m) \<longleftrightarrow>
      chain ops (Some (hash_event ops p previous)) (n + 1) rs \<and> m = Suc k + length rs" for p
    by (rule Cons.IH) (simp add: hash_event_length [OF assms(1)])
  show ?case (is "?L \<longleftrightarrow> ?R")
  proof
    assume ?L
    then have "seq_of r = n" by (simp split: if_splits)
    with \<open>?L\<close> obtain p h prev d where *: "ae_canonical_payload r = Some p"
      "optional_fixed32 (ae_previous_hash r) = Inr prev" "ae_event_hash r = Some h"
      "prev = previous" "hash_event ops p prev = h" "draft_from_slice ops p = Some d"
      "sealed_verify ops \<lparr>sl_event = d, sl_previous_hash = prev, sl_event_hash = h\<rparr> = Inr True"
      "verify_rows ops (Some h) (n + 1) (Suc k) rs = Inr (Valid m)"
      by (auto simp: result_simps fixed32_def split: if_splits)
    moreover have "ae_previous_hash r = prev"
      using *(2) by (auto simp: optional_fixed32_def fixed32_def result_simps split: option.splits if_splits)
    ultimately show ?R using \<open>seq_of r = n\<close> IH [of p] by auto
  next
    assume ?R
    then show ?L
      using IH Cons.prems hash_event_length [OF assms(1)]
      by (auto simp: optional_fixed32_ok fixed32_def)
  qed
qed auto

lemma verify_chain_iff:
  assumes "audit_laws ops"
  shows "verify_organization_chain ops db org = Inr (Valid m) \<longleftrightarrow>
    chain ops None 1 (sealed_rows db org) \<and> m = length (sealed_rows db org)"
  by (simp add: verify_organization_chain_def verify_rows_valid_iff [OF assms])

section \<open>Appending\<close>

lemma sealed_rows_append:
  assumes "au_events db' = au_events db @ [r]" and "ae_chain_sequence r = Some n"
    and "\<forall>q \<in> set (sealed_rows db (ae_organization_id r)). seq_of q \<le> n"
  shows "sealed_rows db' org = sealed_rows db org @ (if ae_organization_id r = org then [r] else [])"
proof (cases "ae_organization_id r = org")
  case True
  then show ?thesis
    using assms by (auto simp: sealed_rows_def seq_of_def intro!: sort_key_append_last)
qed (use assms in \<open>simp add: sealed_rows_def\<close>)

lemma next_position:
  assumes "audit_laws ops" and "chain ops None 1 (sealed_rows db org)"
    and "next_chain_position db org = Inr (n, previous)"
  shows "n = 1 + int (length (sealed_rows db org)) \<and> previous = last_hash None (sealed_rows db org)"
proof (cases "sealed_rows db org" rule: rev_cases)
  case Nil
  then show ?thesis using assms(3) by (simp add: next_chain_position_def last_hash_def)
next
  case (snoc rs r)
  then have "seq_of r = int (length rs) + 1"
    using chain_last_seq [OF assms(2)] by simp
  then show ?thesis
    using assms(3) snoc
    by (auto simp: next_chain_position_def last_hash_def fixed32_def result_simps split: if_splits)
qed

lemma append_effect:
  assumes "audit_append ops new_id d db = Inr (db', i)"
  obtains n previous payload where
    "validate_draft d = Inr ()" and "next_chain_position db (ad_organization_id d) = Inr (n, previous)"
    and "draft_to_vec ops (sanitize d) = Some payload"
    and "au_events db' = au_events db @ [row_of new_id n payload \<lparr>sl_event = sanitize d,
           sl_previous_hash = previous, sl_event_hash = hash_event ops payload previous\<rparr>]"
    and "i = new_id"
  using assms
  by (auto simp: audit_append_def seal_def hash_event_def insert_event_def Let_def result_simps
      split: if_splits)

lemma append_chain:
  assumes laws: "audit_laws ops" and plain: "draft_plain d"
    and app: "audit_append ops new_id d db = Inr (db', i)"
    and chains: "\<And>org. chain ops None 1 (sealed_rows db org)"
  shows "chain ops None 1 (sealed_rows db' org)"
    and "\<exists>r. au_events db' = au_events db @ [r]
        \<and> sealed_rows db' (ad_organization_id d) = sealed_rows db (ad_organization_id d) @ [r]
        \<and> ae_canonical_payload r = draft_to_vec ops (sanitize d)
        \<and> (org \<noteq> ad_organization_id d \<longrightarrow> sealed_rows db' org = sealed_rows db org)"
proof -
  obtain n previous payload where next_pos: "next_chain_position db (ad_organization_id d) = Inr (n, previous)"
    and payload: "draft_to_vec ops (sanitize d) = Some payload"
    and ev: "au_events db' = au_events db @ [row_of new_id n payload \<lparr>sl_event = sanitize d,
           sl_previous_hash = previous, sl_event_hash = hash_event ops payload previous\<rparr>]"
    using append_effect [OF app] by metis
  define r where "r = row_of new_id n payload \<lparr>sl_event = sanitize d,
      sl_previous_hash = previous, sl_event_hash = hash_event ops payload previous\<rparr>"
  have r: "ae_organization_id r = ad_organization_id d" "ae_chain_sequence r = Some n"
    "ae_canonical_payload r = Some payload" "ae_previous_hash r = previous"
    "ae_event_hash r = Some (hash_event ops payload previous)" "seq_of r = n"
    by (simp_all add: r_def row_of_def sanitize_def seq_of_def Let_def)
  have pos: "n = 1 + int (length (sealed_rows db (ad_organization_id d)))"
    "previous = last_hash None (sealed_rows db (ad_organization_id d))"
    using next_position [OF laws chains next_pos] by auto
  have "\<forall>q \<in> set (sealed_rows db (ae_organization_id r)). seq_of q \<le> n"
    using chain_seq [OF chains] pos(1) r(1) by fastforce
  note rows = sealed_rows_append [OF ev [folded r_def] r(2) this]
  have "chain ops (last_hash None (sealed_rows db (ad_organization_id d)))
      (1 + int (length (sealed_rows db (ad_organization_id d)))) [r]"
    using resealed [OF laws plain payload] r pos by simp
  then show "chain ops None 1 (sealed_rows db' org)"
    using chains by (cases "ad_organization_id d = org") (simp_all add: rows chain_append r(1))
  show "\<exists>r. au_events db' = au_events db @ [r]
        \<and> sealed_rows db' (ad_organization_id d) = sealed_rows db (ad_organization_id d) @ [r]
        \<and> ae_canonical_payload r = draft_to_vec ops (sanitize d)
        \<and> (org \<noteq> ad_organization_id d \<longrightarrow> sealed_rows db' org = sealed_rows db org)"
    using ev rows r payload by (intro exI [of _ r]) (simp add: r_def [symmetric])
qed

section \<open>The trail as a machine\<close>

inductive audit_step :: "audit_ops \<Rightarrow> audit_db \<Rightarrow> audit_db \<Rightarrow> bool" for ops where
  audit_stepI: "draft_plain d \<Longrightarrow> audit_append ops new_id d db = Inr (db', i) \<Longrightarrow> audit_step ops db db'"

definition all_chained :: "audit_ops \<Rightarrow> audit_db \<Rightarrow> bool" where
  "all_chained ops db \<longleftrightarrow> (\<forall>org. chain ops None 1 (sealed_rows db org))"

text \<open>Rows are only ever added, at the end of the table and at the end of each chain.\<close>

definition audit_extends :: "audit_db \<Rightarrow> audit_db \<Rightarrow> bool" where
  "audit_extends db db' \<longleftrightarrow> (\<exists>rs. au_events db' = au_events db @ rs)
     \<and> (\<forall>org. \<exists>rs. sealed_rows db' org = sealed_rows db org @ rs)"

lemma audit_step_chained: "audit_laws ops \<Longrightarrow> audit_step ops db db' \<Longrightarrow> all_chained ops db \<Longrightarrow> all_chained ops db'"
  by (auto elim!: audit_step.cases simp: all_chained_def intro: append_chain(1))

lemma audit_step_extends:
  assumes "audit_laws ops" and "audit_step ops db db'" and "all_chained ops db"
  shows "audit_extends db db'"
proof -
  obtain d i new_id where d: "draft_plain d" "audit_append ops new_id d db = Inr (db', i)"
    using assms(2) by (auto elim: audit_step.cases)
  have chains: "chain ops None 1 (sealed_rows db org)" for org
    using assms(3) by (simp add: all_chained_def)
  note eff = append_chain(2) [OF assms(1) d chains]
  have "\<exists>rs. sealed_rows db' org = sealed_rows db org @ rs" for org
    using eff [of org] by (cases "org = ad_organization_id d") auto
  moreover have "\<exists>rs. au_events db' = au_events db @ rs" using eff by blast
  ultimately show ?thesis by (simp add: audit_extends_def)
qed

interpretation audit_machine: forward_machine
  "\<lambda>db db'. audit_laws ops \<and> audit_step ops db db'" "all_chained ops" audit_extends for ops
proof
  show "audit_extends s s" for s by (auto simp: audit_extends_def)
  show "audit_extends s u" if "audit_extends s t" "audit_extends t u" for s t u
    using that unfolding audit_extends_def by (metis append_assoc)
qed (blast intro: audit_step_chained audit_step_extends)+

lemma audit_reach:
  assumes "audit_laws ops" and "(audit_step ops)\<^sup>*\<^sup>* db db'" and "all_chained ops db"
  shows "all_chained ops db'" and "audit_extends db db'"
proof -
  have "(\<lambda>db db'. audit_laws ops \<and> audit_step ops db db')\<^sup>*\<^sup>* db db'"
    using assms(2) by (rule rtranclp_mono [THEN predicate2D, rotated]) (use assms(1) in auto)
  then show "all_chained ops db'" "audit_extends db db'"
    using audit_machine.reach_inv audit_machine.reach_fwd assms(3) by blast+
qed

lemma chain_last_hash:
  assumes "audit_laws ops" and "chain ops previous n rs" and "rs \<noteq> []"
  shows "\<exists>h. last_hash previous rs = Some h \<and> length h = 32"
proof (cases rs rule: rev_cases)
  case (snoc xs r)
  then show ?thesis
    using assms(2) hash_event_length [OF assms(1)] by (auto simp: chain_append last_hash_def)
qed (use assms in simp)

text \<open>The last hash of a chain determines all payloads below it, up to a collision.\<close>

lemma chain_determined:
  assumes "audit_laws ops"
  shows "chain ops None n rs \<Longrightarrow> chain ops None n rs' \<Longrightarrow> length rs = length rs'
    \<Longrightarrow> last_hash None rs = last_hash None rs'
    \<Longrightarrow> map ae_canonical_payload rs = map ae_canonical_payload rs'
        \<or> (\<exists>x y. x \<noteq> y \<and> audit_sha256 ops x = audit_sha256 ops y)"
proof (induction rs arbitrary: rs' rule: rev_induct)
  case (snoc r xs)
  obtain r' ys where rs': "rs' = ys @ [r']" and len: "length xs = length ys"
    using snoc.prems(3) by (cases rs' rule: rev_cases) auto
  let ?u = "last_hash None xs" and ?v = "last_hash None ys"
  obtain p p' where p: "ae_canonical_payload r = Some p" "ae_event_hash r = Some (hash_event ops p ?u)"
    and p': "ae_canonical_payload r' = Some p'" "ae_event_hash r' = Some (hash_event ops p' ?v)"
    and xs: "chain ops None n xs" and ys: "chain ops None n ys"
    using snoc.prems(1,2) by (auto simp: rs' chain_append)
  have same: "audit_sha256 ops (hash_input ?u p) = audit_sha256 ops (hash_input ?v p')"
    using snoc.prems(4) p(2) p'(2) by (simp add: rs' last_hash_def hash_event_def)
  show ?case
  proof (cases "hash_input ?u p = hash_input ?v p'")
    case True
    have "?u = ?v \<and> p = p'"
    proof (cases "xs = []")
      case False
      then have "ys \<noteq> []" using len by auto
      then obtain h h' where "?u = Some h" "?v = Some h'" "length h = 32" "length h' = 32"
        using chain_last_hash [OF assms xs False] chain_last_hash [OF assms ys] by blast
      with True show ?thesis by (simp add: hash_input_def)
    qed (use True len in \<open>simp add: last_hash_def hash_input_def\<close>)
    then show ?thesis using snoc.IH [OF xs ys len] p(1) p'(1) by (auto simp: rs')
  qed (use same in blast)
qed simp

section \<open>Properties\<close>

text \<open>C1: Whatever sequence of appends is made from an empty trail, the chain of every organization
  verifies, with all its events counted.\<close>

theorem audit_chain_verifies:
  assumes "audit_laws ops" and "au_events db0 = []" and "(audit_step ops)\<^sup>*\<^sup>* db0 db"
  shows "verify_organization_chain ops db org = Inr (Valid (length (sealed_rows db org)))"
proof -
  have "all_chained ops db0" using assms(2) by (simp add: all_chained_def sealed_rows_def)
  then have "all_chained ops db" by (rule audit_reach(1) [OF assms(1,3)])
  then show ?thesis by (simp add: verify_chain_iff [OF assms(1)] all_chained_def)
qed

definition demo_draft :: audit_draft where
  "demo_draft = \<lparr>ad_organization_id = 1, ad_site_id = None, ad_actor_type = UserActor,
     ad_actor_id = Some 5, ad_session_id = None, ad_source_ip = Some ''10.0.0.1'',
     ad_request_id = ''req-1'', ad_correlation_id = 9, ad_action = ''device.create'',
     ad_resource_type = ''device'', ad_resource_id = Some ''d1'', ad_provider = None,
     ad_occurred_at_unix_ms = 1000, ad_duration_ms = None, ad_status = AuditSucceeded,
     ad_reason_code = None, ad_before = None,
     ad_after = Some (JObject [(''password'', JString ''hunter2'')]), ad_result = Some JNull\<rparr>"

definition demo_stored :: audit_draft where
  "demo_stored = null_to_none (sanitize demo_draft)"

definition demo_audit_ops :: audit_ops where
  "demo_audit_ops = \<lparr>audit_sha256 = (\<lambda>m. take 32 (rev m @ replicate 32 CHR ''0'')),
     draft_to_vec = (\<lambda>d. if null_to_none d = demo_stored then Some ''d'' else None),
     draft_from_slice = (\<lambda>b. if b = ''d'' then Some demo_stored else None)\<rparr>"

definition demo_audit_db :: audit_db where
  "demo_audit_db = \<lparr>au_organizations = {1}, au_sites = {}, au_sessions = {}, au_events = []\<rparr>"

lemma demo_audit_laws: "audit_laws demo_audit_ops"
proof -
  have "null_to_none (null_to_none d) = null_to_none d" for d
    by (simp add: null_to_none_def null_none_def)
  then show ?thesis by (auto simp: audit_laws_def demo_audit_ops_def min_def)
qed

lemma demo_draft_plain: "draft_plain demo_draft"
  by (simp add: draft_plain_def demo_draft_def in_i64_def i64_min_def i64_max_def)

lemma demo_sealed: "sealed_rows demo_audit_db org = []" "au_events demo_audit_db = []"
  "ad_organization_id demo_draft = 1"
  by (simp_all add: sealed_rows_def demo_audit_db_def demo_draft_def)

lemma demo_append:
  "\<exists>db. audit_append demo_audit_ops 77 demo_draft demo_audit_db = Inr (db, 77)"
proof -
  have "validate_draft demo_draft = Inr ()" by code_simp
  moreover have "next_chain_position demo_audit_db 1 = Inr (1, None)"
    by (simp add: next_chain_position_def sealed_rows_def demo_audit_db_def)
  moreover have "draft_to_vec demo_audit_ops (sanitize demo_draft) = Some ''d''"
    by (simp add: demo_audit_ops_def demo_stored_def)
  moreover have "ad_organization_id demo_draft = 1" by (simp add: demo_draft_def)
  ultimately show ?thesis
    by (simp add: audit_append_def seal_def insert_event_def row_of_def demo_audit_db_def Let_def
        sanitize_def demo_draft_def)
qed

lemma demo_appended:
  "\<exists>db. (audit_step demo_audit_ops)\<^sup>*\<^sup>* demo_audit_db db \<and> au_events db \<noteq> []
     \<and> chain demo_audit_ops None 1 (sealed_rows db 1) \<and> length (sealed_rows db 1) = 1"
proof -
  obtain db where app: "audit_append demo_audit_ops 77 demo_draft demo_audit_db = Inr (db, 77)"
    using demo_append by blast
  then have reach: "(audit_step demo_audit_ops)\<^sup>*\<^sup>* demo_audit_db db"
    by (blast intro: audit_stepI demo_draft_plain)
  have chains: "chain demo_audit_ops None 1 (sealed_rows demo_audit_db org)" for org
    by (simp add: demo_sealed)
  have "length (sealed_rows db 1) = 1 \<and> au_events db \<noteq> []"
    using append_chain(2) [OF demo_audit_laws demo_draft_plain app chains, where org = 1]
    by (auto simp: demo_sealed)
  with append_chain(1) [OF demo_audit_laws demo_draft_plain app chains, where org = 1] reach
  show ?thesis by blast
qed

lemma demo_valid:
  "\<exists>db. verify_organization_chain demo_audit_ops db 1 = Inr (Valid 1) \<and> length (sealed_rows db 1) = 1"
  using demo_appended by (auto simp: verify_chain_iff [OF demo_audit_laws])

theorem audit_chain_verifies_witness:
  "\<exists>db. (audit_step demo_audit_ops)\<^sup>*\<^sup>* demo_audit_db db \<and> au_events db \<noteq> []
     \<and> verify_organization_chain demo_audit_ops db 1 = Inr (Valid 1)"
proof -
  obtain db where "(audit_step demo_audit_ops)\<^sup>*\<^sup>* demo_audit_db db" "au_events db \<noteq> []"
    "length (sealed_rows db 1) = 1"
    using demo_appended by blast
  then show ?thesis
    using audit_chain_verifies [OF demo_audit_laws demo_sealed(2), of db 1] by auto
qed



text \<open>An append adds exactly one row: it leaves every other chain as it was, takes the next number of
  its own, stores the payload of the sanitized draft, and the JSON columns it writes hold only
  the marker under sensitive keys. Earlier rows are never changed.\<close>

theorem audit_append_spec:
  assumes "audit_laws ops" and "draft_plain d" and "all_chained ops db"
    and "audit_append ops new_id d db = Inr (db', i)"
  shows "\<exists>r. au_events db' = au_events db @ [r] \<and> i = new_id \<and> ae_id r = new_id
    \<and> ae_organization_id r = ad_organization_id d
    \<and> ae_chain_sequence r = Some (1 + int (length (sealed_rows db (ad_organization_id d))))
    \<and> sealed_rows db' (ad_organization_id d) = sealed_rows db (ad_organization_id d) @ [r]
    \<and> (\<forall>org. org \<noteq> ad_organization_id d \<longrightarrow> sealed_rows db' org = sealed_rows db org)
    \<and> ae_canonical_payload r = draft_to_vec ops (sanitize d)
    \<and> pred_option (json_clean audit_sensitive) (ae_before_state r)
    \<and> pred_option (json_clean audit_sensitive) (ae_after_state r)
    \<and> json_clean audit_sensitive (ae_result r)"
proof -
  obtain n previous payload where ev: "au_events db' = au_events db @ [row_of new_id n payload
      \<lparr>sl_event = sanitize d, sl_previous_hash = previous,
       sl_event_hash = hash_event ops payload previous\<rparr>]" "i = new_id"
    and pos: "next_chain_position db (ad_organization_id d) = Inr (n, previous)"
    and payload: "draft_to_vec ops (sanitize d) = Some payload"
    using append_effect [OF assms(4)] by metis
  have chains: "chain ops None 1 (sealed_rows db org)" for org
    using assms(3) by (simp add: all_chained_def)
  have n: "n = 1 + int (length (sealed_rows db (ad_organization_id d)))"
    using next_position [OF assms(1) chains pos] by simp
  define r where "r = row_of new_id n payload \<lparr>sl_event = sanitize d, sl_previous_hash = previous,
      sl_event_hash = hash_event ops payload previous\<rparr>"
  have r: "ae_id r = new_id" "ae_organization_id r = ad_organization_id d"
    "ae_chain_sequence r = Some n" "ae_canonical_payload r = Some payload"
    "ae_before_state r = map_option sanitize_json (ad_before d)"
    "ae_after_state r = map_option sanitize_json (ad_after d)"
    "ae_result r = (case ad_result d of None \<Rightarrow> JNull | Some x \<Rightarrow> sanitize_json x)"
    by (simp_all add: r_def row_of_def sanitize_def Let_def split: option.split)
  have "sealed_rows db' (ad_organization_id d) = sealed_rows db (ad_organization_id d) @ [r]
      \<and> (\<forall>org. org \<noteq> ad_organization_id d \<longrightarrow> sealed_rows db' org = sealed_rows db org)"
    using append_chain(2) [OF assms(1,2,4) chains] ev(1) by (auto simp: r_def)
  moreover have "pred_option (json_clean audit_sensitive) (map_option sanitize_json x)" for x
    by (cases x) (simp_all add: audit_redactor.redact_clean)
  moreover have "json_clean audit_sensitive (ae_result r)"
    by (simp add: r(7) audit_redactor.redact_clean split: option.split)
  ultimately show ?thesis
    using ev(1) [folded r_def] ev(2) r n payload by (intro exI [of _ r]) simp
qed

theorem audit_append_spec_witness:
  "\<exists>db r. audit_append demo_audit_ops 77 demo_draft demo_audit_db = Inr (db, 77)
     \<and> au_events db = [r] \<and> ae_chain_sequence r = Some 1"
proof -
  obtain db where app: "audit_append demo_audit_ops 77 demo_draft demo_audit_db = Inr (db, 77)"
    using demo_append by blast
  have "all_chained demo_audit_ops demo_audit_db"
    by (simp add: all_chained_def sealed_rows_def demo_audit_db_def)
  from audit_append_spec [OF demo_audit_laws demo_draft_plain this app] app show ?thesis
    by (auto simp: demo_sealed)
qed

section \<open>What verification does not see\<close>

text \<open>Verification reads the identifier, the sequence, the payload and the two hashes. A change of any
  other column (the action, the actor, the status, the states shown to an auditor) goes unnoticed.\<close>

lemma unsealed_columns_unchecked:
  assumes "\<And>r. ae_id (f r) = ae_id r \<and> ae_chain_sequence (f r) = ae_chain_sequence r
      \<and> ae_canonical_payload (f r) = ae_canonical_payload r
      \<and> ae_previous_hash (f r) = ae_previous_hash r \<and> ae_event_hash (f r) = ae_event_hash r"
  shows "verify_rows ops previous n k (map f rs) = verify_rows ops previous n k rs"
proof (induction rs arbitrary: previous n k)
  case (Cons r rs)
  then show ?case using assms [of r] by (simp add: seq_of_def cong: if_cong)
qed simp

text \<open>Dropping events from the end leaves a chain that verifies.\<close>

lemma truncated_chain_verifies:
  assumes "audit_laws ops" and "verify_rows ops None 1 0 (xs @ ys) = Inr (Valid m)"
  shows "verify_rows ops None 1 0 xs = Inr (Valid (length xs))"
  using assms(2) by (simp add: verify_rows_valid_iff [OF assms(1)] chain_append)

end
