(* ===== verification/Outbox.thy ===== *)
theory Outbox
  imports Redaction
begin

text \<open>
  The transactional outbox (\<open>crates/platform-events/src/lib.rs\<close>): enqueueing, claiming under a
  lease, recording delivery or failure, consumption marks, and the dispatcher.

  The tables are lists of rows. Time is in microseconds, as \<open>timestamptz\<close> keeps it, and every
  operation takes the clock as an argument. \<open>FOR UPDATE SKIP LOCKED\<close> skips the rows other
  transactions hold, which is the argument \<open>locked\<close>; the order of \<open>RETURNING\<close> is not specified by
  SQL and the model returns the order of the pick. The dispatcher's tasks run concurrently:
  \<open>dispatch_once\<close> takes the order in which they reach the database and the time each does, and its
  properties hold for every such order.
\<close>

section \<open>Data\<close>

datatype outbox_status = OutPending | OutPublished | OutFailed | OutDeadLetter

record new_outbox_event =
  ne_id :: uuid
  ne_organization_id :: uuid
  ne_aggregate_type :: string
  ne_aggregate_id :: string
  ne_event_type :: string
  ne_event_version :: i32
  ne_payload :: json
  ne_correlation_id :: uuid

record outbox_row =
  ob_id :: uuid
  ob_organization_id :: uuid
  ob_aggregate_type :: string
  ob_aggregate_id :: string
  ob_event_type :: string
  ob_event_version :: i32
  ob_payload :: json
  ob_correlation_id :: uuid
  ob_occurred_at :: timestamp
  ob_available_at :: timestamp
  ob_published_at :: "timestamp option"
  ob_attempts :: i32
  ob_last_error_code :: "string option"
  ob_last_error_at :: "timestamp option"
  ob_dead_lettered_at :: "timestamp option"
  ob_status :: outbox_status
  ob_lease_owner :: "string option"
  ob_lease_expires_at :: "timestamp option"

record outbox_event =
  oe_id :: uuid
  oe_organization_id :: uuid
  oe_aggregate_type :: string
  oe_aggregate_id :: string
  oe_event_type :: string
  oe_event_version :: i32
  oe_payload :: json
  oe_correlation_id :: uuid
  oe_attempts :: i32

datatype attempt_outcome = PublishedOutcome | RetryOutcome | DeadLetterOutcome

record delivery_attempt =
  da_event_id :: uuid
  da_attempt :: i32
  da_worker_id :: string
  da_outcome :: attempt_outcome
  da_error_code :: "string option"

record outbox_db =
  od_organizations :: "uuid set"
  od_events :: "outbox_row list"
  od_attempts :: "delivery_attempt list"
  od_consumptions :: "(string \<times> uuid) list"

datatype outbox_error =
    InvalidEvent | InvalidClaim | InvalidFailure | InvalidConsumer | InvalidDispatcher
  | LeaseLost | DispatcherClosed | DispatcherTaskFailed | OutboxDatabaseErr

datatype delivery_disposition = Retry | DeadLetter

definition micros :: "int \<Rightarrow> timestamp" where
  "micros secs = 1000000 * secs"

section \<open>Operations\<close>

definition new_event_validate :: "new_outbox_event \<Rightarrow> outbox_error + unit" where
  "new_event_validate e =
     (if trim (ne_aggregate_type e) = [] \<or> trim (ne_aggregate_id e) = []
         \<or> trim (ne_event_type e) = [] \<or> ne_event_version e \<le> 0
      then Inl InvalidEvent else Inr ())"

definition outbox_enqueue ::
  "timestamp \<Rightarrow> new_outbox_event \<Rightarrow> outbox_db \<Rightarrow> outbox_error + outbox_db" where
  "outbox_enqueue now e db =
     bindR (new_event_validate e) (\<lambda>_.
     if ne_organization_id e \<notin> od_organizations db
        \<or> list_ex (\<lambda>r. ob_id r = ne_id e) (od_events db)
     then Inl OutboxDatabaseErr
     else Inr (db\<lparr>od_events := od_events db @ [\<lparr>ob_id = ne_id e,
       ob_organization_id = ne_organization_id e, ob_aggregate_type = ne_aggregate_type e,
       ob_aggregate_id = ne_aggregate_id e, ob_event_type = ne_event_type e,
       ob_event_version = ne_event_version e, ob_payload = ne_payload e,
       ob_correlation_id = ne_correlation_id e, ob_occurred_at = now, ob_available_at = now,
       ob_published_at = None, ob_attempts = 0, ob_last_error_code = None,
       ob_last_error_at = None, ob_dead_lettered_at = None, ob_status = OutPending,
       ob_lease_owner = None, ob_lease_expires_at = None\<rparr>]\<rparr>))"

definition row_to_event :: "outbox_row \<Rightarrow> outbox_event" where
  "row_to_event r = \<lparr>oe_id = ob_id r, oe_organization_id = ob_organization_id r,
     oe_aggregate_type = ob_aggregate_type r, oe_aggregate_id = ob_aggregate_id r,
     oe_event_type = ob_event_type r, oe_event_version = ob_event_version r,
     oe_payload = ob_payload r, oe_correlation_id = ob_correlation_id r,
     oe_attempts = ob_attempts r\<rparr>"

definition claimable :: "timestamp \<Rightarrow> outbox_row \<Rightarrow> bool" where
  "claimable now r \<longleftrightarrow> (ob_status r = OutPending \<or> ob_status r = OutFailed)
     \<and> ob_available_at r \<le> now
     \<and> (case ob_lease_expires_at r of None \<Rightarrow> True | Some t \<Rightarrow> t < now)"

definition pick_order :: "outbox_row \<Rightarrow> timestamp \<times> timestamp \<times> int" where
  "pick_order r = (ob_available_at r, ob_occurred_at r, uint (ob_id r))"

definition picked_rows :: "timestamp \<Rightarrow> uuid set \<Rightarrow> int \<Rightarrow> outbox_db \<Rightarrow> outbox_row list" where
  "picked_rows now locked limit db =
     take (nat limit) (sort_key pick_order
       (filter (\<lambda>r. claimable now r \<and> ob_id r \<notin> locked) (od_events db)))"

definition lease_row :: "string \<Rightarrow> timestamp \<Rightarrow> int \<Rightarrow> outbox_row \<Rightarrow> outbox_row" where
  "lease_row worker_id now lease_seconds r = r\<lparr>ob_lease_owner := Some worker_id,
     ob_lease_expires_at := Some (now + micros lease_seconds),
     ob_attempts := ob_attempts r + 1, ob_status := OutPending\<rparr>"

text \<open>The increment of \<open>attempts\<close> fails in the database when it leaves 32 bits.\<close>

definition outbox_claim ::
  "timestamp \<Rightarrow> uuid set \<Rightarrow> string \<Rightarrow> i64 \<Rightarrow> int \<Rightarrow> outbox_db
     \<Rightarrow> outbox_error + (outbox_db \<times> outbox_event list)" where
  "outbox_claim now locked worker_id batch_size lease_secs db =
     (if trim worker_id = [] \<or> batch_size \<le> 0 then Inl InvalidClaim else
      bindR (ok_or InvalidClaim (i32_try_from (clampi 1 300 lease_secs))) (\<lambda>lease_seconds.
      let picked = picked_rows now locked (clampi 1 250 batch_size) db;
          ids = map ob_id picked
      in if list_ex (\<lambda>r. i32_try_from (ob_attempts r + 1) = None) picked
         then Inl OutboxDatabaseErr
         else Inr (db\<lparr>od_events := upd_where (\<lambda>r. ob_id r \<in> set ids)
                        (lease_row worker_id now lease_seconds) (od_events db)\<rparr>,
                   map (\<lambda>r. row_to_event (lease_row worker_id now lease_seconds r)) picked)))"

definition insert_attempt :: "delivery_attempt \<Rightarrow> outbox_db \<Rightarrow> outbox_error + outbox_db" where
  "insert_attempt a db =
     (if da_attempt a \<le> 0
         \<or> list_ex (\<lambda>b. da_event_id b = da_event_id a \<and> da_attempt b = da_attempt a) (od_attempts db)
         \<or> \<not> list_ex (\<lambda>r. ob_id r = da_event_id a) (od_events db)
      then Inl OutboxDatabaseErr
      else Inr (db\<lparr>od_attempts := od_attempts db @ [a]\<rparr>))"

definition mark_published ::
  "timestamp \<Rightarrow> string \<Rightarrow> outbox_event \<Rightarrow> outbox_db \<Rightarrow> outbox_error + outbox_db" where
  "mark_published now worker_id e db =
     (let hit = (\<lambda>r. ob_id r = oe_id e \<and> ob_lease_owner r = Some worker_id
                   \<and> ob_status r = OutPending)
      in if rows_affected hit (od_events db) \<noteq> 1 then Inl LeaseLost else
      insert_attempt \<lparr>da_event_id = oe_id e, da_attempt = oe_attempts e, da_worker_id = worker_id,
          da_outcome = PublishedOutcome, da_error_code = None\<rparr>
        (db\<lparr>od_events := upd_where hit (\<lambda>r. r\<lparr>ob_status := OutPublished,
            ob_published_at := Some now, ob_lease_owner := None, ob_lease_expires_at := None,
            ob_last_error_code := None, ob_last_error_at := None\<rparr>) (od_events db)\<rparr>))"

definition mark_failed ::
  "timestamp \<Rightarrow> string \<Rightarrow> outbox_event \<Rightarrow> string \<Rightarrow> i32 \<Rightarrow> int \<Rightarrow> outbox_db
     \<Rightarrow> outbox_error + (outbox_db \<times> delivery_disposition)" where
  "mark_failed now worker_id e error_code max_attempts retry_after_secs db =
     (if trim error_code = [] \<or> max_attempts \<le> 0 then Inl InvalidFailure else
      bindR (ok_or InvalidFailure (i32_try_from (clampi 1 3600 retry_after_secs)))
        (\<lambda>retry_seconds.
      let dead_letter = oe_attempts e \<ge> max_attempts;
          hit = (\<lambda>r. ob_id r = oe_id e \<and> ob_lease_owner r = Some worker_id);
          upd = (if dead_letter
            then (\<lambda>r. r\<lparr>ob_status := OutDeadLetter, ob_dead_lettered_at := Some now,
                ob_lease_owner := None, ob_lease_expires_at := None,
                ob_last_error_code := Some error_code, ob_last_error_at := Some now\<rparr>)
            else (\<lambda>r. r\<lparr>ob_status := OutFailed, ob_available_at := now + micros retry_seconds,
                ob_lease_owner := None, ob_lease_expires_at := None,
                ob_last_error_code := Some error_code, ob_last_error_at := Some now\<rparr>))
      in if rows_affected hit (od_events db) \<noteq> 1 then Inl LeaseLost else
      bindR (insert_attempt \<lparr>da_event_id = oe_id e, da_attempt = oe_attempts e,
          da_worker_id = worker_id,
          da_outcome = (if dead_letter then DeadLetterOutcome else RetryOutcome),
          da_error_code = Some error_code\<rparr>
        (db\<lparr>od_events := upd_where hit upd (od_events db)\<rparr>)) (\<lambda>db.
      Inr (db, if dead_letter then DeadLetter else Retry))))"

definition record_consumption ::
  "string \<Rightarrow> uuid \<Rightarrow> outbox_db \<Rightarrow> outbox_error + (outbox_db \<times> bool)" where
  "record_consumption consumer event_id db =
     (if trim consumer = [] then Inl InvalidConsumer
      else if (consumer, event_id) \<in> set (od_consumptions db) then Inr (db, False)
      else Inr (db\<lparr>od_consumptions := od_consumptions db @ [(consumer, event_id)]\<rparr>, True))"

definition outbox_backlog :: "outbox_db \<Rightarrow> nat" where
  "outbox_backlog db = rows_affected (\<lambda>r. ob_status r = OutPending \<or> ob_status r = OutFailed)
     (od_events db)"

section \<open>The dispatcher\<close>

text \<open>\<open>2.saturating_pow(clamp(attempt - 1, 0, 6)).clamp(1, 60)\<close>.\<close>

definition retry_delay_seconds :: "i32 \<Rightarrow> int" where
  "retry_delay_seconds attempt =
     (let exponent = nat (clampi 0 6 (max (- (2 ^ 31)) (attempt - 1))) in clampi 1 60 (2 ^ exponent))"

record dispatcher =
  di_worker_id :: string
  di_max_attempts :: i32
  di_lease :: int
  di_concurrency :: nat

definition dispatcher_new :: "string \<Rightarrow> i32 \<Rightarrow> nat \<Rightarrow> outbox_error + dispatcher" where
  "dispatcher_new worker_id max_attempts concurrency =
     (if trim worker_id = [] \<or> max_attempts \<le> 0 \<or> concurrency = 0 then Inl InvalidDispatcher
      else Inr \<lparr>di_worker_id = worker_id, di_max_attempts = max_attempts, di_lease = 30,
             di_concurrency = min concurrency 64\<rparr>)"

text \<open>The publisher answers \<open>None\<close> when it has published the event and otherwise an error code.\<close>

type_synonym publisher = "outbox_event \<Rightarrow> string option"

definition dispatch_task ::
  "dispatcher \<Rightarrow> publisher \<Rightarrow> (uuid \<Rightarrow> timestamp) \<Rightarrow> outbox_event \<Rightarrow> outbox_db
     \<Rightarrow> outbox_error + outbox_db" where
  "dispatch_task d publish clock e db =
     (case publish e of
        None \<Rightarrow> mark_published (clock (oe_id e)) (di_worker_id d) e db
      | Some code \<Rightarrow>
          bindR (mark_failed (clock (oe_id e)) (di_worker_id d) e code (di_max_attempts d)
                   (retry_delay_seconds (oe_attempts e)) db) (\<lambda>(db, _). Inr db))"

text \<open>Running the tasks in the order given; a failed task leaves the tables as they were. The second
  component holds the tasks' errors.\<close>

fun run_tasks ::
  "(outbox_event \<Rightarrow> outbox_db \<Rightarrow> outbox_error + outbox_db) \<Rightarrow> outbox_event list \<Rightarrow> outbox_db
     \<Rightarrow> outbox_db \<times> (uuid \<times> outbox_error) list" where
  "run_tasks task [] db = (db, [])"
| "run_tasks task (e # es) db =
     (case task e db of
        Inr db' \<Rightarrow> run_tasks task es db'
      | Inl err \<Rightarrow> (let (db', errs) = run_tasks task es db in (db', (oe_id e, err) # errs)))"

definition task_result :: "(uuid \<times> outbox_error) list \<Rightarrow> outbox_event \<Rightarrow> outbox_error + unit" where
  "task_result errs e = (case map_of errs (oe_id e) of None \<Rightarrow> Inr () | Some err \<Rightarrow> Inl err)"

definition dispatch_once ::
  "dispatcher \<Rightarrow> publisher \<Rightarrow> (uuid \<Rightarrow> timestamp) \<Rightarrow> (outbox_event list \<Rightarrow> outbox_event list)
     \<Rightarrow> timestamp \<Rightarrow> uuid set \<Rightarrow> i64 \<Rightarrow> outbox_db \<Rightarrow> outbox_db \<times> (outbox_error + nat)" where
  "dispatch_once d publish clock schedule now locked batch_size db =
     (case outbox_claim now locked (di_worker_id d) batch_size (di_lease d) db of
        Inl err \<Rightarrow> (db, Inl err)
      | Inr (db, events) \<Rightarrow>
          (let (db, errs) = run_tasks (dispatch_task d publish clock) (schedule events) db
           in (db, bindR (for_eachR (task_result errs) events) (\<lambda>_. Inr (length events)))))"

section \<open>The invariant\<close>

definition terminal :: "outbox_status \<Rightarrow> bool" where
  "terminal st \<longleftrightarrow> st = OutPublished \<or> st = OutDeadLetter"

definition row_ok :: "outbox_row \<Rightarrow> bool" where
  "row_ok r \<longleftrightarrow> (ob_lease_owner r = None \<longleftrightarrow> ob_lease_expires_at r = None)
     \<and> (ob_lease_owner r \<noteq> None \<longrightarrow> ob_status r = OutPending)
     \<and> (ob_status r = OutPublished \<longleftrightarrow> ob_published_at r \<noteq> None)
     \<and> (ob_status r = OutDeadLetter \<longleftrightarrow> ob_dead_lettered_at r \<noteq> None)
     \<and> 0 \<le> ob_attempts r"

definition outcome_count :: "outbox_db \<Rightarrow> uuid \<Rightarrow> attempt_outcome \<Rightarrow> nat" where
  "outcome_count db i oc = rows_affected (\<lambda>a. da_event_id a = i \<and> da_outcome a = oc) (od_attempts db)"

text \<open>The recorded attempts of an event are numbered below its counter, strictly while it is leased;
  one of them says published exactly when the event is published, and likewise for dead letters.\<close>

definition attempts_ok :: "outbox_db \<Rightarrow> outbox_row \<Rightarrow> bool" where
  "attempts_ok db r \<longleftrightarrow>
     (\<forall>a \<in> set (od_attempts db). da_event_id a = ob_id r \<longrightarrow>
        1 \<le> da_attempt a \<and> da_attempt a \<le> ob_attempts r
        \<and> (ob_lease_owner r \<noteq> None \<longrightarrow> da_attempt a < ob_attempts r))
     \<and> outcome_count db (ob_id r) PublishedOutcome = (if ob_status r = OutPublished then 1 else 0)
     \<and> outcome_count db (ob_id r) DeadLetterOutcome = (if ob_status r = OutDeadLetter then 1 else 0)"

definition outbox_inv :: "outbox_db \<Rightarrow> bool" where
  "outbox_inv db \<longleftrightarrow> distinct (map ob_id (od_events db))
     \<and> (\<forall>r \<in> set (od_events db). row_ok r \<and> attempts_ok db r)
     \<and> da_event_id ` set (od_attempts db) \<subseteq> set (map ob_id (od_events db))
     \<and> distinct (od_consumptions db)"

text \<open>Moving forward: the identity and content of an event never change, its counter never
  decreases, a published or dead-lettered event is final, and nothing is deleted.\<close>

definition same_content :: "outbox_row \<Rightarrow> outbox_row \<Rightarrow> bool" where
  "same_content r r' \<longleftrightarrow> ob_id r' = ob_id r \<and> ob_organization_id r' = ob_organization_id r
     \<and> ob_aggregate_type r' = ob_aggregate_type r \<and> ob_aggregate_id r' = ob_aggregate_id r
     \<and> ob_event_type r' = ob_event_type r \<and> ob_event_version r' = ob_event_version r
     \<and> ob_payload r' = ob_payload r \<and> ob_correlation_id r' = ob_correlation_id r
     \<and> ob_occurred_at r' = ob_occurred_at r"

definition row_forward :: "outbox_row \<Rightarrow> outbox_row \<Rightarrow> bool" where
  "row_forward r r' \<longleftrightarrow> same_content r r' \<and> ob_attempts r \<le> ob_attempts r'
     \<and> (terminal (ob_status r) \<longrightarrow> r' = r)"

definition outbox_forward :: "outbox_db \<Rightarrow> outbox_db \<Rightarrow> bool" where
  "outbox_forward db db' \<longleftrightarrow>
     (\<forall>r \<in> set (od_events db). \<exists>r' \<in> set (od_events db'). row_forward r r')
     \<and> set (od_attempts db) \<subseteq> set (od_attempts db')
     \<and> set (od_consumptions db) \<subseteq> set (od_consumptions db')"

lemma row_forward_refl: "row_forward r r"
  by (simp add: row_forward_def same_content_def)

lemma row_forward_trans: "row_forward r s \<Longrightarrow> row_forward s t \<Longrightarrow> row_forward r t"
  by (auto simp: row_forward_def same_content_def)

lemma outbox_forward_refl: "outbox_forward db db"
  by (auto simp: outbox_forward_def intro: row_forward_refl)

lemma outbox_forward_trans: "outbox_forward a b \<Longrightarrow> outbox_forward b c \<Longrightarrow> outbox_forward a c"
  unfolding outbox_forward_def by (meson row_forward_trans order_trans)

lemma outbox_invD:
  assumes "outbox_inv db" and "r \<in> set (od_events db)"
  shows "row_ok r" and "attempts_ok db r"
  using assms by (simp_all add: outbox_inv_def)

lemma same_id_same_row:
  "outbox_inv db \<Longrightarrow> r \<in> set (od_events db) \<Longrightarrow> r' \<in> set (od_events db) \<Longrightarrow> ob_id r = ob_id r' \<Longrightarrow> r = r'"
  using distinct_key_unique unfolding outbox_inv_def by metis

text \<open>A row on which none of the attempts columns change keeps \<open>attempts_ok\<close>.\<close>

lemma attempts_ok_cong:
  assumes "attempts_ok db r" and "od_attempts db' = od_attempts db" and "ob_id r' = ob_id r"
    and "ob_status r' = OutPublished \<longleftrightarrow> ob_status r = OutPublished"
    and "ob_status r' = OutDeadLetter \<longleftrightarrow> ob_status r = OutDeadLetter"
    and "ob_attempts r < ob_attempts r' \<or> (ob_attempts r = ob_attempts r' \<and> ob_lease_owner r' = ob_lease_owner r)"
  shows "attempts_ok db' r'"
  using assms by (fastforce simp: attempts_ok_def outcome_count_def)

section \<open>The operations keep it\<close>

lemma enqueue_keeps:
  assumes "outbox_enqueue now e db = Inr db'" and inv: "outbox_inv db"
  shows "outbox_inv db' \<and> outbox_forward db db'"
proof -
  obtain r where ev: "od_events db' = od_events db @ [r]" "od_attempts db' = od_attempts db"
    "od_consumptions db' = od_consumptions db"
    and r: "ob_id r = ne_id e" "row_ok r" "ob_lease_owner r = None" "ob_status r = OutPending"
    and fresh: "\<forall>q \<in> set (od_events db). ob_id q \<noteq> ne_id e"
    using assms(1) by (auto simp: outbox_enqueue_def result_simps row_ok_def list_ex_iff split: if_splits)
  have none: "da_event_id a \<noteq> ne_id e" if "a \<in> set (od_attempts db)" for a
    using inv fresh that unfolding outbox_inv_def by fastforce
  then have "attempts_ok db' r"
    using r by (auto simp: attempts_ok_def outcome_count_def ev rows_affected_0_iff)
  moreover have "attempts_ok db' q" if "q \<in> set (od_events db)" for q
    using outbox_invD(2) [OF inv that] by (rule attempts_ok_cong) (auto simp: ev)
  ultimately show ?thesis
    using inv r fresh by (auto simp: outbox_inv_def outbox_forward_def ev intro: row_forward_refl)
qed

lemma forward_upd_where:
  assumes "od_events db' = upd_where p f (od_events db)"
    and "\<And>r. r \<in> set (od_events db) \<Longrightarrow> p r \<Longrightarrow> row_forward r (f r)"
    and "set (od_attempts db) \<subseteq> set (od_attempts db')"
    and "od_consumptions db' = od_consumptions db"
  shows "outbox_forward db db'"
proof -
  have "\<exists>r' \<in> set (od_events db'). row_forward r r'" if "r \<in> set (od_events db)" for r
  proof (rule bexI)
    show "row_forward r (if p r then f r else r)"
      using assms(2) [OF that] row_forward_refl by simp
    show "(if p r then f r else r) \<in> set (od_events db')"
      using that by (simp add: assms(1) set_upd_where)
  qed
  then show ?thesis using assms(3,4) by (simp add: outbox_forward_def)
qed

lemma lease_row_simps [simp]:
  "ob_id (lease_row w now s r) = ob_id r" "ob_attempts (lease_row w now s r) = ob_attempts r + 1"
  "ob_status (lease_row w now s r) = OutPending" "ob_lease_owner (lease_row w now s r) = Some w"
  "ob_lease_expires_at (lease_row w now s r) = Some (now + micros s)"
  by (simp_all add: lease_row_def)

lemma picked_rows_spec:
  assumes "r \<in> set (picked_rows now locked limit db)"
  shows "r \<in> set (od_events db) \<and> claimable now r \<and> ob_id r \<notin> locked"
  using assms set_take_subset unfolding picked_rows_def by fastforce

lemma claim_effect:
  assumes "outbox_claim now locked w batch secs db = Inr (db', es)"
  obtains ls where "1 \<le> ls" and "ls \<le> 300" and "ls = clampi 1 300 secs" and "0 < batch" and "trim w \<noteq> []"
    and "db' = db\<lparr>od_events := upd_where (\<lambda>r. ob_id r \<in> ob_id ` set (picked_rows now locked (clampi 1 250 batch) db))
          (lease_row w now ls) (od_events db)\<rparr>"
    and "es = map (\<lambda>r. row_to_event (lease_row w now ls r)) (picked_rows now locked (clampi 1 250 batch) db)"
  using assms by (auto simp: outbox_claim_def result_simps Let_def i32_try_from_def clampi_def
      split: if_splits)

lemma claim_keeps:
  assumes "outbox_claim now locked w batch secs db = Inr (db', es)" and inv: "outbox_inv db"
  shows "outbox_inv db' \<and> outbox_forward db db'"
proof -
  obtain ls where db': "db' = db\<lparr>od_events := upd_where (\<lambda>r. ob_id r \<in> ob_id ` set (picked_rows now locked (clampi 1 250 batch) db))
          (lease_row w now ls) (od_events db)\<rparr>"
    using claim_effect [OF assms(1)] by metis
  let ?P = "picked_rows now locked (clampi 1 250 batch) db"
  have hit: "claimable now r" if "r \<in> set (od_events db)" "ob_id r \<in> ob_id ` set ?P" for r
    using that picked_rows_spec same_id_same_row [OF inv] by (metis (no_types, lifting) imageE)
  have new: "row_ok (lease_row w now ls r) \<and> attempts_ok db' (lease_row w now ls r)
      \<and> row_forward r (lease_row w now ls r)"
    if "r \<in> set (od_events db)" "claimable now r" for r
  proof -
    have "row_ok (lease_row w now ls r)"
      using outbox_invD(1) [OF inv that(1)] that(2)
      by (auto simp: row_ok_def claimable_def lease_row_def)
    moreover have "attempts_ok db' (lease_row w now ls r)"
      using outbox_invD(2) [OF inv that(1)] that(2)
      by (rule_tac attempts_ok_cong) (auto simp: db' claimable_def)
    moreover have "row_forward r (lease_row w now ls r)"
      using that(2) by (auto simp: row_forward_def same_content_def lease_row_def claimable_def terminal_def)
    ultimately show ?thesis by blast
  qed
  have old: "attempts_ok db' r" if "r \<in> set (od_events db)" for r
    using outbox_invD(2) [OF inv that] by (rule attempts_ok_cong) (auto simp: db')
  have "map ob_id (od_events db') = map ob_id (od_events db)"
    by (simp add: db' map_upd_where)
  moreover have "\<forall>r \<in> set (od_events db'). row_ok r \<and> attempts_ok db' r"
    using new hit old outbox_invD(1) [OF inv] by (auto simp: db' set_upd_where)
  moreover have "outbox_forward db db'"
    by (rule forward_upd_where [of _ "\<lambda>r. ob_id r \<in> ob_id ` set ?P" "lease_row w now ls"])
      (use new hit in \<open>auto simp: db'\<close>)
  moreover have "od_attempts db' = od_attempts db" "od_consumptions db' = od_consumptions db"
    by (simp_all add: db')
  ultimately show ?thesis using inv unfolding outbox_inv_def by (simp only:)
qed

text \<open>What both marks do: one leased row leaves its lease, and an attempt is recorded for it.\<close>

lemma mark_keeps:
  assumes inv: "outbox_inv db" and r: "r \<in> set (od_events db)" "ob_lease_owner r \<noteq> None"
    and hit: "\<And>q. q \<in> set (od_events db) \<Longrightarrow> hit q \<longleftrightarrow> q = r"
    and f: "same_content r (f r)" "ob_attempts (f r) = ob_attempts r" "ob_lease_owner (f r) = None"
      "row_ok (f r)"
    and a: "da_event_id a = ob_id r" "1 \<le> da_attempt a" "da_attempt a \<le> ob_attempts r"
      "da_outcome a = PublishedOutcome \<longleftrightarrow> ob_status (f r) = OutPublished"
      "da_outcome a = DeadLetterOutcome \<longleftrightarrow> ob_status (f r) = OutDeadLetter"
    and db': "od_events db' = upd_where hit f (od_events db)"
      "od_attempts db' = od_attempts db @ [a]" "od_consumptions db' = od_consumptions db"
  shows "outbox_inv db' \<and> outbox_forward db db'"
proof -
  have pending: "ob_status r = OutPending"
    using outbox_invD(1) [OF inv r(1)] r(2) by (simp add: row_ok_def)
  have id: "ob_id (f r) = ob_id r" using f(1) by (simp add: same_content_def)
  have count: "outcome_count db' i oc
      = outcome_count db i oc + (if i = ob_id r \<and> oc = da_outcome a then 1 else 0)" for i oc
    by (auto simp: outcome_count_def rows_affected_def db'(2) a(1))
  have new: "attempts_ok db' (f r)"
    using outbox_invD(2) [OF inv r(1)] pending f(2,3) a
    by (cases "da_outcome a") (auto simp: attempts_ok_def db'(2) count id)
  have old: "attempts_ok db' q" if "q \<in> set (od_events db)" "q \<noteq> r" for q
  proof -
    have "ob_id q \<noteq> ob_id r" using same_id_same_row [OF inv that(1) r(1)] that(2) by blast
    then show ?thesis
      using outbox_invD(2) [OF inv that(1)] a(1) by (auto simp: attempts_ok_def db'(2) count)
  qed
  have rows: "set (od_events db') = (\<lambda>q. if q = r then f r else q) ` set (od_events db)"
    using hit by (auto simp: db'(1) set_upd_where)
  have "row_ok q \<and> attempts_ok db' q" if "q \<in> set (od_events db')" for q
    using that new old f(4) outbox_invD(1) [OF inv] unfolding rows by auto
  moreover have ids: "map ob_id (od_events db') = map ob_id (od_events db)"
    using hit id by (auto simp: db'(1) upd_where_def)
  moreover have "da_event_id ` set (od_attempts db') \<subseteq> set (map ob_id (od_events db'))"
    using inv r(1) a(1) by (auto simp: ids outbox_inv_def db'(2))
  moreover have "outbox_forward db db'"
    by (rule forward_upd_where [of _ hit f])
      (use hit f(1,2) pending in \<open>auto simp: db' row_forward_def terminal_def\<close>)
  ultimately show ?thesis using inv db'(3) unfolding outbox_inv_def by (simp only: simp_thms) blast
qed

text \<open>The caller passes an event it has claimed: the row exists, and its counter is not smaller.\<close>

definition snapshot :: "outbox_db \<Rightarrow> outbox_event \<Rightarrow> bool" where
  "snapshot db e \<longleftrightarrow> (\<exists>r \<in> set (od_events db). ob_id r = oe_id e
     \<and> 1 \<le> oe_attempts e \<and> oe_attempts e \<le> ob_attempts r)"

lemma snapshotD:
  "outbox_inv db \<Longrightarrow> snapshot db e \<Longrightarrow> r \<in> set (od_events db) \<Longrightarrow> ob_id r = oe_id e
   \<Longrightarrow> 1 \<le> oe_attempts e \<and> oe_attempts e \<le> ob_attempts r"
  unfolding snapshot_def using same_id_same_row by metis

text \<open>One row is hit, and it is the only one with its identifier.\<close>

lemma single_hit:
  assumes "outbox_inv db" and "rows_affected (\<lambda>r. ob_id r = i \<and> q r) (od_events db) = 1"
  obtains r where "r \<in> set (od_events db)" and "ob_id r = i" and "q r"
    and "\<And>x. x \<in> set (od_events db) \<Longrightarrow> (ob_id x = i \<and> q x) \<longleftrightarrow> x = r"
proof -
  obtain r where r: "r \<in> set (od_events db)" "ob_id r = i" "q r"
    using rows_affected_1D [OF assms(2)] by blast
  moreover have "(ob_id x = i \<and> q x) \<longleftrightarrow> x = r" if "x \<in> set (od_events db)" for x
    using same_id_same_row [OF assms(1) that r(1)] r(2,3) by auto
  ultimately show thesis using that by blast
qed

lemma insert_attempt_ok:
  "insert_attempt a db = Inr db' \<Longrightarrow> db' = db\<lparr>od_attempts := od_attempts db @ [a]\<rparr>"
  by (simp add: insert_attempt_def split: if_splits)

lemma mark_published_effect:
  assumes "mark_published now w e db = Inr db'" and inv: "outbox_inv db" and snap: "snapshot db e"
  shows "outbox_inv db' \<and> outbox_forward db db'
    \<and> (\<exists>r \<in> set (od_events db'). ob_id r = oe_id e \<and> ob_status r = OutPublished
         \<and> ob_published_at r = Some now)"
proof -
  let ?q = "\<lambda>r. ob_lease_owner r = Some w \<and> ob_status r = OutPending"
  let ?f = "\<lambda>r. r\<lparr>ob_status := OutPublished, ob_published_at := Some now,
      ob_lease_owner := None, ob_lease_expires_at := None,
      ob_last_error_code := None, ob_last_error_at := None\<rparr>"
  obtain r where r: "r \<in> set (od_events db)" "ob_id r = oe_id e" "?q r"
    and hit: "\<And>x. x \<in> set (od_events db) \<Longrightarrow> (ob_id x = oe_id e \<and> ?q x) \<longleftrightarrow> x = r"
    using assms(1) single_hit [OF inv, of "oe_id e" ?q]
    by (auto simp: mark_published_def Let_def split: if_splits)
  have db': "od_events db' = upd_where (\<lambda>x. ob_id x = oe_id e \<and> ?q x) ?f (od_events db)"
    "od_attempts db' = od_attempts db @ [\<lparr>da_event_id = oe_id e, da_attempt = oe_attempts e,
       da_worker_id = w, da_outcome = PublishedOutcome, da_error_code = None\<rparr>]"
    "od_consumptions db' = od_consumptions db"
    using assms(1) by (auto simp: mark_published_def Let_def dest!: insert_attempt_ok split: if_splits)
  have "outbox_inv db' \<and> outbox_forward db db'"
    by (rule mark_keeps [OF inv r(1) _ hit _ _ _ _ _ _ _ _ _ db'])
      (use r snapshotD [OF inv snap r(1,2)] outbox_invD(1) [OF inv r(1)]
        in \<open>auto simp: same_content_def row_ok_def\<close>)
  moreover have "?f r \<in> set (od_events db')"
    using r by (force simp: db'(1) set_upd_where)
  ultimately show ?thesis using r(2) by (intro conjI bexI [of _ "?f r"]) simp_all
qed

lemma mark_failed_effect:
  assumes "mark_failed now w e code mx secs db = Inr (db', disp)" and inv: "outbox_inv db"
    and snap: "snapshot db e"
  shows "outbox_inv db' \<and> outbox_forward db db'
    \<and> disp = (if mx \<le> oe_attempts e then DeadLetter else Retry)
    \<and> (\<exists>r \<in> set (od_events db'). ob_id r = oe_id e \<and> ob_last_error_code r = Some code
         \<and> ob_lease_owner r = None
         \<and> (if mx \<le> oe_attempts e then ob_status r = OutDeadLetter
            else ob_status r = OutFailed \<and> ob_available_at r = now + micros (clampi 1 3600 secs)))"
proof -
  let ?q = "\<lambda>r. ob_lease_owner r = Some w"
  define f :: "outbox_row \<Rightarrow> outbox_row" where "f = (if mx \<le> oe_attempts e
    then (\<lambda>r. r\<lparr>ob_status := OutDeadLetter, ob_dead_lettered_at := Some now,
        ob_lease_owner := None, ob_lease_expires_at := None,
        ob_last_error_code := Some code, ob_last_error_at := Some now\<rparr>)
    else (\<lambda>r. r\<lparr>ob_status := OutFailed, ob_available_at := now + micros (clampi 1 3600 secs),
        ob_lease_owner := None, ob_lease_expires_at := None,
        ob_last_error_code := Some code, ob_last_error_at := Some now\<rparr>))"
  have i32: "i32_try_from (clampi 1 3600 secs) = Some (clampi 1 3600 secs)"
    by (simp add: i32_try_from_def clampi_def)
  obtain r where r: "r \<in> set (od_events db)" "ob_id r = oe_id e" "?q r"
    and hit: "\<And>x. x \<in> set (od_events db) \<Longrightarrow> (ob_id x = oe_id e \<and> ?q x) \<longleftrightarrow> x = r"
    using assms(1) single_hit [OF inv, of "oe_id e" ?q]
    by (auto simp: mark_failed_def Let_def i32 split: if_splits)
  have db': "od_events db' = upd_where (\<lambda>x. ob_id x = oe_id e \<and> ?q x) f (od_events db)"
    "od_attempts db' = od_attempts db @ [\<lparr>da_event_id = oe_id e, da_attempt = oe_attempts e,
       da_worker_id = w, da_outcome = (if mx \<le> oe_attempts e then DeadLetterOutcome else RetryOutcome),
       da_error_code = Some code\<rparr>]"
    "od_consumptions db' = od_consumptions db"
    and disp: "disp = (if mx \<le> oe_attempts e then DeadLetter else Retry)"
    using assms(1)
    by (auto simp: mark_failed_def Let_def i32 f_def result_simps dest!: insert_attempt_ok
        split: if_splits)
  have "outbox_inv db' \<and> outbox_forward db db'"
    by (rule mark_keeps [OF inv r(1) _ hit _ _ _ _ _ _ _ _ _ db'])
      (use r snapshotD [OF inv snap r(1,2)] outbox_invD(1) [OF inv r(1)]
        in \<open>auto simp: same_content_def row_ok_def f_def\<close>)
  moreover have "f r \<in> set (od_events db')"
    using r by (force simp: db'(1) set_upd_where)
  moreover have "ob_id (f r) = oe_id e" "ob_last_error_code (f r) = Some code" "ob_lease_owner (f r) = None"
    "if mx \<le> oe_attempts e then ob_status (f r) = OutDeadLetter
     else ob_status (f r) = OutFailed \<and> ob_available_at (f r) = now + micros (clampi 1 3600 secs)"
    using r(2) by (simp_all add: f_def)
  ultimately show ?thesis using disp by blast
qed

lemma consumption_keeps:
  assumes "record_consumption c i db = Inr (db', first)" and "outbox_inv db"
  shows "outbox_inv db' \<and> outbox_forward db db' \<and> (first \<longleftrightarrow> (c, i) \<notin> set (od_consumptions db))
    \<and> (c, i) \<in> set (od_consumptions db')"
proof -
  have same: "attempts_ok (db\<lparr>od_consumptions := cs\<rparr>) r = attempts_ok db r" for cs r
    by (simp add: attempts_ok_def outcome_count_def)
  show ?thesis
  proof (cases "(c, i) \<in> set (od_consumptions db)")
    case True
    with assms have "db' = db" "\<not> first" by (auto simp: record_consumption_def split: if_splits)
    with True assms(2) outbox_forward_refl show ?thesis by simp
  next
    case False
    with assms(1) have "db' = db\<lparr>od_consumptions := od_consumptions db @ [(c, i)]\<rparr>" "first"
      by (auto simp: record_consumption_def split: if_splits)
    with False assms(2) show ?thesis
      by (auto simp: outbox_inv_def same outbox_forward_def intro: row_forward_refl)
  qed
qed

section \<open>The outbox as a machine\<close>

inductive outbox_step :: "outbox_db \<Rightarrow> outbox_db \<Rightarrow> bool" where
  step_enqueue: "outbox_enqueue now e db = Inr db' \<Longrightarrow> outbox_step db db'"
| step_claim: "outbox_claim now locked w batch secs db = Inr (db', es) \<Longrightarrow> outbox_step db db'"
| step_published: "snapshot db e \<Longrightarrow> mark_published now w e db = Inr db' \<Longrightarrow> outbox_step db db'"
| step_failed: "snapshot db e \<Longrightarrow> mark_failed now w e code mx secs db = Inr (db', disp)
     \<Longrightarrow> outbox_step db db'"
| step_consumption: "record_consumption c i db = Inr (db', first) \<Longrightarrow> outbox_step db db'"

lemma outbox_step_keeps:
  assumes "outbox_step db db'" and "outbox_inv db"
  shows "outbox_inv db' \<and> outbox_forward db db'"
  using assms
proof cases
  case step_enqueue
  then show ?thesis using enqueue_keeps assms(2) by blast
next
  case step_claim
  then show ?thesis using claim_keeps assms(2) by blast
next
  case step_published
  then show ?thesis using mark_published_effect assms(2) by blast
next
  case step_failed
  then show ?thesis using mark_failed_effect assms(2) by blast
next
  case step_consumption
  then show ?thesis using consumption_keeps assms(2) by blast
qed

interpretation outbox_machine: forward_machine outbox_step outbox_inv outbox_forward
  by unfold_locales
    (blast intro: outbox_forward_refl outbox_forward_trans dest: outbox_step_keeps)+

section \<open>The dispatcher\<close>

text \<open>\<open>holds w db e\<close>: the worker holds the lease of the event it claimed.\<close>

definition holds :: "string \<Rightarrow> outbox_db \<Rightarrow> outbox_event \<Rightarrow> bool" where
  "holds w db e \<longleftrightarrow> (\<exists>r \<in> set (od_events db). ob_id r = oe_id e \<and> ob_lease_owner r = Some w
     \<and> ob_status r = OutPending \<and> ob_attempts r = oe_attempts e \<and> 1 \<le> oe_attempts e)"

definition settled :: "dispatcher \<Rightarrow> publisher \<Rightarrow> (uuid \<Rightarrow> timestamp) \<Rightarrow> outbox_db \<Rightarrow> outbox_event \<Rightarrow> bool" where
  "settled d publish clock db e \<longleftrightarrow> (\<exists>r \<in> set (od_events db). ob_id r = oe_id e
     \<and> (case publish e of
          None \<Rightarrow> ob_status r = OutPublished \<and> ob_published_at r = Some (clock (oe_id e))
        | Some code \<Rightarrow> ob_last_error_code r = Some code \<and> ob_lease_owner r = None
            \<and> (if di_max_attempts d \<le> oe_attempts e then ob_status r = OutDeadLetter
               else ob_status r = OutFailed \<and> ob_available_at r
                 = clock (oe_id e) + micros (retry_delay_seconds (oe_attempts e)))))"

definition others_same :: "uuid set \<Rightarrow> outbox_db \<Rightarrow> outbox_db \<Rightarrow> bool" where
  "others_same ids db db' \<longleftrightarrow>
     (\<forall>r. ob_id r \<notin> ids \<longrightarrow> (r \<in> set (od_events db') \<longleftrightarrow> r \<in> set (od_events db)))"

lemma retry_delay_bounds: "1 \<le> retry_delay_seconds a \<and> retry_delay_seconds a \<le> 60"
  using clampi_bounds [of 1 60] by (simp add: retry_delay_seconds_def)

lemma others_same_upd_where:
  assumes "od_events db' = upd_where (\<lambda>r. ob_id r = i \<and> q r) f (od_events db)"
    and "\<And>r. ob_id (f r) = ob_id r"
  shows "others_same {i} db db'"
  using assms(2) by (auto simp: others_same_def assms(1) set_upd_where image_iff)

lemma insert_attempt_free:
  assumes inv: "outbox_inv db" and r: "r \<in> set (od_events db)" "ob_id r = i" "ob_lease_owner r \<noteq> None"
    and n: "1 \<le> ob_attempts r" and ids: "map ob_id evs = map ob_id (od_events db)"
  shows "insert_attempt \<lparr>da_event_id = i, da_attempt = ob_attempts r, da_worker_id = w,
      da_outcome = oc, da_error_code = ec\<rparr> (db\<lparr>od_events := evs\<rparr>)
    = Inr (db\<lparr>od_events := evs, od_attempts := od_attempts db @ [\<lparr>da_event_id = i,
        da_attempt = ob_attempts r, da_worker_id = w, da_outcome = oc, da_error_code = ec\<rparr>]\<rparr>)"
proof -
  have "i \<in> ob_id ` set evs" using arg_cong [OF ids, of set] r by auto
  moreover have "\<forall>a \<in> set (od_attempts db). da_event_id a = i \<longrightarrow> da_attempt a \<noteq> ob_attempts r"
    using outbox_invD(2) [OF inv r(1)] r(2,3) by (fastforce simp: attempts_ok_def)
  ultimately show ?thesis using n by (auto simp: insert_attempt_def list_ex_iff)
qed

lemma task_settles:
  assumes inv: "outbox_inv db" and h: "holds (di_worker_id d) db e"
    and code: "\<And>code. publish e = Some code \<Longrightarrow> trim code \<noteq> []" and mx: "0 < di_max_attempts d"
  shows "\<exists>db'. dispatch_task d publish clock e db = Inr db' \<and> outbox_inv db'
    \<and> settled d publish clock db' e \<and> others_same {oe_id e} db db'"
proof -
  let ?w = "di_worker_id d"
  obtain r where r: "r \<in> set (od_events db)" "ob_id r = oe_id e" "ob_lease_owner r = Some ?w"
    "ob_status r = OutPending" "ob_attempts r = oe_attempts e" "1 \<le> oe_attempts e"
    using h by (auto simp: holds_def)
  have snap: "snapshot db e" using r by (force simp: snapshot_def)
  have dist: "distinct (map ob_id (od_events db))" using inv by (simp add: outbox_inv_def)
  have ins: "insert_attempt \<lparr>da_event_id = oe_id e, da_attempt = oe_attempts e, da_worker_id = w,
      da_outcome = oc, da_error_code = ec\<rparr> (db\<lparr>od_events := evs\<rparr>)
    = Inr (db\<lparr>od_events := evs, od_attempts := od_attempts db @ [\<lparr>da_event_id = oe_id e,
        da_attempt = oe_attempts e, da_worker_id = w, da_outcome = oc, da_error_code = ec\<rparr>]\<rparr>)"
    if "map ob_id evs = map ob_id (od_events db)" for w oc ec evs
    using insert_attempt_free [OF inv r(1,2) _ _ that] r by simp
  show ?thesis
  proof (cases "publish e")
    case None
    have one: "rows_affected (\<lambda>x. ob_id x = oe_id e \<and> ob_lease_owner x = Some ?w
        \<and> ob_status x = OutPending) (od_events db) = 1"
      using r by (subst rows_affected_key [OF dist]) auto
    obtain db' where db': "mark_published (clock (oe_id e)) ?w e db = Inr db'"
      and ev: "od_events db' = upd_where (\<lambda>x. ob_id x = oe_id e \<and> (ob_lease_owner x = Some ?w
          \<and> ob_status x = OutPending)) (\<lambda>r. r\<lparr>ob_status := OutPublished,
          ob_published_at := Some (clock (oe_id e)), ob_lease_owner := None, ob_lease_expires_at := None,
          ob_last_error_code := None, ob_last_error_at := None\<rparr>) (od_events db)"
      by (simp add: mark_published_def one ins map_upd_where)
    have "others_same {oe_id e} db db'" by (rule others_same_upd_where [OF ev]) simp
    then show ?thesis
      using mark_published_effect [OF db' inv snap] db' None
      by (auto simp: dispatch_task_def settled_def)
  next
    case (Some c)
    have one: "rows_affected (\<lambda>x. ob_id x = oe_id e \<and> ob_lease_owner x = Some ?w) (od_events db) = 1"
      using r by (subst rows_affected_key [OF dist]) auto
    have secs: "clampi 1 3600 (retry_delay_seconds (oe_attempts e)) = retry_delay_seconds (oe_attempts e)"
      "i32_try_from (retry_delay_seconds (oe_attempts e)) = Some (retry_delay_seconds (oe_attempts e))"
      using retry_delay_bounds [of "oe_attempts e"] by (simp_all add: clampi_def i32_try_from_def)
    obtain db' disp f where db': "mark_failed (clock (oe_id e)) ?w e c (di_max_attempts d)
        (retry_delay_seconds (oe_attempts e)) db = Inr (db', disp)"
      and ev: "od_events db' = upd_where (\<lambda>x. ob_id x = oe_id e \<and> ob_lease_owner x = Some ?w) f (od_events db)"
      and f: "\<And>r. ob_id (f r) = ob_id r"
      using code [OF Some] mx
      by (cases "di_max_attempts d \<le> oe_attempts e")
        (simp_all add: mark_failed_def one ins map_upd_where secs not_le)
    have "others_same {oe_id e} db db'" by (rule others_same_upd_where [OF ev f])
    then show ?thesis
      using mark_failed_effect [OF db' inv snap] db' Some
      by (auto simp: dispatch_task_def settled_def secs)
  qed
qed

lemma holds_others: "others_same {oe_id x} db db' \<Longrightarrow> oe_id e \<noteq> oe_id x \<Longrightarrow> holds w db' e = holds w db e"
  unfolding holds_def others_same_def by (metis singletonD)

lemma settled_others:
  "others_same ids db db' \<Longrightarrow> oe_id e \<notin> ids \<Longrightarrow> settled d publish clock db' e = settled d publish clock db e"
  unfolding settled_def others_same_def by metis

lemma others_same_trans: "others_same A db db' \<Longrightarrow> others_same B db' db'' \<Longrightarrow> others_same (A \<union> B) db db''"
  unfolding others_same_def by blast

lemma run_tasks_settle:
  assumes "distinct (map oe_id es)" and "outbox_inv db"
    and "\<And>e. e \<in> set es \<Longrightarrow> holds (di_worker_id d) db e"
    and "\<And>e code. publish e = Some code \<Longrightarrow> trim code \<noteq> []" and "0 < di_max_attempts d"
  shows "\<exists>db'. run_tasks (dispatch_task d publish clock) es db = (db', []) \<and> outbox_inv db'
    \<and> (\<forall>e \<in> set es. settled d publish clock db' e) \<and> others_same (oe_id ` set es) db db'"
  using assms(1-3)
proof (induction es arbitrary: db)
  case Nil
  then show ?case by (simp add: others_same_def)
next
  case (Cons e es)
  have "\<exists>db1. dispatch_task d publish clock e db = Inr db1 \<and> outbox_inv db1
      \<and> settled d publish clock db1 e \<and> others_same {oe_id e} db db1"
    by (rule task_settles [OF Cons.prems(2)]) (use Cons.prems(3) assms(4,5) in auto)
  then obtain db1 where db1: "dispatch_task d publish clock e db = Inr db1" "outbox_inv db1"
    "settled d publish clock db1 e" "others_same {oe_id e} db db1"
    by blast
  have fresh: "oe_id e \<notin> oe_id ` set es" using Cons.prems(1) by simp
  have "holds (di_worker_id d) db1 x" if "x \<in> set es" for x
  proof -
    have "oe_id x \<noteq> oe_id e" using that fresh by (metis imageI)
    then show ?thesis using Cons.prems(3) [of x] that holds_others [OF db1(4)] by simp
  qed
  with Cons.IH [OF _ db1(2)] Cons.prems(1) obtain db' where db':
    "run_tasks (dispatch_task d publish clock) es db1 = (db', [])" "outbox_inv db'"
    "\<forall>e \<in> set es. settled d publish clock db' e" "others_same (oe_id ` set es) db1 db'"
    by auto
  moreover have "settled d publish clock db' e"
    using settled_others [OF db'(4) fresh] db1(3) by blast
  moreover have "others_same (oe_id ` set (e # es)) db db'"
    using others_same_trans [OF db1(4) db'(4)] by simp
  ultimately show ?case using db1(1) by simp
qed

section \<open>Claiming\<close>

lemma distinct_picked:
  assumes "outbox_inv db"
  shows "distinct (map ob_id (picked_rows now locked n db))"
proof -
  have "distinct (map ob_id (filter p (od_events db)))" for p
    using assms by (simp add: outbox_inv_def distinct_map_filter)
  then have "distinct (map ob_id (sort_key pick_order (filter p (od_events db))))" for p
    by (simp add: distinct_map)
  then show ?thesis
    by (simp add: picked_rows_def take_map [symmetric])
qed

text \<open>The pick takes the first rows of the order: it leaves a row out only when it is full.\<close>

lemma picked_complete:
  assumes "r \<in> set (od_events db)" and "claimable now r" and "ob_id r \<notin> locked"
    and "r \<notin> set (picked_rows now locked n db)"
  shows "length (picked_rows now locked n db) = nat n
    \<and> (\<forall>q \<in> set (picked_rows now locked n db). pick_order q \<le> pick_order r)"
proof -
  let ?S = "sort_key pick_order (filter (\<lambda>r. claimable now r \<and> ob_id r \<notin> locked) (od_events db))"
  have P: "picked_rows now locked n db = take (nat n) ?S" by (simp add: picked_rows_def)
  have "r \<in> set ?S" using assms by simp
  then have "r \<in> set (take (nat n) ?S) \<or> r \<in> set (drop (nat n) ?S)"
    by (metis Un_iff append_take_drop_id set_append)
  then have r: "r \<in> set (drop (nat n) ?S)" using assms(4) P by simp
  then have len: "length (take (nat n) ?S) = nat n"
    by (cases "length ?S \<le> nat n") (auto simp del: length_sort set_sort)
  have "sorted (map pick_order (take (nat n) ?S @ drop (nat n) ?S))" by simp
  then have "pick_order q \<le> pick_order r" if "q \<in> set (take (nat n) ?S)" for q
    unfolding map_append sorted_append using that r by auto
  then show ?thesis using len unfolding P by blast
qed

lemma claim_holds:
  assumes "outbox_claim now locked w batch secs db = Inr (db', es)" and inv: "outbox_inv db"
    and e: "e \<in> set es"
  shows "holds w db' e"
    and "\<exists>r \<in> set (od_events db). ob_id r = oe_id e \<and> claimable now r \<and> ob_id r \<notin> locked
      \<and> oe_attempts e = ob_attempts r + 1 \<and> lease_row w now (clampi 1 300 secs) r \<in> set (od_events db')"
proof -
  obtain ls where c: "ls = clampi 1 300 secs"
    "db' = db\<lparr>od_events := upd_where (\<lambda>r. ob_id r \<in> ob_id ` set (picked_rows now locked (clampi 1 250 batch) db))
          (lease_row w now ls) (od_events db)\<rparr>"
    "es = map (\<lambda>r. row_to_event (lease_row w now ls r)) (picked_rows now locked (clampi 1 250 batch) db)"
    using claim_effect [OF assms(1)] by metis
  obtain r where r: "r \<in> set (picked_rows now locked (clampi 1 250 batch) db)"
    "e = row_to_event (lease_row w now ls r)"
    using e c(3) by auto
  have old: "r \<in> set (od_events db)" "claimable now r" "ob_id r \<notin> locked"
    using picked_rows_spec [OF r(1)] by auto
  have new: "lease_row w now ls r \<in> set (od_events db')"
    using old(1) r(1) by (force simp: c(2) set_upd_where)
  have "0 \<le> ob_attempts r" using outbox_invD(1) [OF inv old(1)] by (simp add: row_ok_def)
  then show "holds w db' e"
    unfolding holds_def using new
    by (intro bexI [of _ "lease_row w now ls r"]) (simp_all add: r(2) row_to_event_def)
  show "\<exists>r \<in> set (od_events db). ob_id r = oe_id e \<and> claimable now r \<and> ob_id r \<notin> locked
      \<and> oe_attempts e = ob_attempts r + 1 \<and> lease_row w now (clampi 1 300 secs) r \<in> set (od_events db')"
    using old new c(1) by (intro bexI [of _ r]) (simp_all add: r(2) row_to_event_def)
qed

lemma claim_distinct:
  assumes "outbox_claim now locked w batch secs db = Inr (db', es)" and "outbox_inv db"
  shows "distinct (map oe_id es)"
proof -
  obtain ls where "es = map (\<lambda>r. row_to_event (lease_row w now ls r))
      (picked_rows now locked (clampi 1 250 batch) db)"
    using claim_effect [OF assms(1)] by metis
  then have "map oe_id es = map ob_id (picked_rows now locked (clampi 1 250 batch) db)"
    by (simp add: row_to_event_def comp_def)
  then show ?thesis using distinct_picked [OF assms(2)] by simp
qed

section \<open>Properties\<close>


definition empty_outbox :: outbox_db where
  "empty_outbox = \<lparr>od_organizations = {1}, od_events = [], od_attempts = [], od_consumptions = []\<rparr>"

definition demo_event :: "uuid \<Rightarrow> new_outbox_event" where
  "demo_event i = \<lparr>ne_id = i, ne_organization_id = 1, ne_aggregate_type = ''device'',
     ne_aggregate_id = ''d1'', ne_event_type = ''device.created'', ne_event_version = 1,
     ne_payload = JNull, ne_correlation_id = 3\<rparr>"

definition demo_outbox :: outbox_db where
  "demo_outbox = (case outbox_enqueue 100 (demo_event 7) empty_outbox of Inr db \<Rightarrow> db)"

lemma empty_outbox_inv: "outbox_inv empty_outbox"
  by (simp add: outbox_inv_def empty_outbox_def)

lemma demo_event_valid: "new_event_validate (demo_event i) = Inr ()"
proof -
  have "trim ''device'' \<noteq> []" "trim ''d1'' \<noteq> []" "trim ''device.created'' \<noteq> []"
    by code_simp+
  then show ?thesis by (simp add: new_event_validate_def demo_event_def)
qed

lemma demo_outbox_enqueued: "outbox_enqueue 100 (demo_event 7) empty_outbox = Inr demo_outbox"
  by (simp add: demo_outbox_def outbox_enqueue_def demo_event_valid)
    (simp add: demo_event_def empty_outbox_def)

lemma demo_outbox_inv: "outbox_inv demo_outbox"
  using enqueue_keeps [OF demo_outbox_enqueued empty_outbox_inv] by blast

lemma demo_outbox_row:
  "\<exists>r. od_events demo_outbox = [r] \<and> ob_id r = 7 \<and> ob_status r = OutPending \<and> ob_attempts r = 0
     \<and> ob_available_at r = 100 \<and> ob_lease_owner r = None \<and> ob_lease_expires_at r = None"
  by (simp add: demo_outbox_def outbox_enqueue_def demo_event_valid)
    (simp add: demo_event_def empty_outbox_def)

lemma demo_claim:
  "\<exists>db es e. outbox_claim 200 {} ''w1'' 10 30 demo_outbox = Inr (db, es) \<and> es = [e] \<and> oe_id e = 7
     \<and> oe_attempts e = 1"
proof -
  obtain r where r: "od_events demo_outbox = [r]" "ob_id r = 7" "ob_status r = OutPending"
    "ob_attempts r = 0" "ob_available_at r = 100" "ob_lease_expires_at r = None"
    using demo_outbox_row by blast
  have "claimable 200 r" using r by (simp add: claimable_def)
  then have p: "picked_rows 200 {} 10 demo_outbox = [r]"
    by (simp add: picked_rows_def r(1))
  have "trim ''w1'' = ''w1''" by code_simp
  then show ?thesis
    using r by (simp add: outbox_claim_def p Let_def i32_try_from_def clampi_def row_to_event_def)
qed







definition demo_dispatcher :: dispatcher where
  "demo_dispatcher = \<lparr>di_worker_id = ''w1'', di_max_attempts = 5, di_lease = 30, di_concurrency = 4\<rparr>"


text \<open>A consumption is reported as new exactly once: the first time for a consumer and event, and
  never again afterwards, whatever happens to the outbox in between.\<close>

theorem consumption_once:
  assumes "outbox_inv db0" and "record_consumption c i db0 = Inr (db1, first)"
    and "outbox_step\<^sup>*\<^sup>* db1 db2" and "record_consumption c i db2 = Inr (db3, again)"
  shows "(first \<longleftrightarrow> (c, i) \<notin> set (od_consumptions db0)) \<and> \<not> again \<and> db3 = db2"
proof -
  have one: "outbox_inv db1" "first \<longleftrightarrow> (c, i) \<notin> set (od_consumptions db0)"
    "(c, i) \<in> set (od_consumptions db1)"
    using consumption_keeps [OF assms(2,1)] by auto
  then have "(c, i) \<in> set (od_consumptions db2)"
    using outbox_machine.reach_fwd [OF assms(3)] by (auto simp: outbox_forward_def)
  with assms(4) one(2) show ?thesis by (auto simp: record_consumption_def split: if_splits)
qed

theorem consumption_once_witness:
  "\<exists>db1. record_consumption ''mailer'' 7 empty_outbox = Inr (db1, True)
     \<and> record_consumption ''mailer'' 7 db1 = Inr (db1, False)"
proof -
  have t: "trim ''mailer'' \<noteq> []" by code_simp
  then obtain db1 where c: "record_consumption ''mailer'' 7 empty_outbox = Inr (db1, True)"
    by (simp add: record_consumption_def empty_outbox_def)
  then obtain db3 again where d: "record_consumption ''mailer'' 7 db1 = Inr (db3, again)"
    using t by (cases "record_consumption ''mailer'' 7 db1") (auto simp: record_consumption_def split: if_splits)
  from consumption_once [OF empty_outbox_inv c rtranclp.rtrancl_refl d] c d show ?thesis by auto
qed

section \<open>Blank error codes\<close>

text \<open>A publisher error with a blank code makes the task fail before the failure is recorded: the
  event keeps its lease, gets no retry time and is never dead-lettered, whatever its attempts.\<close>

lemma blank_code_is_not_recorded:
  "publish e = Some code \<Longrightarrow> trim code = [] \<Longrightarrow>
     dispatch_task d publish clock e db = Inl InvalidFailure"
  by (simp add: dispatch_task_def mark_failed_def)

text \<open>The delays: doubling from one second, cut at a minute.\<close>

lemma retry_delays:
  "map retry_delay_seconds [1, 2, 3, 4, 5, 6, 7, 8] = [1, 2, 4, 8, 16, 32, 60, 60]"
  by code_simp

end
