(* ===== verification/Identity_Db.thy ===== *)
theory Identity_Db
  imports SNM_Prelude Ip_Addr
begin

text \<open>
  The identity tables of the database (\<open>migrations/0001\<close> to \<open>0005\<close>) as the backend and the identity
  store read and write them: organizations and sites, users, roles with their permissions and
  bindings, sessions with their refresh tokens, service accounts with their credentials.

  A table is the list of its rows. A column that no Rust code reads is left out. Time is in
  microseconds, the precision of \<open>timestamptz\<close>; one clock serves the program and the database.
\<close>

section \<open>Rows\<close>

record organization_row =
  og_id :: uuid
  og_slug :: string
  og_name :: string

record site_row =
  si_id :: uuid
  si_organization_id :: uuid
  si_slug :: string
  si_name :: string

record routing_domain_row =
  rg_id :: uuid
  rg_organization_id :: uuid
  rg_site_id :: uuid
  rg_name :: string
  rg_is_default :: bool

record user_row =
  us_id :: uuid
  us_organization_id :: uuid
  us_email :: string
  us_display_name :: string
  us_status :: string
  us_password_hash :: "string option"
  us_last_login_at :: "timestamp option"

record role_row =
  ro_id :: uuid
  ro_organization_id :: "uuid option"
  ro_name :: string
  ro_is_system :: bool

record permission_row =
  pe_id :: uuid
  pe_code :: string

record binding_row =
  rb_id :: uuid
  rb_organization_id :: uuid
  rb_role_id :: uuid
  rb_user_id :: "uuid option"
  rb_service_account_id :: "uuid option"
  rb_site_id :: "uuid option"

record session_row =
  ss_id :: uuid
  ss_organization_id :: uuid
  ss_user_id :: uuid
  ss_refresh_token_hash :: bytes
  ss_refresh_token_prefix :: string
  ss_expires_at :: timestamp
  ss_revoked_at :: "timestamp option"
  ss_access_revoked_before :: "timestamp option"
  ss_last_used_at :: timestamp
  ss_auth_time :: timestamp
  ss_assurance_level :: string

record refresh_row =
  rt_id :: uuid
  rt_session_id :: uuid
  rt_family_id :: uuid
  rt_generation :: i64
  rt_token_prefix :: string
  rt_token_hash :: bytes
  rt_expires_at :: timestamp
  rt_consumed_at :: "timestamp option"
  rt_revoked_at :: "timestamp option"
  rt_replaced_by_id :: "uuid option"

record service_account_row =
  sa_id :: uuid
  sa_organization_id :: uuid
  sa_name :: string
  sa_status :: string

record service_credential_row =
  sc_id :: uuid
  sc_service_account_id :: uuid
  sc_token_prefix :: string
  sc_token_hash :: bytes
  sc_scopes :: "string list"
  sc_allowed_cidrs :: "(ip_addr \<times> nat) list"
  sc_expires_at :: "timestamp option"
  sc_revoked_at :: "timestamp option"
  sc_last_used_at :: "timestamp option"

record identity_db =
  db_organizations :: "organization_row list"
  db_sites :: "site_row list"
  db_routing_domains :: "routing_domain_row list"
  db_users :: "user_row list"
  db_roles :: "role_row list"
  db_permissions :: "permission_row list"
  db_role_permissions :: "(uuid \<times> uuid) list"
  db_role_bindings :: "binding_row list"
  db_sessions :: "session_row list"
  db_refresh_tokens :: "refresh_row list"
  db_service_accounts :: "service_account_row list"
  db_service_credentials :: "service_credential_row list"

definition empty_identity_db :: identity_db where
  "empty_identity_db = \<lparr>db_organizations = [], db_sites = [], db_routing_domains = [],
     db_users = [], db_roles = [], db_permissions = [], db_role_permissions = [],
     db_role_bindings = [], db_sessions = [], db_refresh_tokens = [],
     db_service_accounts = [], db_service_credentials = []\<rparr>"

section \<open>Permissions through role bindings\<close>

text \<open>
  \<open>SELECT DISTINCT p.code .. JOIN role_permissions .. JOIN permissions .. ORDER BY p.code\<close> over the
  bindings that satisfy a condition. The order is that of the bytes (collation \<open>C\<close>); no
  statement below depends on it.
\<close>

definition codes_of_role :: "identity_db \<Rightarrow> uuid \<Rightarrow> string list" where
  "codes_of_role db role =
     concat (map (\<lambda>(r, p). if r = role
         then map pe_code (filter (\<lambda>x. pe_id x = p) (db_permissions db)) else [])
       (db_role_permissions db))"

definition codes_where :: "identity_db \<Rightarrow> (binding_row \<Rightarrow> bool) \<Rightarrow> string list" where
  "codes_where db cond = sort (remdups (concat
     (map (\<lambda>rb. codes_of_role db (rb_role_id rb)) (filter cond (db_role_bindings db)))))"

lemma codes_of_role_iff:
  "code \<in> set (codes_of_role db role) \<longleftrightarrow> (\<exists>p \<in> set (db_permissions db).
     (role, pe_id p) \<in> set (db_role_permissions db) \<and> pe_code p = code)"
  by (force simp: codes_of_role_def split: if_splits)

lemma codes_where_iff:
  "code \<in> set (codes_where db cond) \<longleftrightarrow>
     (\<exists>rb \<in> set (db_role_bindings db). cond rb \<and> code \<in> set (codes_of_role db (rb_role_id rb)))"
  by (auto simp: codes_where_def)

lemma codes_where_distinct: "distinct (codes_where db cond)" "sorted (codes_where db cond)"
  by (simp_all add: codes_where_def)

text \<open>Only the tables of roles, permissions and bindings matter.\<close>

lemma codes_where_cong:
  "db_permissions db = db_permissions db' \<Longrightarrow> db_role_permissions db = db_role_permissions db'
   \<Longrightarrow> db_role_bindings db = db_role_bindings db' \<Longrightarrow> codes_where db cond = codes_where db' cond"
  by (simp only: codes_where_def codes_of_role_def)

end
