(* ===== verification/Sessions.thy ===== *)
theory Sessions
  imports Identity_Db Token Factors "HOL-Library.Sublist"
begin

text \<open>
  Sessions of the backend (\<open>apps/backend/src/auth.rs\<close>, the service behind the HTTP handlers): login,
  refresh with rotation and reuse detection, logout, authentication of access tokens, and the
  bootstrap of an administrator.

  An operation commits or rolls back one transaction and may still fail after the commit, so it
  returns the new database together with the result. Identifiers, randomness and the clock are
  arguments (\<open>auth_draw\<close>). The rows it reads are locked (\<open>FOR UPDATE\<close>), so operations are atomic
  steps. A statement fails here only when it violates a key or a reference; a lost connection is
  the same error \<open>Unavailable\<close> with the transaction rolled back.
\<close>

section \<open>The service\<close>

datatype auth_error =
    AuthInvalidCredentials | AuthInvalidSession | AuthRefreshReuseDetected | AuthCsrfRejected
  | AuthInvalidRequest | AuthUnavailable

datatype auth_init_error = MissingOrWeakAccessTokenKey | AuthPasswordPolicy | AuthSigningKey

text \<open>
  The fields of \<open>AuthService\<close> after the crates it calls; \<open>sql_lower\<close> is the \<open>lower\<close> of the database,
  \<open>header_value_ok\<close> the check of \<open>HeaderValue::from_str\<close>, \<open>uuid_str\<close> the text of an identifier.
\<close>

record auth_service = token_ops +
  as_passwords :: password_ops
  as_sql_lower :: "string \<Rightarrow> string"
  as_header_value_ok :: "string \<Rightarrow> bool"
  as_uuid_str :: "uuid \<Rightarrow> string"
  as_access_key :: bytes
  as_issuer :: string
  as_audience :: string
  as_cookie_secure :: bool
  as_dummy_password_hash :: string

record login_request =
  lr_organization_slug :: string
  lr_email :: string
  lr_password :: string

record login_user =
  lu_user_id :: uuid
  lu_organization_id :: uuid
  lu_password_hash :: "string option"

record session_identity =
  sn_session_id :: uuid
  sn_user_id :: uuid
  sn_organization_id :: uuid
  sn_permissions :: "string list"

record issued_session =
  is_identity :: session_identity
  is_access_token :: string
  is_refresh_token :: issued_opaque_token
  is_csrf_token :: issued_opaque_token

record auth_draw =
  dr_refresh_random :: bytes
  dr_csrf_random :: bytes
  dr_session_id :: uuid
  dr_family_id :: uuid
  dr_token_id :: uuid
  dr_jti :: uuid

definition access_ttl_seconds :: i64 where "access_ttl_seconds = 10 * 60"
definition refresh_ttl_days :: i64 where "refresh_ttl_days = 30"
definition refresh_prefix :: string where "refresh_prefix = ''snm_rt''"
definition csrf_prefix :: string where "csrf_prefix = ''csrf''"

text \<open>\<open>Duration::days\<close>, \<open>Duration::seconds\<close> and \<open>DateTime::timestamp\<close> on microseconds.\<close>

definition micros_of_seconds :: "int \<Rightarrow> int" where "micros_of_seconds s = s * 1000000"
definition micros_of_days :: "int \<Rightarrow> int" where "micros_of_days d = micros_of_seconds (d * 86400)"
definition unix_seconds :: "timestamp \<Rightarrow> i64" where "unix_seconds t = t div 1000000"

text \<open>
  \<open>from_env\<close>. The environment is a partial map; the signing key is kept only when it has 32 bytes, and
  the dummy hash is made with the default policy.
\<close>

definition auth_from_env ::
  "auth_service \<Rightarrow> bytes \<Rightarrow> (string \<Rightarrow> string option) \<Rightarrow> auth_init_error + auth_service" where
  "auth_from_env crates salt env =
     bindR (ok_or MissingOrWeakAccessTokenKey (env ''SNM_ACCESS_TOKEN_KEY'')) (\<lambda>signing_secret.
     if length signing_secret < 32 then Inl MissingOrWeakAccessTokenKey else
     bindR (map_err (\<lambda>_. AuthSigningKey) (access_token_key_new signing_secret)) (\<lambda>access_key.
     bindR (map_err (\<lambda>_. AuthPasswordPolicy) (hash_password (as_passwords crates) salt
         ''snm dummy password never accepted'' default_password_policy)) (\<lambda>dummy_password_hash.
     Inr (crates\<lparr>as_access_key := access_key,
       as_issuer := unwrap_or ''snm'' (env ''SNM_AUTH_ISSUER''),
       as_audience := unwrap_or ''snm-api'' (env ''SNM_AUTH_AUDIENCE''),
       as_cookie_secure := unwrap_or True (map_option
         (\<lambda>value. to_ascii_lowercase value \<notin> {''0'', ''false'', ''no''})
         (env ''SNM_AUTH_COOKIE_SECURE'')),
       as_dummy_password_hash := dummy_password_hash\<rparr>))))"

section \<open>Queries\<close>

definition load_login_user ::
  "auth_service \<Rightarrow> identity_db \<Rightarrow> string \<Rightarrow> string \<Rightarrow> login_user option" where
  "load_login_user auth db organization_slug email =
     map_option (\<lambda>u. \<lparr>lu_user_id = us_id u, lu_organization_id = us_organization_id u,
         lu_password_hash = us_password_hash u\<rparr>)
       (List.find (\<lambda>u. list_ex (\<lambda>o1. og_id o1 = us_organization_id u \<and> og_slug o1 = organization_slug)
              (db_organizations db)
            \<and> as_sql_lower auth (us_email u) = as_sql_lower auth email
            \<and> us_status u = ''active'') (db_users db))"

definition permissions_for_user :: "identity_db \<Rightarrow> uuid \<Rightarrow> uuid \<Rightarrow> string list" where
  "permissions_for_user db organization_id user_id =
     codes_where db (\<lambda>rb. rb_organization_id rb = organization_id \<and> rb_user_id rb = Some user_id)"

definition session_of :: "identity_db \<Rightarrow> uuid \<Rightarrow> session_row option" where
  "session_of db i = List.find (\<lambda>s. ss_id s = i) (db_sessions db)"

definition issue_access_token ::
  "auth_service \<Rightarrow> uuid \<Rightarrow> session_identity \<Rightarrow> timestamp \<Rightarrow> auth_error + string" where
  "issue_access_token auth jti identity now =
     (let claims = \<lparr>cl_iss = as_issuer auth, cl_aud = as_audience auth,
        cl_sub = sn_user_id identity, cl_org = sn_organization_id identity,
        cl_sid = sn_session_id identity, cl_jti = jti, cl_scopes = sn_permissions identity,
        cl_iat = unix_seconds now, cl_nbf = unix_seconds now,
        cl_exp = unix_seconds (now + micros_of_seconds access_ttl_seconds)\<rparr>
      in map_err (\<lambda>_. AuthUnavailable) (encode_access_token auth claims (as_access_key auth)))"

text \<open>The end of login and of refresh, after the commit: the access token for the session.\<close>

definition issue_session ::
  "auth_service \<Rightarrow> auth_draw \<Rightarrow> timestamp \<Rightarrow> identity_db \<Rightarrow> uuid \<Rightarrow> uuid \<Rightarrow> uuid
     \<Rightarrow> issued_opaque_token \<Rightarrow> issued_opaque_token \<Rightarrow> auth_error + issued_session" where
  "issue_session auth dr now db session_id organization_id user_id refresh csrf =
     (let identity = \<lparr>sn_session_id = session_id, sn_user_id = user_id,
        sn_organization_id = organization_id,
        sn_permissions = permissions_for_user db organization_id user_id\<rparr>
      in bindR (issue_access_token auth (dr_jti dr) identity now) (\<lambda>access_token.
         Inr \<lparr>is_identity = identity, is_access_token = access_token,
              is_refresh_token = refresh, is_csrf_token = csrf\<rparr>))"

definition insert_session :: "session_row \<Rightarrow> identity_db \<Rightarrow> auth_error + identity_db" where
  "insert_session s db =
     (if \<not> list_ex (\<lambda>o1. og_id o1 = ss_organization_id s) (db_organizations db)
         \<or> \<not> list_ex (\<lambda>u. us_id u = ss_user_id s) (db_users db)
      then Inl AuthUnavailable
      else bindR (insert_unless AuthUnavailable (\<lambda>q. ss_id q = ss_id s) s (db_sessions db))
        (\<lambda>rows. Inr (db\<lparr>db_sessions := rows\<rparr>)))"

definition insert_refresh_token :: "refresh_row \<Rightarrow> identity_db \<Rightarrow> auth_error + identity_db" where
  "insert_refresh_token r db =
     (if session_of db (rt_session_id r) = None then Inl AuthUnavailable
      else bindR (insert_unless AuthUnavailable (\<lambda>q. rt_id q = rt_id r
               \<or> rt_token_hash q = rt_token_hash r
               \<or> (rt_family_id q = rt_family_id r \<and> rt_generation q = rt_generation r))
             r (db_refresh_tokens db))
        (\<lambda>rows. Inr (db\<lparr>db_refresh_tokens := rows\<rparr>)))"

definition revoke_family :: "uuid \<Rightarrow> uuid \<Rightarrow> timestamp \<Rightarrow> identity_db \<Rightarrow> identity_db" where
  "revoke_family family_id session_id now db =
     db\<lparr>db_refresh_tokens := upd_where (\<lambda>r. rt_family_id r = family_id)
            (\<lambda>r. r\<lparr>rt_revoked_at := Some (unwrap_or now (rt_revoked_at r))\<rparr>) (db_refresh_tokens db),
        db_sessions := upd_where (\<lambda>s. ss_id s = session_id)
            (\<lambda>s. s\<lparr>ss_revoked_at := Some (unwrap_or now (ss_revoked_at s))\<rparr>) (db_sessions db)\<rparr>"

section \<open>Login\<close>

definition login_transaction ::
  "auth_draw \<Rightarrow> timestamp \<Rightarrow> login_user \<Rightarrow> issued_opaque_token \<Rightarrow> identity_db
     \<Rightarrow> auth_error + identity_db" where
  "login_transaction dr now user refresh db =
     (let expires_at = now + micros_of_days refresh_ttl_days in
      bindR (insert_session \<lparr>ss_id = dr_session_id dr,
          ss_organization_id = lu_organization_id user, ss_user_id = lu_user_id user,
          ss_refresh_token_hash = io_hash refresh, ss_refresh_token_prefix = io_prefix refresh,
          ss_expires_at = expires_at, ss_revoked_at = None, ss_access_revoked_before = None,
          ss_last_used_at = now, ss_auth_time = now, ss_assurance_level = ''password''\<rparr> db) (\<lambda>db.
      bindR (insert_refresh_token \<lparr>rt_id = dr_token_id dr, rt_session_id = dr_session_id dr,
          rt_family_id = dr_family_id dr, rt_generation = 0, rt_token_prefix = io_prefix refresh,
          rt_token_hash = io_hash refresh, rt_expires_at = expires_at, rt_consumed_at = None,
          rt_revoked_at = None, rt_replaced_by_id = None\<rparr> db) (\<lambda>db.
      Inr (db\<lparr>db_users := upd_where (\<lambda>u. us_id u = lu_user_id user)
          (\<lambda>u. u\<lparr>us_last_login_at := Some now\<rparr>) (db_users db)\<rparr>))))"

definition check_credentials ::
  "auth_service \<Rightarrow> identity_db \<Rightarrow> login_request \<Rightarrow> auth_error + login_user" where
  "check_credentials auth db request =
     (if length (lr_organization_slug request) > 128 \<or> length (lr_email request) > 320
         \<or> length (lr_password request) > 1024
         \<or> trim (lr_organization_slug request) = [] \<or> trim (lr_email request) = []
      then Inl AuthInvalidCredentials
      else (let found = load_login_user auth db (lr_organization_slug request) (lr_email request);
                encoded = unwrap_or (as_dummy_password_hash auth) (Option.bind found lu_password_hash);
                verified = (case verify_password (as_passwords auth) (lr_password request) encoded of
                    Inl _ \<Rightarrow> False | Inr b \<Rightarrow> b)
            in bindR (ok_or AuthInvalidCredentials found) (\<lambda>user.
               if \<not> verified \<or> lu_password_hash user = None then Inl AuthInvalidCredentials
               else Inr user)))"

definition login ::
  "auth_service \<Rightarrow> auth_draw \<Rightarrow> timestamp \<Rightarrow> login_request \<Rightarrow> identity_db
     \<Rightarrow> identity_db \<times> (auth_error + issued_session)" where
  "login auth dr now request db =
     (case bindR (check_credentials auth db request) (\<lambda>user.
           bindR (map_err (\<lambda>_. AuthUnavailable)
               (issue_opaque_token auth (dr_refresh_random dr) refresh_prefix)) (\<lambda>refresh.
           bindR (map_err (\<lambda>_. AuthUnavailable)
               (issue_opaque_token auth (dr_csrf_random dr) csrf_prefix)) (\<lambda>csrf.
           bindR (login_transaction dr now user refresh db) (\<lambda>db'.
           Inr (db', user, refresh, csrf))))) of
        Inl e \<Rightarrow> (db, Inl e)
      | Inr (db', user, refresh, csrf) \<Rightarrow>
          (db', issue_session auth dr now db' (dr_session_id dr) (lu_organization_id user)
                  (lu_user_id user) refresh csrf))"

section \<open>Refresh and logout\<close>

text \<open>The row locked by refresh: the token with the presented hash, joined with its session.\<close>

definition locked_refresh :: "identity_db \<Rightarrow> bytes \<Rightarrow> (refresh_row \<times> session_row) option" where
  "locked_refresh db presented_hash =
     (case List.find (\<lambda>r. rt_token_hash r = presented_hash) (db_refresh_tokens db) of
        None \<Rightarrow> None
      | Some r \<Rightarrow> map_option (Pair r) (session_of db (rt_session_id r)))"

definition rotate_transaction ::
  "auth_draw \<Rightarrow> timestamp \<Rightarrow> refresh_row \<Rightarrow> session_row \<Rightarrow> issued_opaque_token \<Rightarrow> identity_db
     \<Rightarrow> auth_error + identity_db" where
  "rotate_transaction dr now r s next_refresh db =
     bindR (insert_refresh_token \<lparr>rt_id = dr_token_id dr, rt_session_id = ss_id s,
         rt_family_id = rt_family_id r, rt_generation = rt_generation r + 1,
         rt_token_prefix = io_prefix next_refresh, rt_token_hash = io_hash next_refresh,
         rt_expires_at = ss_expires_at s, rt_consumed_at = None, rt_revoked_at = None,
         rt_replaced_by_id = None\<rparr> db) (\<lambda>db.
     Inr (db\<lparr>db_refresh_tokens := upd_where (\<lambda>q. rt_id q = rt_id r)
              (\<lambda>q. q\<lparr>rt_consumed_at := Some now, rt_replaced_by_id := Some (dr_token_id dr)\<rparr>)
              (db_refresh_tokens db),
            db_sessions := upd_where (\<lambda>q. ss_id q = ss_id s)
              (\<lambda>q. q\<lparr>ss_refresh_token_hash := io_hash next_refresh,
                  ss_refresh_token_prefix := io_prefix next_refresh, ss_last_used_at := now\<rparr>)
              (db_sessions db)\<rparr>))"

definition refresh ::
  "auth_service \<Rightarrow> auth_draw \<Rightarrow> timestamp \<Rightarrow> bytes \<Rightarrow> identity_db
     \<Rightarrow> identity_db \<times> (auth_error + issued_session)" where
  "refresh auth dr now presented db =
     (let presented_hash = hash_opaque_token auth presented in
      case bindR (map_err (\<lambda>_. AuthUnavailable)
               (issue_opaque_token auth (dr_refresh_random dr) refresh_prefix)) (\<lambda>next_refresh.
           bindR (map_err (\<lambda>_. AuthUnavailable)
               (issue_opaque_token auth (dr_csrf_random dr) csrf_prefix)) (\<lambda>csrf.
           bindR (ok_or AuthInvalidSession (locked_refresh db presented_hash)) (\<lambda>(r, s).
           Inr (next_refresh, csrf, r, s)))) of
        Inl e \<Rightarrow> (db, Inl e)
      | Inr (next_refresh, csrf, r, s) \<Rightarrow>
          if rt_consumed_at r \<noteq> None \<or> rt_revoked_at r \<noteq> None \<or> ss_revoked_at s \<noteq> None
          then (revoke_family (rt_family_id r) (ss_id s) now db, Inl AuthRefreshReuseDetected)
          else if rt_expires_at r \<le> now \<or> ss_expires_at s \<le> now
          then (revoke_family (rt_family_id r) (ss_id s) now db, Inl AuthInvalidSession)
          else (case rotate_transaction dr now r s next_refresh db of
                  Inl e \<Rightarrow> (db, Inl e)
                | Inr db' \<Rightarrow> (db', issue_session auth dr now db' (ss_id s) (ss_organization_id s)
                                    (ss_user_id s) next_refresh csrf)))"

definition logout ::
  "auth_service \<Rightarrow> timestamp \<Rightarrow> bytes \<Rightarrow> identity_db \<Rightarrow> identity_db" where
  "logout auth now presented db =
     (case List.find (\<lambda>r. rt_token_hash r = hash_opaque_token auth presented) (db_refresh_tokens db) of
        None \<Rightarrow> db
      | Some r \<Rightarrow> revoke_family (rt_family_id r) (rt_session_id r) now db)"

section \<open>Authentication of access tokens\<close>

definition authenticate_access ::
  "auth_service \<Rightarrow> timestamp \<Rightarrow> string \<Rightarrow> identity_db \<Rightarrow> auth_error + session_identity" where
  "authenticate_access auth now token db =
     bindR (map_err (\<lambda>_. AuthInvalidSession) (decode_access_token auth token (as_access_key auth)
         (unix_seconds now) (as_issuer auth) (as_audience auth))) (\<lambda>claims.
     bindR (ok_or AuthInvalidSession (session_of db (cl_sid claims))) (\<lambda>s.
     if ss_user_id s \<noteq> cl_sub claims \<or> ss_organization_id s \<noteq> cl_org claims
        \<or> ss_revoked_at s \<noteq> None \<or> ss_expires_at s \<le> now
        \<or> (case ss_access_revoked_before s of None \<Rightarrow> False
           | Some cutoff \<Rightarrow> cl_iat claims \<le> unix_seconds cutoff)
     then Inl AuthInvalidSession
     else Inr \<lparr>sn_session_id = cl_sid claims, sn_user_id = ss_user_id s,
            sn_organization_id = ss_organization_id s,
            sn_permissions = permissions_for_user db (ss_organization_id s) (ss_user_id s)\<rparr>))"

section \<open>The abstract sessions\<close>

text \<open>
  What the tables stand for: each session has one family of refresh tokens, the list of the hashes
  issued so far, of which only the last can be exchanged, and only while the family is alive.
\<close>

record token_family =
  fa_tokens :: "bytes list"
  fa_alive :: bool
  fa_expires_at :: timestamp

type_synonym families = "uuid \<Rightarrow> token_family option"

datatype refresh_outcome = Rotated | Reused | Expired

definition family_outcome :: "timestamp \<Rightarrow> bytes \<Rightarrow> token_family \<Rightarrow> refresh_outcome" where
  "family_outcome now h f =
     (if \<not> fa_alive f \<or> h \<noteq> last (fa_tokens f) then Reused
      else if fa_expires_at f \<le> now then Expired else Rotated)"

definition family_present :: "timestamp \<Rightarrow> bytes \<Rightarrow> bytes \<Rightarrow> token_family \<Rightarrow> token_family" where
  "family_present now h next_hash f =
     (if h \<notin> set (fa_tokens f) then f
      else if family_outcome now h f = Rotated then f\<lparr>fa_tokens := fa_tokens f @ [next_hash]\<rparr>
      else f\<lparr>fa_alive := False\<rparr>)"

definition family_kill :: "bytes \<Rightarrow> token_family \<Rightarrow> token_family" where
  "family_kill h f = (if h \<in> set (fa_tokens f) then f\<lparr>fa_alive := False\<rparr> else f)"

definition rows_of :: "identity_db \<Rightarrow> uuid \<Rightarrow> refresh_row list" where
  "rows_of db i = filter (\<lambda>r. rt_session_id r = i) (db_refresh_tokens db)"

definition families_of :: "identity_db \<Rightarrow> families" where
  "families_of db i = map_option (\<lambda>s. \<lparr>fa_tokens = map rt_token_hash (rows_of db i),
     fa_alive = (ss_revoked_at s = None), fa_expires_at = ss_expires_at s\<rparr>) (session_of db i)"

section \<open>The invariant\<close>

text \<open>The rows of one session, in the order of their insertion: generations count up from 0, and
  exactly the last one has not been consumed.\<close>

definition rotation_chain :: "refresh_row list \<Rightarrow> bool" where
  "rotation_chain rs \<longleftrightarrow> (\<forall>k < length rs. rt_generation (rs ! k) = int k
     \<and> (rt_consumed_at (rs ! k) = None \<longleftrightarrow> Suc k = length rs))"

definition row_fits :: "identity_db \<Rightarrow> refresh_row \<Rightarrow> bool" where
  "row_fits db r \<longleftrightarrow> (\<exists>s. session_of db (rt_session_id r) = Some s
     \<and> (rt_revoked_at r = None \<longleftrightarrow> ss_revoked_at s = None) \<and> rt_expires_at r = ss_expires_at s)"

definition one_family :: "refresh_row list \<Rightarrow> bool" where
  "one_family rs \<longleftrightarrow> (\<forall>r \<in> set rs. \<forall>q \<in> set rs.
     rt_family_id r = rt_family_id q \<longleftrightarrow> rt_session_id r = rt_session_id q)"

definition session_inv :: "identity_db \<Rightarrow> bool" where
  "session_inv db \<longleftrightarrow> distinct (map ss_id (db_sessions db))
     \<and> distinct (map rt_id (db_refresh_tokens db))
     \<and> distinct (map rt_token_hash (db_refresh_tokens db))
     \<and> (\<forall>i. rotation_chain (rows_of db i))
     \<and> one_family (db_refresh_tokens db)
     \<and> (\<forall>r \<in> set (db_refresh_tokens db). row_fits db r)
     \<and> (\<forall>s \<in> set (db_sessions db). rows_of db (ss_id s) \<noteq> [])"

lemma session_invD:
  assumes "session_inv db"
  shows "distinct (map ss_id (db_sessions db))" and "distinct (map rt_id (db_refresh_tokens db))"
    and "distinct (map rt_token_hash (db_refresh_tokens db))" and "rotation_chain (rows_of db i)"
    and "one_family (db_refresh_tokens db)"
    and "r \<in> set (db_refresh_tokens db) \<Longrightarrow> row_fits db r"
    and "session_of db i = Some s \<Longrightarrow> rows_of db i \<noteq> []"
  using assms by (auto simp: session_inv_def session_of_def dest: find_Some_set)

lemma empty_session_inv: "db_sessions db = [] \<Longrightarrow> db_refresh_tokens db = [] \<Longrightarrow> session_inv db"
  by (simp add: session_inv_def rows_of_def rotation_chain_def one_family_def)

lemma set_rows_of: "r \<in> set (rows_of db i) \<longleftrightarrow> r \<in> set (db_refresh_tokens db) \<and> rt_session_id r = i"
  by (auto simp: rows_of_def)

lemma rows_of_append:
  "filter (\<lambda>r. rt_session_id r = i) (xs @ [r])
   = filter (\<lambda>r. rt_session_id r = i) xs @ (if rt_session_id r = i then [r] else [])"
  by simp

lemma filter_upd_where:
  "(\<And>r. p r \<Longrightarrow> P (f r) = P r) \<Longrightarrow> filter P (upd_where p f rows) = upd_where p f (filter P rows)"
  by (induction rows) (auto simp: upd_where_def)

lemma rotation_chain_upd:
  assumes "\<And>r. rt_generation (f r) = rt_generation r" and "\<And>r. rt_consumed_at (f r) = rt_consumed_at r"
  shows "rotation_chain (upd_where p f rs) = rotation_chain rs"
  using assms by (simp add: rotation_chain_def upd_where_def)

lemma one_family_upd:
  assumes "\<And>r. rt_family_id (f r) = rt_family_id r" and "\<And>r. rt_session_id (f r) = rt_session_id r"
  shows "one_family (upd_where p f rs) = one_family rs"
proof -
  have pairs: "one_family rs \<longleftrightarrow> (\<forall>a \<in> set (map (\<lambda>r. (rt_family_id r, rt_session_id r)) rs).
      \<forall>b \<in> set (map (\<lambda>r. (rt_family_id r, rt_session_id r)) rs). fst a = fst b \<longleftrightarrow> snd a = snd b)" for rs
    by (simp add: one_family_def)
  have "map (\<lambda>r. (rt_family_id r, rt_session_id r)) (upd_where p f rs)
      = map (\<lambda>r. (rt_family_id r, rt_session_id r)) rs"
    by (rule map_upd_where) (simp add: assms)
  then show ?thesis by (simp only: pairs)
qed

lemma one_family_append:
  assumes "one_family rs" and "\<And>q. q \<in> set rs \<Longrightarrow> rt_family_id q = rt_family_id r \<longleftrightarrow> rt_session_id q = rt_session_id r"
  shows "one_family (rs @ [r])"
  using assms unfolding one_family_def by (simp add: eq_commute [of "rt_family_id r"] eq_commute [of "rt_session_id r"])

lemma rotation_chain_single:
  "rt_generation r = 0 \<Longrightarrow> rt_consumed_at r = None \<Longrightarrow> rotation_chain [r]"
  by (simp add: rotation_chain_def)

text \<open>Rotation appends a row of the next generation and consumes the one before it.\<close>

lemma rotation_chain_rotate:
  assumes rs: "rotation_chain rs" "rs \<noteq> []" and ids: "distinct (map rt_id rs)"
    and new: "rt_generation r = rt_generation (last rs) + 1" "rt_consumed_at r = None"
      "rt_id r \<noteq> rt_id (last rs)"
    and f: "\<And>q. rt_generation (f q) = rt_generation q" "\<And>q. rt_consumed_at (f q) \<noteq> None"
  shows "rotation_chain (upd_where (\<lambda>q. rt_id q = rt_id (last rs)) f (rs @ [r]))"
proof -
  have last: "last rs = rs ! (length rs - 1)" using rs(2) by (rule last_conv_nth)
  have key: "rt_id (rs ! k) = rt_id (last rs) \<longleftrightarrow> Suc k = length rs" if "k < length rs" for k
    using that ids rs(2) nth_eq_iff_index_eq [OF ids, of k "length rs - 1"] by (auto simp: last)
  have gen: "rt_generation r = int (length rs)"
    using rs new(1) by (simp add: rotation_chain_def last of_nat_diff Suc_leI)
  show ?thesis
    using rs(1) key gen new(2,3) f
    by (auto simp: rotation_chain_def upd_where_def nth_append less_Suc_eq)
qed

section \<open>Revoking a family\<close>

lemma session_of_upd:
  assumes "\<And>s. ss_id s = i \<Longrightarrow> ss_id (f s) = i"
    and "db_sessions db' = upd_where (\<lambda>s. ss_id s = i) f (db_sessions db)"
  shows "session_of db' j = (if j = i then map_option f (session_of db i) else session_of db j)"
  unfolding session_of_def assms(2) by (rule find_upd_where_key) (rule assms(1))

lemma revoke_sessions:
  "session_of (revoke_family fam i now db) j
   = (if j = i then map_option (\<lambda>s. s\<lparr>ss_revoked_at := Some (unwrap_or now (ss_revoked_at s))\<rparr>)
        (session_of db i) else session_of db j)"
  by (rule session_of_upd) (simp_all add: revoke_family_def)

lemma revoke_rows:
  "rows_of (revoke_family fam i now db) j = upd_where (\<lambda>r. rt_family_id r = fam)
     (\<lambda>r. r\<lparr>rt_revoked_at := Some (unwrap_or now (rt_revoked_at r))\<rparr>) (rows_of db j)"
  by (simp add: rows_of_def revoke_family_def filter_upd_where)

lemma revoke_fits:
  assumes inv: "session_inv db" and r: "r \<in> set (db_refresh_tokens db)"
    and q: "q \<in> set (db_refresh_tokens (revoke_family (rt_family_id r) (rt_session_id r) now db))"
  shows "row_fits (revoke_family (rt_family_id r) (rt_session_id r) now db) q"
proof -
  let ?db = "revoke_family (rt_family_id r) (rt_session_id r) now db"
  obtain q0 where q0: "q0 \<in> set (db_refresh_tokens db)"
    "q = (if rt_family_id q0 = rt_family_id r
          then q0\<lparr>rt_revoked_at := Some (unwrap_or now (rt_revoked_at q0))\<rparr> else q0)"
    using q by (auto simp: revoke_family_def set_upd_where)
  have fam: "rt_family_id q0 = rt_family_id r \<longleftrightarrow> rt_session_id q0 = rt_session_id r"
    using session_invD(5) [OF inv] q0(1) r unfolding one_family_def by blast
  obtain s where s: "session_of db (rt_session_id q0) = Some s"
    "rt_revoked_at q0 = None \<longleftrightarrow> ss_revoked_at s = None" "rt_expires_at q0 = ss_expires_at s"
    using session_invD(6) [OF inv q0(1)] by (auto simp: row_fits_def)
  show ?thesis
  proof (cases "rt_session_id q0 = rt_session_id r")
    case True
    then show ?thesis using fam s q0(2) by (simp add: row_fits_def revoke_sessions)
  next
    case False
    then show ?thesis using fam s q0(2) by (simp add: row_fits_def revoke_sessions)
  qed
qed

lemma revoke_inv:
  assumes inv: "session_inv db" and r: "r \<in> set (db_refresh_tokens db)"
  shows "session_inv (revoke_family (rt_family_id r) (rt_session_id r) now db)"
proof -
  let ?db = "revoke_family (rt_family_id r) (rt_session_id r) now db"
  have keys: "map ss_id (db_sessions ?db) = map ss_id (db_sessions db)"
    "map rt_id (db_refresh_tokens ?db) = map rt_id (db_refresh_tokens db)"
    "map rt_token_hash (db_refresh_tokens ?db) = map rt_token_hash (db_refresh_tokens db)"
    by (simp_all add: revoke_family_def map_upd_where)
  have "one_family (db_refresh_tokens ?db)"
    using session_invD(5) [OF inv] by (simp add: revoke_family_def one_family_upd)
  moreover have "rotation_chain (rows_of ?db i)" for i
    using session_invD(4) [OF inv, of i] by (simp add: revoke_rows rotation_chain_upd)
  moreover have "rows_of ?db (ss_id s) \<noteq> []" if s: "s \<in> set (db_sessions ?db)" for s
  proof -
    have "ss_id s \<in> ss_id ` set (db_sessions db)"
      using s keys(1) by (metis image_eqI list.set_map)
    then obtain s0 where "s0 \<in> set (db_sessions db)" "ss_id s0 = ss_id s" by auto
    then have "rows_of db (ss_id s) \<noteq> []" using inv unfolding session_inv_def by metis
    then show ?thesis by (simp add: revoke_rows upd_where_def)
  qed
  ultimately show ?thesis
    using session_invD(1-3) [OF inv] revoke_fits [OF inv r] unfolding session_inv_def keys by blast
qed

lemma revoke_families:
  "families_of (revoke_family fam i now db) j
   = (if j = i then map_option (fa_alive_update (\<lambda>_. False)) (families_of db j) else families_of db j)"
proof -
  have "map rt_token_hash (rows_of (revoke_family fam i now db) j) = map rt_token_hash (rows_of db j)"
    by (simp add: revoke_rows map_upd_where)
  then show ?thesis
    by (auto simp: families_of_def revoke_sessions option.map_comp comp_def)
qed

text \<open>A presented hash names one row, in one family.\<close>

lemma hash_in_family:
  assumes inv: "session_inv db" and r: "r \<in> set (db_refresh_tokens db)"
    and f: "families_of db i = Some f"
  shows "rt_token_hash r \<in> set (fa_tokens f) \<longleftrightarrow> rt_session_id r = i"
proof -
  have tokens: "fa_tokens f = map rt_token_hash (rows_of db i)"
    using f by (auto simp: families_of_def)
  show ?thesis
  proof
    assume "rt_token_hash r \<in> set (fa_tokens f)"
    then obtain q where q: "q \<in> set (rows_of db i)" "rt_token_hash q = rt_token_hash r"
      by (auto simp: tokens)
    then have "q = r"
      using distinct_key_unique [OF session_invD(3) [OF inv]] r by (metis set_rows_of)
    with q show "rt_session_id r = i" by (simp add: set_rows_of)
  next
    assume "rt_session_id r = i"
    with r have "r \<in> set (rows_of db i)" by (simp add: set_rows_of)
    then show "rt_token_hash r \<in> set (fa_tokens f)" by (simp add: tokens)
  qed
qed

lemma revoke_families_kill:
  assumes inv: "session_inv db" and r: "r \<in> set (db_refresh_tokens db)" "rt_token_hash r = h"
  shows "families_of (revoke_family (rt_family_id r) (rt_session_id r) now db)
    = map_option (family_kill h) \<circ> families_of db"
proof
  fix i
  show "families_of (revoke_family (rt_family_id r) (rt_session_id r) now db) i
    = (map_option (family_kill h) \<circ> families_of db) i"
  proof (cases "families_of db i")
    case (Some f)
    then show ?thesis
      using hash_in_family [OF inv r(1) Some] r(2)
      by (cases "rt_session_id r = i") (auto simp: revoke_families family_kill_def)
  qed (auto simp: revoke_families)
qed

section \<open>Starting and rotating a family\<close>

lemma insert_session_effect:
  assumes "insert_session s db = Inr db'"
  shows "db' = db\<lparr>db_sessions := db_sessions db @ [s]\<rparr>" and "session_of db (ss_id s) = None"
  using assms
  by (auto simp: insert_session_def result_simps table_simps session_of_def split: if_splits)

lemma insert_refresh_effect:
  assumes "insert_refresh_token r db = Inr db'"
  shows "db' = db\<lparr>db_refresh_tokens := db_refresh_tokens db @ [r]\<rparr>"
    and "session_of db (rt_session_id r) \<noteq> None"
    and "\<forall>q \<in> set (db_refresh_tokens db). rt_id q \<noteq> rt_id r \<and> rt_token_hash q \<noteq> rt_token_hash r
      \<and> (rt_family_id q = rt_family_id r \<longrightarrow> rt_generation q \<noteq> rt_generation r)"
  using assms
  by (auto simp: insert_refresh_token_def result_simps table_simps split: if_splits)

text \<open>The row of generation 0 makes the family of a new session fresh.\<close>

lemma family_has_root:
  assumes inv: "session_inv db" and r: "r \<in> set (db_refresh_tokens db)"
  shows "\<exists>q \<in> set (db_refresh_tokens db). rt_family_id q = rt_family_id r \<and> rt_generation q = 0"
proof -
  let ?rs = "rows_of db (rt_session_id r)"
  have "r \<in> set ?rs" using r by (simp add: set_rows_of)
  then have ne: "0 < length ?rs" by auto
  then have "rt_generation (?rs ! 0) = 0"
    using session_invD(4) [OF inv, of "rt_session_id r"] by (auto simp: rotation_chain_def)
  moreover have q: "?rs ! 0 \<in> set (db_refresh_tokens db) \<and> rt_session_id (?rs ! 0) = rt_session_id r"
    using nth_mem [OF ne] by (simp add: set_rows_of)
  moreover have "rt_family_id (?rs ! 0) = rt_family_id r"
    using session_invD(5) [OF inv] q r unfolding one_family_def by blast
  ultimately show ?thesis by blast
qed

lemma login_effect:
  assumes "login_transaction dr now user tok db = Inr db'"
  obtains s r where "db_sessions db' = db_sessions db @ [s]"
    and "db_refresh_tokens db' = db_refresh_tokens db @ [r]"
    and "ss_id s = dr_session_id dr" and "ss_revoked_at s = None"
    and "ss_expires_at s = now + micros_of_days refresh_ttl_days"
    and "ss_organization_id s = lu_organization_id user" and "ss_user_id s = lu_user_id user"
    and "ss_access_revoked_before s = None"
    and "rt_session_id r = dr_session_id dr" and "rt_family_id r = dr_family_id dr"
    and "rt_token_hash r = io_hash tok" and "rt_generation r = 0" and "rt_consumed_at r = None"
    and "rt_revoked_at r = None" and "rt_expires_at r = ss_expires_at s"
    and "session_of db (dr_session_id dr) = None"
    and "\<forall>q \<in> set (db_refresh_tokens db). rt_id q \<noteq> rt_id r \<and> rt_token_hash q \<noteq> rt_token_hash r
      \<and> (rt_family_id q = rt_family_id r \<longrightarrow> rt_generation q \<noteq> rt_generation r)"
    and "db_role_bindings db' = db_role_bindings db"
    and "db_role_permissions db' = db_role_permissions db" and "db_permissions db' = db_permissions db"
proof -
  obtain db1 db2 where 1: "insert_session \<lparr>ss_id = dr_session_id dr,
      ss_organization_id = lu_organization_id user, ss_user_id = lu_user_id user,
      ss_refresh_token_hash = io_hash tok, ss_refresh_token_prefix = io_prefix tok,
      ss_expires_at = now + micros_of_days refresh_ttl_days, ss_revoked_at = None,
      ss_access_revoked_before = None, ss_last_used_at = now, ss_auth_time = now,
      ss_assurance_level = ''password''\<rparr> db = Inr db1" (is "insert_session ?s db = _")
    and 2: "insert_refresh_token \<lparr>rt_id = dr_token_id dr, rt_session_id = dr_session_id dr,
      rt_family_id = dr_family_id dr, rt_generation = 0, rt_token_prefix = io_prefix tok,
      rt_token_hash = io_hash tok, rt_expires_at = now + micros_of_days refresh_ttl_days,
      rt_consumed_at = None, rt_revoked_at = None, rt_replaced_by_id = None\<rparr> db1 = Inr db2"
      (is "insert_refresh_token ?r db1 = _")
    and 3: "db' = db2\<lparr>db_users := upd_where (\<lambda>u. us_id u = lu_user_id user)
          (\<lambda>u. u\<lparr>us_last_login_at := Some now\<rparr>) (db_users db2)\<rparr>"
    using assms unfolding login_transaction_def Let_def bindR_Inr_iff sum.inject by blast
  note s = insert_session_effect [OF 1] and r = insert_refresh_effect [OF 2]
  show thesis by (rule that [of ?s ?r]) (use s r 3 in simp_all)
qed

lemma login_inv:
  assumes inv: "session_inv db" and login: "login_transaction dr now user tok db = Inr db'"
  shows "session_inv db'"
    and "families_of db' = (families_of db)(dr_session_id dr \<mapsto> \<lparr>fa_tokens = [io_hash tok],
      fa_alive = True, fa_expires_at = now + micros_of_days refresh_ttl_days\<rparr>)"
proof -
  obtain s r where eff: "db_sessions db' = db_sessions db @ [s]"
    "db_refresh_tokens db' = db_refresh_tokens db @ [r]"
    and s: "ss_id s = dr_session_id dr" "ss_revoked_at s = None"
      "ss_expires_at s = now + micros_of_days refresh_ttl_days"
    and r: "rt_session_id r = dr_session_id dr" "rt_family_id r = dr_family_id dr"
      "rt_token_hash r = io_hash tok" "rt_generation r = 0" "rt_consumed_at r = None"
      "rt_revoked_at r = None" "rt_expires_at r = ss_expires_at s"
    and new: "session_of db (dr_session_id dr) = None"
    and fresh: "\<forall>q \<in> set (db_refresh_tokens db). rt_id q \<noteq> rt_id r \<and> rt_token_hash q \<noteq> rt_token_hash r
      \<and> (rt_family_id q = rt_family_id r \<longrightarrow> rt_generation q \<noteq> rt_generation r)"
    using login_effect [OF login] by metis
  have other: "rt_session_id q \<noteq> rt_session_id r \<and> rt_family_id q \<noteq> rt_family_id r"
    if "q \<in> set (db_refresh_tokens db)" for q
  proof -
    have "rt_session_id q \<noteq> rt_session_id r"
      using session_invD(6) [OF inv that] new r(1) by (auto simp: row_fits_def)
    moreover have "rt_family_id q \<noteq> rt_family_id r"
      using family_has_root [OF inv that] fresh r(4) by metis
    ultimately show ?thesis ..
  qed
  then have none: "rows_of db (dr_session_id dr) = []"
    using r(1) by (auto simp: rows_of_def filter_empty_conv)
  have rows: "rows_of db' i = (if i = dr_session_id dr then [r] else rows_of db i)" for i
    using none r(1) by (simp add: rows_of_def eff(2))
  have ss: "session_of db' i = (if i = dr_session_id dr then Some s else session_of db i)" for i
    using new s(1) find_append_new [of "db_sessions db" "\<lambda>s. ss_id s = dr_session_id dr" s]
    by (simp add: session_of_def eff(1) find_append_other find_None_set)
  have "row_fits db' q" if "q \<in> set (db_refresh_tokens db')" for q
    using that other [of q] session_invD(6) [OF inv, of q] s r
    by (auto simp: eff(2) row_fits_def ss)
  moreover have "rotation_chain (rows_of db' i)" for i
    using session_invD(4) [OF inv, of i] r by (simp add: rows rotation_chain_single)
  moreover have "one_family (db_refresh_tokens db')"
    using one_family_append [OF session_invD(5) [OF inv]] other by (simp add: eff(2))
  moreover have "distinct (map ss_id (db_sessions db'))"
    using session_invD(1) [OF inv] new s(1) by (auto simp: eff(1) session_of_def find_None_set)
  moreover have "distinct (map rt_id (db_refresh_tokens db'))"
    "distinct (map rt_token_hash (db_refresh_tokens db'))"
    using session_invD(2,3) [OF inv] fresh by (auto simp: eff(2))
  moreover have "rows_of db' (ss_id q) \<noteq> []" if "q \<in> set (db_sessions db')" for q
    using that inv s(1) by (auto simp: rows eff(1) session_inv_def)
  ultimately show "session_inv db'" unfolding session_inv_def by blast
  show "families_of db' = (families_of db)(dr_session_id dr \<mapsto> \<lparr>fa_tokens = [io_hash tok],
      fa_alive = True, fa_expires_at = now + micros_of_days refresh_ttl_days\<rparr>)"
    using s r(3) by (auto simp: families_of_def ss rows)
qed

lemma locked_refreshD:
  assumes "locked_refresh db h = Some (r, s)"
  shows "r \<in> set (db_refresh_tokens db)" and "rt_token_hash r = h"
    and "session_of db (rt_session_id r) = Some s" and "ss_id s = rt_session_id r"
  using assms
  by (auto simp: locked_refresh_def session_of_def split: option.splits dest: find_Some_set)

lemma locked_refresh_None:
  assumes "session_inv db" and "locked_refresh db h = None"
  shows "\<forall>r \<in> set (db_refresh_tokens db). rt_token_hash r \<noteq> h"
  using assms session_invD(6) [OF assms(1)]
  by (fastforce simp: locked_refresh_def find_None_set row_fits_def split: option.splits
      dest: find_Some_set)

lemma rotation_effect:
  assumes "rotate_transaction dr now r s tok db = Inr db'"
  obtains n f g where "db_refresh_tokens db' =
      upd_where (\<lambda>q. rt_id q = rt_id r) f (db_refresh_tokens db @ [n])"
    and "f = (\<lambda>q. q\<lparr>rt_consumed_at := Some now, rt_replaced_by_id := Some (dr_token_id dr)\<rparr>)"
    and "db_sessions db' = upd_where (\<lambda>q. ss_id q = ss_id s) g (db_sessions db)"
    and "\<And>q. ss_id (g q) = ss_id q \<and> ss_revoked_at (g q) = ss_revoked_at q
      \<and> ss_expires_at (g q) = ss_expires_at q"
    and "rt_session_id n = ss_id s" and "rt_family_id n = rt_family_id r"
    and "rt_generation n = rt_generation r + 1" and "rt_token_hash n = io_hash tok"
    and "rt_consumed_at n = None" and "rt_revoked_at n = None" and "rt_expires_at n = ss_expires_at s"
    and "\<forall>q \<in> set (db_refresh_tokens db). rt_id q \<noteq> rt_id n \<and> rt_token_hash q \<noteq> rt_token_hash n"
proof -
  obtain db1 where 1: "insert_refresh_token \<lparr>rt_id = dr_token_id dr, rt_session_id = ss_id s,
         rt_family_id = rt_family_id r, rt_generation = rt_generation r + 1,
         rt_token_prefix = io_prefix tok, rt_token_hash = io_hash tok,
         rt_expires_at = ss_expires_at s, rt_consumed_at = None, rt_revoked_at = None,
         rt_replaced_by_id = None\<rparr> db = Inr db1" (is "insert_refresh_token ?n db = _")
    and 2: "db' = db1\<lparr>db_refresh_tokens := upd_where (\<lambda>q. rt_id q = rt_id r)
              (\<lambda>q. q\<lparr>rt_consumed_at := Some now, rt_replaced_by_id := Some (dr_token_id dr)\<rparr>)
              (db_refresh_tokens db1),
            db_sessions := upd_where (\<lambda>q. ss_id q = ss_id s)
              (\<lambda>q. q\<lparr>ss_refresh_token_hash := io_hash tok,
                  ss_refresh_token_prefix := io_prefix tok, ss_last_used_at := now\<rparr>)
              (db_sessions db1)\<rparr>"
    using assms unfolding rotate_transaction_def bindR_Inr_iff sum.inject by blast
  note n = insert_refresh_effect [OF 1]
  show thesis
    by (rule that [of "\<lambda>q. q\<lparr>rt_consumed_at := Some now, rt_replaced_by_id := Some (dr_token_id dr)\<rparr>" ?n
          "\<lambda>q. q\<lparr>ss_refresh_token_hash := io_hash tok, ss_refresh_token_prefix := io_prefix tok,
             ss_last_used_at := now\<rparr>"])
      (use n 2 in simp_all)
qed

text \<open>The row that has not been consumed is the last of its session.\<close>

lemma unconsumed_is_last:
  assumes inv: "session_inv db" and r: "r \<in> set (db_refresh_tokens db)"
  shows "rt_consumed_at r = None \<longleftrightarrow> r = last (rows_of db (rt_session_id r))"
    and "rt_token_hash r = last (map rt_token_hash (rows_of db (rt_session_id r)))
      \<longleftrightarrow> rt_consumed_at r = None"
proof -
  let ?rs = "rows_of db (rt_session_id r)"
  have rin: "r \<in> set ?rs" using r by (simp add: set_rows_of)
  then obtain k where k: "k < length ?rs" "?rs ! k = r" by (metis in_set_conv_nth)
  have ne: "?rs \<noteq> []" using k(1) by auto
  have last: "last ?rs = ?rs ! (length ?rs - 1)" using ne by (rule last_conv_nth)
  have ids: "distinct (map rt_token_hash ?rs)"
    using session_invD(3) [OF inv] by (simp add: rows_of_def distinct_map_filter)
  have "rt_consumed_at r = None \<longleftrightarrow> Suc k = length ?rs"
  proof -
    have "rt_consumed_at (?rs ! k) = None \<longleftrightarrow> Suc k = length ?rs"
      using session_invD(4) [OF inv] k(1) by (simp add: rotation_chain_def)
    then show ?thesis by (simp only: k(2))
  qed
  moreover have "rt_token_hash r = rt_token_hash (last ?rs) \<longleftrightarrow> Suc k = length ?rs"
    using k ne nth_eq_iff_index_eq [OF ids, of k "length ?rs - 1"] by (auto simp: last)
  moreover have "r = last ?rs \<longleftrightarrow> rt_token_hash r = rt_token_hash (last ?rs)"
  proof
    assume "rt_token_hash r = rt_token_hash (last ?rs)"
    then show "r = last ?rs" by (rule distinct_key_unique [OF ids rin last_in_set [OF ne]])
  qed simp
  ultimately show "rt_consumed_at r = None \<longleftrightarrow> r = last ?rs"
    and "rt_token_hash r = last (map rt_token_hash ?rs) \<longleftrightarrow> rt_consumed_at r = None"
    using ne by (simp_all add: last_map)
qed

lemma rotate_inv:
  assumes inv: "session_inv db" and lock: "locked_refresh db h = Some (r, s)"
    and live: "rt_consumed_at r = None" "rt_revoked_at r = None"
    and rot: "rotate_transaction dr now r s tok db = Inr db'"
  shows "session_inv db'"
    and "\<And>i. map rt_token_hash (rows_of db' i) = map rt_token_hash (rows_of db i)
      @ (if i = rt_session_id r then [io_hash tok] else [])"
    and "\<And>i. families_of db' i = (if i = rt_session_id r
      then map_option (\<lambda>f. f\<lparr>fa_tokens := fa_tokens f @ [io_hash tok]\<rparr>) (families_of db i)
      else families_of db i)"
proof -
  note r = locked_refreshD [OF lock]
  obtain n f g where toks: "db_refresh_tokens db' =
      upd_where (\<lambda>q. rt_id q = rt_id r) f (db_refresh_tokens db @ [n])"
    and f: "f = (\<lambda>q. q\<lparr>rt_consumed_at := Some now, rt_replaced_by_id := Some (dr_token_id dr)\<rparr>)"
    and sess: "db_sessions db' = upd_where (\<lambda>q. ss_id q = ss_id s) g (db_sessions db)"
    and g: "\<And>q. ss_id (g q) = ss_id q \<and> ss_revoked_at (g q) = ss_revoked_at q
      \<and> ss_expires_at (g q) = ss_expires_at q"
    and n: "rt_session_id n = ss_id s" "rt_family_id n = rt_family_id r"
      "rt_generation n = rt_generation r + 1" "rt_token_hash n = io_hash tok"
      "rt_consumed_at n = None" "rt_revoked_at n = None" "rt_expires_at n = ss_expires_at s"
    and fresh: "\<forall>q \<in> set (db_refresh_tokens db). rt_id q \<noteq> rt_id n \<and> rt_token_hash q \<noteq> rt_token_hash n"
    by (rule rotation_effect [OF rot]) (rule that; assumption)
  have rows: "rows_of db' i = upd_where (\<lambda>q. rt_id q = rt_id r) f
      (rows_of db i @ (if i = rt_session_id r then [n] else []))" for i
    using n(1) r(4) by (simp add: rows_of_def toks f filter_upd_where)
  have ss: "session_of db' i = (if i = ss_id s then map_option g (session_of db i) else session_of db i)" for i
    using session_of_upd [OF _ sess, of i] g by auto
  have keep: "\<exists>s'. session_of db' j = Some s' \<and> ss_revoked_at s' = ss_revoked_at s0
      \<and> ss_expires_at s' = ss_expires_at s0" if "session_of db j = Some s0" for j s0
    using that g by (cases "j = ss_id s") (simp_all add: ss)
  have ids: "distinct (map rt_id (rows_of db i))" for i
    using session_invD(2) [OF inv] by (simp add: rows_of_def distinct_map_filter)
  have last: "last (rows_of db (rt_session_id r)) = r" "rows_of db (rt_session_id r) \<noteq> []"
    using unconsumed_is_last(1) [OF inv r(1)] live(1) session_invD(7) [OF inv r(3)] by simp_all
  have chain: "rotation_chain (rows_of db' i)" for i
  proof (cases "i = rt_session_id r")
    case True
    have "rt_id n \<noteq> rt_id r" using fresh r(1) by metis
    then have "rotation_chain (upd_where (\<lambda>q. rt_id q = rt_id r) f (rows_of db (rt_session_id r) @ [n]))"
      using rotation_chain_rotate [OF session_invD(4) [OF inv] last(2) ids, of n f] n(3,5)
      unfolding last(1) by (simp add: f)
    with True show ?thesis by (simp only: rows refl if_True)
  next
    case False
    have "rt_id q \<noteq> rt_id r" if "q \<in> set (rows_of db i)" for q
    proof
      assume "rt_id q = rt_id r"
      then have "q = r"
        using distinct_key_unique [OF session_invD(2) [OF inv] _ r(1)] that by (simp add: set_rows_of)
      with that False show False by (simp add: set_rows_of)
    qed
    then show ?thesis using False session_invD(4) [OF inv] by (simp add: rows upd_where_none)
  qed
  have fits: "row_fits db' q" if "q \<in> set (db_refresh_tokens db')" for q
  proof -
    obtain q0 where old: "q0 \<in> set (db_refresh_tokens db @ [n])"
      "q = (if rt_id q0 = rt_id r then f q0 else q0)"
      using \<open>q \<in> set (db_refresh_tokens db')\<close> unfolding toks set_upd_where by blast
    have q0: "q0 \<in> set (db_refresh_tokens db) \<or> q0 = n"
      "rt_session_id q = rt_session_id q0" "rt_revoked_at q = rt_revoked_at q0"
      "rt_expires_at q = rt_expires_at q0"
      using old by (auto simp: f)
    have "row_fits db r" using session_invD(6) [OF inv r(1)] .
    then have s: "ss_revoked_at s = None" using live r by (simp add: row_fits_def)
    have "\<exists>s0. session_of db (rt_session_id q0) = Some s0
        \<and> (rt_revoked_at q0 = None \<longleftrightarrow> ss_revoked_at s0 = None) \<and> rt_expires_at q0 = ss_expires_at s0"
      using q0(1)
    proof
      assume "q0 \<in> set (db_refresh_tokens db)"
      then show ?thesis using session_invD(6) [OF inv] unfolding row_fits_def by blast
    next
      assume "q0 = n"
      then show ?thesis using n r s by simp
    qed
    then obtain s0 where s0: "session_of db (rt_session_id q0) = Some s0"
      "rt_revoked_at q0 = None \<longleftrightarrow> ss_revoked_at s0 = None" "rt_expires_at q0 = ss_expires_at s0"
      by (elim exE conjE) (rule that)
    from keep [OF s0(1)] show ?thesis
      unfolding row_fits_def q0(2-4) s0(2,3) by (elim exE conjE) (intro exI conjI, assumption, simp_all)
  qed
  have fam: "one_family (db_refresh_tokens db')"
  proof -
    have "one_family (db_refresh_tokens db @ [n])"
      using session_invD(5) [OF inv] r n by (intro one_family_append) (auto simp: one_family_def)
    then show ?thesis by (simp add: toks f one_family_upd)
  qed
  have keys: "map ss_id (db_sessions db') = map ss_id (db_sessions db)"
    "map rt_id (db_refresh_tokens db') = map rt_id (db_refresh_tokens db @ [n])"
    "map rt_token_hash (db_refresh_tokens db') = map rt_token_hash (db_refresh_tokens db @ [n])"
    using g by (simp_all add: toks sess f map_upd_where)
  have "rows_of db' (ss_id q) \<noteq> []" if "q \<in> set (db_sessions db')" for q
  proof -
    have "ss_id q \<in> ss_id ` set (db_sessions db)" using that keys(1) by (metis image_eqI list.set_map)
    then obtain q0 where "q0 \<in> set (db_sessions db)" "ss_id q0 = ss_id q" by auto
    then have "rows_of db (ss_id q) \<noteq> []" using inv unfolding session_inv_def by metis
    then show ?thesis by (simp add: rows upd_where_def)
  qed
  then show "session_inv db'"
    using chain fits fam session_invD(1-3) [OF inv] fresh unfolding session_inv_def keys by auto
  show hashes: "map rt_token_hash (rows_of db' i) = map rt_token_hash (rows_of db i)
      @ (if i = rt_session_id r then [io_hash tok] else [])" for i
    using n(4) by (simp add: rows f map_upd_where)
  show "families_of db' i = (if i = rt_session_id r
      then map_option (\<lambda>f. f\<lparr>fa_tokens := fa_tokens f @ [io_hash tok]\<rparr>) (families_of db i)
      else families_of db i)" for i
    using g r(4) by (auto simp: families_of_def ss hashes option.map_comp comp_def)
qed

section \<open>Refresh refines the abstract families\<close>

lemma issue_refresh_ok: "\<exists>t. issue_opaque_token auth random refresh_prefix = Inr t"
  and issue_csrf_ok: "\<exists>t. issue_opaque_token auth random csrf_prefix = Inr t"
  by (simp_all add: issue_opaque_token_def refresh_prefix_def csrf_prefix_def prefix_byte_def
      is_ascii_lowercase_def is_ascii_digit_def code_of_def Let_def)

text \<open>The token a refresh or login issues for its draw.\<close>

definition drawn_token :: "auth_service \<Rightarrow> auth_draw \<Rightarrow> issued_opaque_token" where
  "drawn_token auth dr = projr (issue_opaque_token auth (dr_refresh_random dr) refresh_prefix)"

definition drawn_csrf :: "auth_service \<Rightarrow> auth_draw \<Rightarrow> issued_opaque_token" where
  "drawn_csrf auth dr = projr (issue_opaque_token auth (dr_csrf_random dr) csrf_prefix)"

lemma issue_drawn:
  "issue_opaque_token auth (dr_refresh_random dr) refresh_prefix = Inr (drawn_token auth dr)"
  "issue_opaque_token auth (dr_csrf_random dr) csrf_prefix = Inr (drawn_csrf auth dr)"
  using issue_refresh_ok [of auth "dr_refresh_random dr"] issue_csrf_ok [of auth "dr_csrf_random dr"]
  by (auto simp: drawn_token_def drawn_csrf_def)

lemma refresh_cases:
  assumes "h = hash_opaque_token auth presented"
  obtains
    (unknown) "locked_refresh db h = None" "refresh auth dr now presented db = (db, Inl AuthInvalidSession)"
  | (reused) r s where "locked_refresh db h = Some (r, s)"
      "rt_consumed_at r \<noteq> None \<or> rt_revoked_at r \<noteq> None \<or> ss_revoked_at s \<noteq> None"
      "refresh auth dr now presented db
        = (revoke_family (rt_family_id r) (ss_id s) now db, Inl AuthRefreshReuseDetected)"
  | (expired) r s where "locked_refresh db h = Some (r, s)"
      "rt_consumed_at r = None" "rt_revoked_at r = None" "ss_revoked_at s = None"
      "rt_expires_at r \<le> now \<or> ss_expires_at s \<le> now"
      "refresh auth dr now presented db
        = (revoke_family (rt_family_id r) (ss_id s) now db, Inl AuthInvalidSession)"
  | (clash) r s e where "locked_refresh db h = Some (r, s)"
      "rt_consumed_at r = None" "rt_revoked_at r = None" "ss_revoked_at s = None"
      "rotate_transaction dr now r s (drawn_token auth dr) db = Inl e"
      "refresh auth dr now presented db = (db, Inl e)"
  | (rotated) r s db' where "locked_refresh db h = Some (r, s)"
      "rt_consumed_at r = None" "rt_revoked_at r = None" "ss_revoked_at s = None"
      "now < rt_expires_at r" "now < ss_expires_at s"
      "rotate_transaction dr now r s (drawn_token auth dr) db = Inr db'"
      "refresh auth dr now presented db = (db', issue_session auth dr now db' (ss_id s)
        (ss_organization_id s) (ss_user_id s) (drawn_token auth dr) (drawn_csrf auth dr))"
proof (cases "locked_refresh db h")
  case None
  then have "refresh auth dr now presented db = (db, Inl AuthInvalidSession)"
    by (simp add: refresh_def issue_drawn assms)
  with None show thesis by (rule unknown)
next
  case (Some rs)
  obtain r s where rs: "rs = (r, s)" by (cases rs)
  have eq: "refresh auth dr now presented db =
      (if rt_consumed_at r \<noteq> None \<or> rt_revoked_at r \<noteq> None \<or> ss_revoked_at s \<noteq> None
       then (revoke_family (rt_family_id r) (ss_id s) now db, Inl AuthRefreshReuseDetected)
       else if rt_expires_at r \<le> now \<or> ss_expires_at s \<le> now
       then (revoke_family (rt_family_id r) (ss_id s) now db, Inl AuthInvalidSession)
       else (case rotate_transaction dr now r s (drawn_token auth dr) db of
               Inl e \<Rightarrow> (db, Inl e)
             | Inr db' \<Rightarrow> (db', issue_session auth dr now db' (ss_id s) (ss_organization_id s)
                                 (ss_user_id s) (drawn_token auth dr) (drawn_csrf auth dr))))"
    using Some rs by (simp add: refresh_def issue_drawn assms)
  note lock = Some [unfolded rs]
  show thesis
  proof (cases "rt_consumed_at r \<noteq> None \<or> rt_revoked_at r \<noteq> None \<or> ss_revoked_at s \<noteq> None")
    case True
    with eq show thesis by (intro reused [OF lock]) simp_all
  next
    case dead: False
    show thesis
    proof (cases "rt_expires_at r \<le> now \<or> ss_expires_at s \<le> now")
      case True
      with eq dead show thesis by (intro expired [OF lock]) auto
    next
      case False
      show thesis
      proof (cases "rotate_transaction dr now r s (drawn_token auth dr) db")
        case (Inl e)
        with eq dead False show thesis by (intro clash [OF lock]) auto
      next
        case (Inr db')
        with eq dead False show thesis by (intro rotated [OF lock]) auto
      qed
    qed
  qed
qed

text \<open>What a locked row says of its abstract family.\<close>

lemma locked_family:
  assumes inv: "session_inv db" and lock: "locked_refresh db h = Some (r, s)"
  obtains f where "families_of db (rt_session_id r) = Some f" and "h \<in> set (fa_tokens f)"
    and "fa_alive f \<longleftrightarrow> ss_revoked_at s = None" and "fa_alive f \<longleftrightarrow> rt_revoked_at r = None"
    and "h = last (fa_tokens f) \<longleftrightarrow> rt_consumed_at r = None"
    and "fa_expires_at f = ss_expires_at s" and "fa_expires_at f = rt_expires_at r"
proof -
  note r = locked_refreshD [OF lock]
  define f where "f = \<lparr>fa_tokens = map rt_token_hash (rows_of db (rt_session_id r)),
     fa_alive = (ss_revoked_at s = None), fa_expires_at = ss_expires_at s\<rparr>"
  have f: "families_of db (rt_session_id r) = Some f"
    "fa_tokens f = map rt_token_hash (rows_of db (rt_session_id r))"
    "fa_alive f \<longleftrightarrow> ss_revoked_at s = None" "fa_expires_at f = ss_expires_at s"
    using r(3) by (simp_all add: families_of_def f_def)
  have "h \<in> set (fa_tokens f)" using hash_in_family [OF inv r(1) f(1)] r(2) by simp
  moreover have "fa_alive f \<longleftrightarrow> rt_revoked_at r = None"
    using session_invD(6) [OF inv r(1)] f r(3) by (simp add: row_fits_def)
  moreover have "h = last (fa_tokens f) \<longleftrightarrow> rt_consumed_at r = None"
    using unconsumed_is_last(2) [OF inv r(1)] r(2) f(2) by simp
  moreover have "fa_expires_at f = rt_expires_at r"
    using session_invD(6) [OF inv r(1)] f r(3) by (simp add: row_fits_def)
  ultimately show thesis by (rule that [OF f(1) _ f(3) _ _ f(4)])
qed

text \<open>Only the family of the row knows the hash.\<close>

lemma other_families:
  assumes "session_inv db" and "locked_refresh db h = Some (r, s)"
    and "families_of db i = Some f" and "h \<in> set (fa_tokens f)"
  shows "i = rt_session_id r"
  using hash_in_family [OF assms(1) locked_refreshD(1) [OF assms(2)] assms(3)]
    locked_refreshD(2) [OF assms(2)] assms(4) by simp

lemma unknown_hash:
  assumes "session_inv db" and "locked_refresh db h = None" and "families_of db i = Some f"
  shows "h \<notin> set (fa_tokens f)"
proof -
  have "fa_tokens f = map rt_token_hash (rows_of db i)"
    using assms(3) by (auto simp: families_of_def)
  moreover have "rt_token_hash q \<noteq> h" if "q \<in> set (rows_of db i)" for q
    using that locked_refresh_None [OF assms(1,2)] by (simp add: set_rows_of)
  ultimately show ?thesis by auto
qed

text \<open>C6: Refresh implements the abstract rotation: unless the new row clashes with an existing key, the
  families after presenting a token are those before with that token presented to each, and the
  answer is reuse, expiry or success exactly as the family of the token says; a token that
  belongs to no family is an invalid session. A clash leaves everything as it was.\<close>

theorem refresh_refines_rotation:
  assumes inv: "session_inv db" and h: "h = hash_opaque_token auth presented"
    and call: "refresh auth dr now presented db = (db', result)"
  shows "db' = db \<and> result = Inl AuthUnavailable
    \<or> families_of db' = map_option (family_present now h (io_hash (drawn_token auth dr))) \<circ> families_of db
      \<and> (\<forall>i f. families_of db i = Some f \<and> h \<in> set (fa_tokens f) \<longrightarrow>
          (case family_outcome now h f of
             Reused \<Rightarrow> result = Inl AuthRefreshReuseDetected
           | Expired \<Rightarrow> result = Inl AuthInvalidSession
           | Rotated \<Rightarrow> (\<exists>s. session_of db i = Some s \<and> result = issue_session auth dr now db' i
               (ss_organization_id s) (ss_user_id s) (drawn_token auth dr) (drawn_csrf auth dr))))
      \<and> ((\<forall>i f. families_of db i = Some f \<longrightarrow> h \<notin> set (fa_tokens f))
          \<longrightarrow> result = Inl AuthInvalidSession)"
    (is "?clash \<or> ?fam \<and> ?known \<and> ?unknown")
proof -
  let ?n = "io_hash (drawn_token auth dr)"
  have known: "?known \<and> ?unknown"
    if "locked_refresh db h = Some (r, s)" "families_of db (rt_session_id r) = Some f"
      "h \<in> set (fa_tokens f)"
      "case family_outcome now h f of
          Reused \<Rightarrow> result = Inl AuthRefreshReuseDetected
        | Expired \<Rightarrow> result = Inl AuthInvalidSession
        | Rotated \<Rightarrow> (\<exists>s. session_of db (rt_session_id r) = Some s
            \<and> result = issue_session auth dr now db' (rt_session_id r)
            (ss_organization_id s) (ss_user_id s) (drawn_token auth dr) (drawn_csrf auth dr))" for r s f
  proof (intro conjI allI impI)
    fix i g assume g: "families_of db i = Some g \<and> h \<in> set (fa_tokens g)"
    then have i: "i = rt_session_id r" using other_families [OF inv that(1)] by blast
    then have gf: "g = f" using g that(2) by simp
    show "case family_outcome now h g of
          Reused \<Rightarrow> result = Inl AuthRefreshReuseDetected
        | Expired \<Rightarrow> result = Inl AuthInvalidSession
        | Rotated \<Rightarrow> (\<exists>s. session_of db i = Some s \<and> result = issue_session auth dr now db' i
            (ss_organization_id s) (ss_user_id s) (drawn_token auth dr) (drawn_csrf auth dr))"
      using that(4) unfolding i gf .
  qed (use that(2,3) in blast)
  have present: "family_present now h ?n g = family_kill h g"
    if "locked_refresh db h = Some (r, s)" "families_of db (rt_session_id r) = Some f"
      "family_outcome now h f \<noteq> Rotated" "families_of db i = Some g" for r s f i g
    using other_families [OF inv that(1,4)] that by (auto simp: family_present_def family_kill_def)
  show ?thesis using h
  proof (cases rule: refresh_cases [of h auth presented db dr now])
    case unknown
    have none: "h \<notin> set (fa_tokens f)" if "families_of db i = Some f" for i f
      using unknown_hash [OF inv unknown(1) that] .
    then have "families_of db i = (map_option (family_present now h ?n) \<circ> families_of db) i" for i
      by (cases "families_of db i") (auto simp: family_present_def)
    then have "families_of db = map_option (family_present now h ?n) \<circ> families_of db" by (rule ext)
    moreover have "result = Inl AuthInvalidSession" using unknown(2) call by simp
    moreover have "?known" using none by (intro allI impI, elim conjE) (drule none, simp)
    moreover have "db' = db" using unknown(2) call by simp
    ultimately show ?thesis by blast
  next
    case (reused r s)
    note l = locked_refreshD [OF reused(1)]
    obtain f where f: "families_of db (rt_session_id r) = Some f" "h \<in> set (fa_tokens f)"
      "fa_alive f \<longleftrightarrow> ss_revoked_at s = None" "fa_alive f \<longleftrightarrow> rt_revoked_at r = None"
      "h = last (fa_tokens f) \<longleftrightarrow> rt_consumed_at r = None"
      by (rule locked_family [OF inv reused(1)]) (rule that; assumption)
    have out: "family_outcome now h f = Reused" using reused(2) f by (auto simp: family_outcome_def)
    have "families_of db' = map_option (family_kill h) \<circ> families_of db"
      using revoke_families_kill [OF inv l(1,2)] reused(3) l(4) call by simp
    moreover have "(map_option (family_kill h) \<circ> families_of db) i
        = (map_option (family_present now h ?n) \<circ> families_of db) i" for i
      using present [OF reused(1) f(1)] out by (cases "families_of db i") auto
    ultimately have "?fam" by (metis ext)
    moreover have "?known \<and> ?unknown" using out reused(3) call by (intro known [OF reused(1) f(1,2)]) simp
    ultimately show ?thesis by blast
  next
    case (expired r s)
    note l = locked_refreshD [OF expired(1)]
    obtain f where f: "families_of db (rt_session_id r) = Some f" "h \<in> set (fa_tokens f)"
      "fa_alive f \<longleftrightarrow> ss_revoked_at s = None" "h = last (fa_tokens f) \<longleftrightarrow> rt_consumed_at r = None"
      "fa_expires_at f = ss_expires_at s" "fa_expires_at f = rt_expires_at r"
      by (rule locked_family [OF inv expired(1)]) (rule that; assumption)
    have out: "family_outcome now h f = Expired" using expired f by (auto simp: family_outcome_def)
    have "families_of db' = map_option (family_kill h) \<circ> families_of db"
      using revoke_families_kill [OF inv l(1,2)] expired(6) l(4) call by simp
    moreover have "(map_option (family_kill h) \<circ> families_of db) i
        = (map_option (family_present now h ?n) \<circ> families_of db) i" for i
      using present [OF expired(1) f(1)] out by (cases "families_of db i") auto
    ultimately have "?fam" by (metis ext)
    moreover have "?known \<and> ?unknown" using out expired(6) call by (intro known [OF expired(1) f(1,2)]) simp
    ultimately show ?thesis by blast
  next
    case (clash r s e)
    have "e = AuthUnavailable"
      using clash(5) by (auto simp: rotate_transaction_def insert_refresh_token_def result_simps
          table_simps split: if_splits)
    with clash(6) call show ?thesis by simp
  next
    case (rotated r s db1)
    note l = locked_refreshD [OF rotated(1)]
    obtain f where f: "families_of db (rt_session_id r) = Some f" "h \<in> set (fa_tokens f)"
      "fa_alive f \<longleftrightarrow> ss_revoked_at s = None" "h = last (fa_tokens f) \<longleftrightarrow> rt_consumed_at r = None"
      "fa_expires_at f = ss_expires_at s"
      by (rule locked_family [OF inv rotated(1)]) (rule that; assumption)
    have out: "family_outcome now h f = Rotated" using rotated f by (auto simp: family_outcome_def)
    have db': "db' = db1" using rotated(8) call by simp
    have "families_of db' i = (map_option (family_present now h ?n) \<circ> families_of db) i" for i
    proof (cases "families_of db i")
      case None
      then show ?thesis using rotate_inv(3) [OF inv rotated(1,2,3,7)] db'
        by (cases "i = rt_session_id r") simp_all
    next
      case (Some g)
      then show ?thesis
        using rotate_inv(3) [OF inv rotated(1,2,3,7)] db' f(1,2) out
          other_families [OF inv rotated(1) Some]
        by (cases "i = rt_session_id r") (auto simp: family_present_def)
    qed
    then have "?fam" by (rule ext)
    moreover have "?known \<and> ?unknown"
      using out rotated(8) call l(3,4) by (intro known [OF rotated(1) f(1,2)]) simp
    ultimately show ?thesis by blast
  qed
qed

section \<open>Runs of the service\<close>

text \<open>One request after another, with any draws, clocks and outcomes.\<close>

inductive session_step :: "auth_service \<Rightarrow> identity_db \<Rightarrow> identity_db \<Rightarrow> bool" for auth where
  step_login: "login auth dr now request db = (db', result) \<Longrightarrow> session_step auth db db'"
| step_refresh: "refresh auth dr now presented db = (db', result) \<Longrightarrow> session_step auth db db'"
| step_logout: "session_step auth db (logout auth now presented db)"

inductive_cases session_stepE: "session_step auth db db'"

text \<open>Sessions are never forgotten, their histories only grow, and a dead family stays dead.\<close>

definition families_forward :: "identity_db \<Rightarrow> identity_db \<Rightarrow> bool" where
  "families_forward db db' \<longleftrightarrow> (\<forall>i f. families_of db i = Some f \<longrightarrow>
     (\<exists>f'. families_of db' i = Some f' \<and> prefix (fa_tokens f) (fa_tokens f')
        \<and> (fa_alive f' \<longrightarrow> fa_alive f) \<and> fa_expires_at f' = fa_expires_at f))"

lemma families_forwardD:
  "families_forward db db' \<Longrightarrow> families_of db i = Some f \<Longrightarrow>
     \<exists>f'. families_of db' i = Some f' \<and> prefix (fa_tokens f) (fa_tokens f')
        \<and> (fa_alive f' \<longrightarrow> fa_alive f) \<and> fa_expires_at f' = fa_expires_at f"
  by (simp add: families_forward_def)

lemma families_forward_refl: "families_forward db db"
  by (simp add: families_forward_def)

lemma families_forward_trans:
  assumes "families_forward db db1" and "families_forward db1 db2"
  shows "families_forward db db2"
  unfolding families_forward_def
proof (intro allI impI)
  fix i f assume "families_of db i = Some f"
  then obtain f1 where 1: "families_of db1 i = Some f1" "prefix (fa_tokens f) (fa_tokens f1)"
    "fa_alive f1 \<longrightarrow> fa_alive f" "fa_expires_at f1 = fa_expires_at f"
    using families_forwardD [OF assms(1)] by blast
  obtain f2 where 2: "families_of db2 i = Some f2" "prefix (fa_tokens f1) (fa_tokens f2)"
    "fa_alive f2 \<longrightarrow> fa_alive f1" "fa_expires_at f2 = fa_expires_at f1"
    using families_forwardD [OF assms(2) 1(1)] by blast
  show "\<exists>f'. families_of db2 i = Some f' \<and> prefix (fa_tokens f) (fa_tokens f')
      \<and> (fa_alive f' \<longrightarrow> fa_alive f) \<and> fa_expires_at f' = fa_expires_at f"
    using 1 2 prefix_order.trans [OF 1(2) 2(2)] by auto
qed

lemma kill_forward:
  assumes "families_of db' = map_option (family_kill h) \<circ> families_of db"
  shows "families_forward db db'"
  using assms by (simp add: families_forward_def family_kill_def)

lemma present_forward:
  assumes "families_of db' = map_option (family_present now h n) \<circ> families_of db"
  shows "families_forward db db'"
  using assms by (simp add: families_forward_def family_present_def)

lemma login_cases:
  assumes "login auth dr now request db = (db', result)"
  obtains (refused) e where "db' = db" "result = Inl e"
  | (granted) user where "check_credentials auth db request = Inr user"
      "login_transaction dr now user (drawn_token auth dr) db = Inr db'"
      "result = issue_session auth dr now db' (dr_session_id dr) (lu_organization_id user)
         (lu_user_id user) (drawn_token auth dr) (drawn_csrf auth dr)"
proof (cases "check_credentials auth db request")
  case (Inl e)
  show thesis by (rule refused [of e]) (use Inl assms in \<open>simp_all add: login_def\<close>)
next
  case (Inr user)
  show thesis
  proof (cases "login_transaction dr now user (drawn_token auth dr) db")
    case (Inl e)
    show thesis by (rule refused [of e]) (use Inl Inr assms in \<open>simp_all add: login_def issue_drawn\<close>)
  next
    case ok: (Inr db1)
    show thesis
      by (rule granted [OF Inr]) (use ok Inr assms in \<open>auto simp: login_def issue_drawn\<close>)
  qed
qed

lemma login_keeps:
  assumes inv: "session_inv db" and call: "login auth dr now request db = (db', result)"
  shows "session_inv db' \<and> families_forward db db'"
  using call
proof (cases rule: login_cases)
  case refused
  with inv families_forward_refl show ?thesis by simp
next
  case (granted user)
  have new: "session_of db (dr_session_id dr) = None"
    by (rule login_effect [OF granted(2)])
  then have "families_forward db db'"
    unfolding families_forward_def login_inv(2) [OF inv granted(2)]
    by (auto simp: families_of_def)
  with login_inv(1) [OF inv granted(2)] show ?thesis ..
qed

lemma logout_families:
  assumes inv: "session_inv db"
  shows "session_inv (logout auth now presented db)"
    and "families_of (logout auth now presented db)
      = map_option (family_kill (hash_opaque_token auth presented)) \<circ> families_of db"
proof -
  let ?h = "hash_opaque_token auth presented"
  have "session_inv (logout auth now presented db) \<and> families_of (logout auth now presented db)
      = map_option (family_kill ?h) \<circ> families_of db"
  proof (cases "List.find (\<lambda>r. rt_token_hash r = ?h) (db_refresh_tokens db)")
    case None
    then have lock: "locked_refresh db ?h = None" by (simp add: locked_refresh_def)
    have "families_of db i = (map_option (family_kill ?h) \<circ> families_of db) i" for i
      using unknown_hash [OF inv lock] by (cases "families_of db i") (auto simp: family_kill_def)
    then have "families_of db = map_option (family_kill ?h) \<circ> families_of db" by (rule ext)
    then show ?thesis using None inv by (simp add: logout_def)
  next
    case (Some r)
    then have r: "r \<in> set (db_refresh_tokens db)" "rt_token_hash r = ?h"
      using find_Some_set by fastforce+
    with Some show ?thesis
      using revoke_inv [OF inv r(1)] revoke_families_kill [OF inv r] by (simp add: logout_def)
  qed
  then show "session_inv (logout auth now presented db)"
    and "families_of (logout auth now presented db) = map_option (family_kill ?h) \<circ> families_of db"
    by simp_all
qed

lemma refresh_keeps:
  assumes inv: "session_inv db" and call: "refresh auth dr now presented db = (db', result)"
  shows "session_inv db' \<and> families_forward db db'"
  using refl [of "hash_opaque_token auth presented"]
proof (cases rule: refresh_cases [of _ auth presented db dr now])
  case unknown
  with call inv families_forward_refl show ?thesis by simp
next
  case (reused r s)
  note l = locked_refreshD [OF reused(1)]
  then have "db' = revoke_family (rt_family_id r) (rt_session_id r) now db"
    using reused(3) call by simp
  then show ?thesis
    using revoke_inv [OF inv l(1)] kill_forward revoke_families_kill [OF inv l(1,2)] by simp
next
  case (expired r s)
  note l = locked_refreshD [OF expired(1)]
  then have "db' = revoke_family (rt_family_id r) (rt_session_id r) now db"
    using expired(6) call by simp
  then show ?thesis
    using revoke_inv [OF inv l(1)] kill_forward revoke_families_kill [OF inv l(1,2)] by simp
next
  case clash
  with call inv families_forward_refl show ?thesis by simp
next
  case (rotated r s db1)
  note rot = rotate_inv [OF inv rotated(1,2,3,7)]
  have "families_forward db db1"
    unfolding families_forward_def rot(3) by auto
  then show ?thesis using rotated(8) call rot(1) by simp
qed

text \<open>The service is a machine that keeps the invariant and only moves forward.\<close>

interpretation sessions: forward_machine "session_step auth" session_inv families_forward for auth
proof
  show "session_inv t" if "session_step auth s t" "session_inv s" for s t
    using that login_keeps refresh_keeps logout_families(1) by (blast elim: session_stepE)
  show "families_forward s t" if "session_step auth s t" "session_inv s" for s t
    using that login_keeps refresh_keeps kill_forward [OF logout_families(2)]
    by (blast elim: session_stepE)
qed (rule families_forward_refl, erule families_forward_trans)

section \<open>Reuse detection\<close>

lemma refresh_refuses:
  assumes inv: "session_inv db" and f: "families_of db i = Some f"
    and h: "h = hash_opaque_token auth presented" "h \<in> set (fa_tokens f)"
    and dead: "\<not> fa_alive f \<or> h \<noteq> last (fa_tokens f)"
  shows "snd (refresh auth dr now presented db) = Inl AuthRefreshReuseDetected"
    and "families_of (fst (refresh auth dr now presented db)) i = Some (f\<lparr>fa_alive := False\<rparr>)"
proof -
  have family: "g = f \<and> rt_session_id r = i" if "locked_refresh db h = Some (r, s)"
    "families_of db (rt_session_id r) = Some g" for r s g
    using other_families [OF inv that(1) f h(2)] that(2) f by simp
  have no: False if "locked_refresh db h = Some (r, s)" "rt_consumed_at r = None" "rt_revoked_at r = None"
    for r s
  proof (rule locked_family [OF inv that(1)])
    fix g assume g: "families_of db (rt_session_id r) = Some g" "fa_alive g \<longleftrightarrow> rt_revoked_at r = None"
      "h = last (fa_tokens g) \<longleftrightarrow> rt_consumed_at r = None"
    then show False using family [OF that(1) g(1)] that(2,3) dead by simp
  qed
  have "snd (refresh auth dr now presented db) = Inl AuthRefreshReuseDetected
    \<and> families_of (fst (refresh auth dr now presented db)) i = Some (f\<lparr>fa_alive := False\<rparr>)"
    using h(1)
  proof (cases rule: refresh_cases [of h auth presented db dr now])
    case unknown
    with unknown_hash [OF inv _ f] h(2) show ?thesis by blast
  next
    case (reused r s)
    note l = locked_refreshD [OF reused(1)]
    have "i = rt_session_id r" by (rule other_families [OF inv reused(1) f h(2)])
    then show ?thesis using f l(4) by (simp add: reused(3) revoke_families)
  qed (use no in blast)+
  then show "snd (refresh auth dr now presented db) = Inl AuthRefreshReuseDetected"
    and "families_of (fst (refresh auth dr now presented db)) i = Some (f\<lparr>fa_alive := False\<rparr>)"
    by simp_all
qed

lemma issue_session_identity:
  assumes "issue_session auth dr now db i org u tok csrf = Inr issued"
  shows "is_identity issued = \<lparr>sn_session_id = i, sn_user_id = u, sn_organization_id = org,
      sn_permissions = permissions_for_user db org u\<rparr>"
    and "is_refresh_token issued = tok" and "is_csrf_token issued = csrf"
    and "issue_access_token auth (dr_jti dr) (is_identity issued) now = Inr (is_access_token issued)"
  using assms by (auto simp: issue_session_def Let_def result_simps)

lemma refresh_succeeds:
  assumes inv: "session_inv db" and call: "refresh auth dr now presented db = (db', Inr issued)"
  obtains f where "families_of db (sn_session_id (is_identity issued)) = Some f"
    and "hash_opaque_token auth presented \<in> set (fa_tokens f)"
    and "families_of db' (sn_session_id (is_identity issued))
      = Some (f\<lparr>fa_tokens := fa_tokens f @ [io_hash (drawn_token auth dr)]\<rparr>)"
  using refl [of "hash_opaque_token auth presented"]
proof (cases rule: refresh_cases [of _ auth presented db dr now])
  case (rotated r s db1)
  note l = locked_refreshD [OF rotated(1)]
  have issue: "issue_session auth dr now db1 (ss_id s) (ss_organization_id s) (ss_user_id s)
      (drawn_token auth dr) (drawn_csrf auth dr) = Inr issued" and db': "db' = db1"
    using rotated(8) call by simp_all
  have i: "sn_session_id (is_identity issued) = rt_session_id r"
    using issue_session_identity(1) [OF issue] l(4) by simp
  obtain f where f: "families_of db (rt_session_id r) = Some f"
    "hash_opaque_token auth presented \<in> set (fa_tokens f)"
    by (rule locked_family [OF inv rotated(1)]) (rule that; assumption)
  show thesis
    by (rule that [of f]) (use f i db' rotate_inv(3) [OF inv rotated(1,2,3,7)] in simp_all)
qed (use call in simp_all)

lemma authenticate_alive:
  assumes "authenticate_access auth now token db = Inr identity"
    and "families_of db i = Some f" and "sn_session_id identity = i"
  shows "fa_alive f \<and> now < fa_expires_at f"
  using assms
  by (auto simp: authenticate_access_def result_simps families_of_def split: if_splits)

lemma prefix_not_last:
  assumes "prefix (xs @ [y]) zs" and "h \<in> set xs" and "distinct zs"
  shows "h \<noteq> last zs"
proof -
  obtain ys where zs: "zs = xs @ y # ys" using assms(1) by (auto simp: prefix_def)
  then have "last zs \<in> set (y # ys)" by (metis last_appendR last_in_set list.distinct(1))
  moreover have "h \<notin> set (y # ys)" using assms(2,3) zs by auto
  ultimately show ?thesis by metis
qed

lemma family_tokens_distinct:
  assumes "session_inv db" and "families_of db i = Some f"
  shows "distinct (fa_tokens f)"
  using session_invD(3) [OF assms(1)] assms(2)
  by (auto simp: families_of_def rows_of_def distinct_map_filter)

text \<open>C10: A stolen refresh token is worthless twice. After a refresh succeeded with a token, whatever happens
  in between, presenting that token again is reported as reuse; and from then on, whatever
  happens next, every token ever issued in that session is refused as reuse and no access token
  authenticates as that session.\<close>

theorem refresh_reuse_kills_session:
  assumes inv: "session_inv db"
    and first: "refresh auth dr1 t1 p db = (db1, Inr issued)"
    and run1: "(session_step auth)\<^sup>*\<^sup>* db1 db2"
    and second: "refresh auth dr2 t2 p db2 = (db3, result)"
    and run2: "(session_step auth)\<^sup>*\<^sup>* db3 db4"
    and i: "i = sn_session_id (is_identity issued)"
  shows "result = Inl AuthRefreshReuseDetected
    \<and> io_hash (is_refresh_token issued) \<in> set (map rt_token_hash (rows_of db4 i))
    \<and> (\<forall>q dr t. hash_opaque_token auth q \<in> set (map rt_token_hash (rows_of db4 i)) \<longrightarrow>
        snd (refresh auth dr t q db4) = Inl AuthRefreshReuseDetected)
    \<and> (\<forall>t token identity. authenticate_access auth t token db4 = Inr identity \<longrightarrow>
        sn_session_id identity \<noteq> i)"
proof -
  let ?h = "hash_opaque_token auth p"
  obtain f where f: "?h \<in> set (fa_tokens f)"
    "families_of db1 i = Some (f\<lparr>fa_tokens := fa_tokens f @ [io_hash (drawn_token auth dr1)]\<rparr>)"
    by (rule refresh_succeeds [OF inv first]) (rule that; simp add: i)
  have inv1: "session_inv db1" using refresh_keeps [OF inv first] ..
  have inv2: "session_inv db2" by (rule sessions.reach_inv [OF run1 inv1])
  obtain f2 where f2: "families_of db2 i = Some f2"
    "prefix (fa_tokens f @ [io_hash (drawn_token auth dr1)]) (fa_tokens f2)"
    using families_forwardD [OF sessions.reach_fwd [OF run1 inv1] f(2)] by auto
  have h2: "?h \<in> set (fa_tokens f2)" "?h \<noteq> last (fa_tokens f2)"
    using f2(2) f(1) prefix_not_last [OF f2(2) f(1) family_tokens_distinct [OF inv2 f2(1)]]
    by (auto simp: prefix_def)
  note refused = refresh_refuses [OF inv2 f2(1) refl h2(1) disjI2 [OF h2(2)], of dr2 t2]
  have inv3: "session_inv db3" using refresh_keeps [OF inv2 second] ..
  have f3: "families_of db3 i = Some (f2\<lparr>fa_alive := False\<rparr>)" using refused(2) second by simp
  have inv4: "session_inv db4" by (rule sessions.reach_inv [OF run2 inv3])
  obtain f4 where f4: "families_of db4 i = Some f4" "prefix (fa_tokens f2) (fa_tokens f4)" "\<not> fa_alive f4"
    using families_forwardD [OF sessions.reach_fwd [OF run2 inv3] f3] by auto
  have tokens: "fa_tokens f4 = map rt_token_hash (rows_of db4 i)"
    using f4(1) by (auto simp: families_of_def)
  have tok: "is_refresh_token issued = drawn_token auth dr1"
  proof -
    from refl [of ?h] show ?thesis
      by (cases rule: refresh_cases [of _ auth p db dr1 t1]) (use first issue_session_identity(2) in auto)
  qed
  have "io_hash (is_refresh_token issued) \<in> set (fa_tokens f4)"
    using f2(2) f4(2) by (auto simp: tok prefix_def)
  moreover have "snd (refresh auth dr t q db4) = Inl AuthRefreshReuseDetected"
    if "hash_opaque_token auth q \<in> set (map rt_token_hash (rows_of db4 i))" for q dr t
    using refresh_refuses(1) [OF inv4 f4(1) refl _ disjI1 [OF f4(3)]] that tokens by simp
  moreover have "sn_session_id identity \<noteq> i"
    if "authenticate_access auth t token db4 = Inr identity" for t token identity
    using authenticate_alive [OF that f4(1)] f4(3) by blast
  ultimately show ?thesis using refused(1) second tokens by auto
qed

section \<open>Concrete values for the witnesses\<close>

definition demo_session_claims :: "uuid \<Rightarrow> i64 \<Rightarrow> access_claims" where
  "demo_session_claims jti t = \<lparr>cl_iss = ''snm'', cl_aud = ''snm-api'', cl_sub = 1, cl_org = 2,
     cl_sid = 3, cl_jti = jti, cl_scopes = [''devices.view''], cl_iat = t, cl_nbf = t,
     cl_exp = t + 600\<rparr>"

definition demo_auth :: auth_service where
  "demo_auth = \<lparr>b64_encode = demo_encode, b64_decode = demo_decode,
     hmac_new = hmac_new demo_ops, sha256 = sha256 demo_ops,
     header_to_vec = header_to_vec demo_ops, header_from_slice = header_from_slice demo_ops,
     claims_to_vec = (\<lambda>c. if c = demo_session_claims 21 1000 then Some ''a''
        else if c = demo_session_claims 22 2000 then Some ''b'' else None),
     claims_from_slice = (\<lambda>b. if b = ''a'' then Some (demo_session_claims 21 1000)
        else if b = ''b'' then Some (demo_session_claims 22 2000) else None),
     as_passwords = demo_password_ops, as_sql_lower = to_ascii_lowercase,
     as_header_value_ok = (\<lambda>_. True), as_uuid_str = (\<lambda>_. ''00000000-0000-0000-0000-000000000000''),
     as_access_key = ''0123456789abcdef0123456789abcdef'', as_issuer = ''snm'',
     as_audience = ''snm-api'', as_cookie_secure = True, as_dummy_password_hash = ''dummy''\<rparr>"

definition demo_identity_db :: identity_db where
  "demo_identity_db = empty_identity_db\<lparr>
     db_organizations := [\<lparr>og_id = 2, og_slug = ''acme'', og_name = ''Acme''\<rparr>],
     db_users := [\<lparr>us_id = 1, us_organization_id = 2, us_email = ''ana@acme.test'',
        us_display_name = ''Ana'', us_status = ''active'', us_password_hash = Some ''phc'',
        us_last_login_at = None\<rparr>],
     db_roles := [\<lparr>ro_id = 5, ro_organization_id = Some 2, ro_name = ''viewer'', ro_is_system = False\<rparr>],
     db_permissions := [\<lparr>pe_id = 6, pe_code = ''devices.view''\<rparr>],
     db_role_permissions := [(5, 6)],
     db_role_bindings := [\<lparr>rb_id = 7, rb_organization_id = 2, rb_role_id = 5, rb_user_id = Some 1,
        rb_service_account_id = None, rb_site_id = None\<rparr>]\<rparr>"

definition demo_login_request :: login_request where
  "demo_login_request = \<lparr>lr_organization_slug = ''acme'', lr_email = ''ANA@acme.test'',
     lr_password = ''correct horse''\<rparr>"

definition demo_draw :: "uuid \<Rightarrow> bytes \<Rightarrow> auth_draw" where
  "demo_draw jti random = \<lparr>dr_refresh_random = random, dr_csrf_random = ''c'', dr_session_id = 3,
     dr_family_id = 4, dr_token_id = jti, dr_jti = jti\<rparr>"

definition demo_login :: "identity_db \<times> (auth_error + issued_session)" where
  "demo_login = login demo_auth (demo_draw 21 ''r'') 1000000000 demo_login_request demo_identity_db"

definition demo_refresh :: "identity_db \<times> (auth_error + issued_session)" where
  "demo_refresh = refresh demo_auth (demo_draw 22 ''s'') 2000000000 ''snm_rt_hc'' (fst demo_login)"

lemma demo_login_ok: "is_ok (snd demo_login)"
  by code_simp

lemma demo_refresh_ok: "is_ok (snd demo_refresh)"
  by code_simp

lemma demo_login_inv: "session_inv (fst demo_login)"
proof -
  have "session_inv demo_identity_db"
    by (rule empty_session_inv) (simp_all add: demo_identity_db_def empty_identity_db_def)
  then show ?thesis
    using login_keeps [of demo_identity_db] by (metis demo_login_def prod.collapse)
qed

section \<open>Login\<close>

text \<open>The user a request names: active, in the organization of that slug, with that address.\<close>

definition named_user :: "auth_service \<Rightarrow> identity_db \<Rightarrow> login_request \<Rightarrow> user_row \<Rightarrow> bool" where
  "named_user auth db request u \<longleftrightarrow> us_status u = ''active''
     \<and> (\<exists>g \<in> set (db_organizations db). og_id g = us_organization_id u
          \<and> og_slug g = lr_organization_slug request)
     \<and> as_sql_lower auth (us_email u) = as_sql_lower auth (lr_email request)"

definition password_fits :: "auth_service \<Rightarrow> login_request \<Rightarrow> user_row \<Rightarrow> bool" where
  "password_fits auth request u \<longleftrightarrow> (\<exists>h. us_password_hash u = Some h
     \<and> verify_password (as_passwords auth) (lr_password request) h = Inr True)"

lemma load_login_user_iff:
  "load_login_user auth db (lr_organization_slug request) (lr_email request) =
     map_option (\<lambda>u. \<lparr>lu_user_id = us_id u, lu_organization_id = us_organization_id u,
         lu_password_hash = us_password_hash u\<rparr>) (List.find (named_user auth db request) (db_users db))"
proof -
  have "named_user auth db request = (\<lambda>u. list_ex (\<lambda>o1. og_id o1 = us_organization_id u
            \<and> og_slug o1 = lr_organization_slug request) (db_organizations db)
         \<and> as_sql_lower auth (us_email u) = as_sql_lower auth (lr_email request)
         \<and> us_status u = ''active'')"
    by (rule ext) (auto simp: named_user_def list_ex_iff)
  then show ?thesis by (simp add: load_login_user_def)
qed

lemma check_credentials_ok:
  assumes "check_credentials auth db request = Inr user"
  shows "\<exists>u \<in> set (db_users db). named_user auth db request u \<and> password_fits auth request u
    \<and> lu_user_id user = us_id u \<and> lu_organization_id user = us_organization_id u"
proof -
  obtain u where u: "List.find (named_user auth db request) (db_users db) = Some u"
    "lu_user_id user = us_id u" "lu_organization_id user = us_organization_id u"
    "password_fits auth request u"
    using assms
    by (auto simp: check_credentials_def load_login_user_iff Let_def result_simps unwrap_or_def
        password_fits_def split: if_splits sum.splits)
  then show ?thesis using find_Some_set [OF u(1)] by blast
qed

lemma check_credentials_error:
  "check_credentials auth db request = Inl e \<Longrightarrow> e = AuthInvalidCredentials"
  by (auto simp: check_credentials_def Let_def result_simps split: if_splits)

text \<open>C26: A session starts only for an active user of the named organization whose own password verifies;
  it belongs to that user and organization, carries exactly the permissions of the user's role
  bindings, and opens a new family with one refresh token that expires after 30 days. When no
  such user exists, nothing is written and the answer is always the same, invalid credentials,
  whether the organization, the address, the status or the password is wrong.\<close>

theorem login_spec:
  assumes inv: "session_inv db" and call: "login auth dr now request db = (db', result)"
  shows "(\<forall>issued. result = Inr issued \<longrightarrow> (\<exists>u \<in> set (db_users db). named_user auth db request u
        \<and> password_fits auth request u
        \<and> is_identity issued = \<lparr>sn_session_id = dr_session_id dr, sn_user_id = us_id u,
            sn_organization_id = us_organization_id u,
            sn_permissions = permissions_for_user db (us_organization_id u) (us_id u)\<rparr>)
        \<and> families_of db (dr_session_id dr) = None
        \<and> families_of db' = (families_of db)(dr_session_id dr \<mapsto>
            \<lparr>fa_tokens = [io_hash (is_refresh_token issued)], fa_alive = True,
             fa_expires_at = now + 30 * 24 * 60 * 60 * 1000000\<rparr>))
    \<and> ((\<forall>u \<in> set (db_users db). named_user auth db request u \<longrightarrow> \<not> password_fits auth request u)
        \<longrightarrow> db' = db \<and> result = Inl AuthInvalidCredentials)"
    (is "?ok \<and> ?refused")
proof -
  have ?refused
  proof
    assume none: "\<forall>u \<in> set (db_users db). named_user auth db request u \<longrightarrow> \<not> password_fits auth request u"
    obtain e where e: "check_credentials auth db request = Inl e"
      using none check_credentials_ok [of auth db request] by (cases "check_credentials auth db request") blast+
    then show "db' = db \<and> result = Inl AuthInvalidCredentials"
      using call check_credentials_error [OF e] by (simp add: login_def)
  qed
  moreover have ?ok
  proof (intro allI impI)
    fix issued assume res: "result = Inr issued"
    from call show "(\<exists>u \<in> set (db_users db). named_user auth db request u
        \<and> password_fits auth request u
        \<and> is_identity issued = \<lparr>sn_session_id = dr_session_id dr, sn_user_id = us_id u,
            sn_organization_id = us_organization_id u,
            sn_permissions = permissions_for_user db (us_organization_id u) (us_id u)\<rparr>)
        \<and> families_of db (dr_session_id dr) = None
        \<and> families_of db' = (families_of db)(dr_session_id dr \<mapsto>
            \<lparr>fa_tokens = [io_hash (is_refresh_token issued)], fa_alive = True,
             fa_expires_at = now + 30 * 24 * 60 * 60 * 1000000\<rparr>)"
    proof (cases rule: login_cases)
      case refused
      with res show ?thesis by simp
    next
      case (granted user)
      note issue = issue_session_identity [OF granted(3) [symmetric, unfolded res]]
      obtain u where u: "u \<in> set (db_users db)" "named_user auth db request u"
        "password_fits auth request u" "lu_user_id user = us_id u"
        "lu_organization_id user = us_organization_id u"
        using check_credentials_ok [OF granted(1)] by blast
      have tables: "session_of db (dr_session_id dr) = None"
        "permissions_for_user db' org uid = permissions_for_user db org uid" for org uid
        by (rule login_effect [OF granted(2)], simp add: permissions_for_user_def cong: codes_where_cong)+
      show ?thesis
        using u issue tables login_inv(2) [OF inv granted(2)]
        by (auto simp: families_of_def micros_of_days_def micros_of_seconds_def refresh_ttl_days_def)
    qed
  qed
  ultimately show ?thesis by blast
qed

text \<open>C23: In every state the service can reach, a session has at most one refresh token that could still be
  exchanged, its tokens are numbered without a gap, a consumed token has its successor, every
  token expires with its session, and a revoked session has only revoked tokens.\<close>

theorem one_live_refresh_token:
  assumes "db_sessions db0 = []" and "db_refresh_tokens db0 = []"
    and run: "(session_step auth)\<^sup>*\<^sup>* db0 db" and r: "r \<in> set (db_refresh_tokens db)"
  shows "(\<forall>q \<in> set (db_refresh_tokens db). rt_session_id q = rt_session_id r
        \<and> rt_consumed_at q = None \<and> rt_consumed_at r = None \<longrightarrow> q = r)
    \<and> 0 \<le> rt_generation r
    \<and> (\<forall>n. 0 \<le> n \<and> n \<le> rt_generation r \<longrightarrow> (\<exists>q \<in> set (db_refresh_tokens db).
          rt_family_id q = rt_family_id r \<and> rt_generation q = n))
    \<and> (rt_consumed_at r \<noteq> None \<longrightarrow> (\<exists>q \<in> set (db_refresh_tokens db).
          rt_family_id q = rt_family_id r \<and> rt_generation q = rt_generation r + 1))
    \<and> (\<exists>s. session_of db (rt_session_id r) = Some s \<and> rt_expires_at r = ss_expires_at s
          \<and> (rt_revoked_at r = None \<longleftrightarrow> ss_revoked_at s = None))"
proof -
  have inv: "session_inv db"
    by (rule sessions.reach_inv [OF run empty_session_inv [OF assms(1,2)]])
  let ?rs = "rows_of db (rt_session_id r)"
  have "r \<in> set ?rs" using r by (simp add: set_rows_of)
  then obtain k where k: "k < length ?rs" "?rs ! k = r" by (metis in_set_conv_nth)
  have chain: "rt_generation (?rs ! m) = int m \<and> (rt_consumed_at (?rs ! m) = None \<longleftrightarrow> Suc m = length ?rs)"
    if "m < length ?rs" for m
    using session_invD(4) [OF inv, of "rt_session_id r"] that by (simp add: rotation_chain_def)
  have member: "?rs ! m \<in> set (db_refresh_tokens db) \<and> rt_family_id (?rs ! m) = rt_family_id r"
    if "m < length ?rs" for m
  proof -
    have "?rs ! m \<in> set (db_refresh_tokens db) \<and> rt_session_id (?rs ! m) = rt_session_id r"
      using nth_mem [OF that] by (simp add: set_rows_of)
    with session_invD(5) [OF inv] r show ?thesis unfolding one_family_def by blast
  qed
  have gen: "rt_generation r = int k" using chain [OF k(1)] k(2) by simp
  have "q = r" if "q \<in> set (db_refresh_tokens db)" "rt_session_id q = rt_session_id r"
    "rt_consumed_at q = None" "rt_consumed_at r = None" for q
    using unconsumed_is_last(1) [OF inv that(1)] unconsumed_is_last(1) [OF inv r] that(2-4) by simp
  moreover have "\<exists>q \<in> set (db_refresh_tokens db). rt_family_id q = rt_family_id r \<and> rt_generation q = n"
    if "0 \<le> n" "n \<le> rt_generation r" for n
  proof -
    have m: "nat n < length ?rs" using that gen k(1) by linarith
    show ?thesis using member [OF m] chain [OF m] that(1) by (intro bexI [of _ "?rs ! nat n"]) simp_all
  qed
  moreover have "\<exists>q \<in> set (db_refresh_tokens db). rt_family_id q = rt_family_id r
      \<and> rt_generation q = rt_generation r + 1" if "rt_consumed_at r \<noteq> None"
  proof -
    have m: "Suc k < length ?rs" using that chain [OF k(1)] k by (metis Suc_lessI)
    show ?thesis using member [OF m] chain [OF m] gen by (intro bexI [of _ "?rs ! Suc k"]) simp_all
  qed
  moreover have "0 \<le> rt_generation r" using gen by simp
  moreover have "\<exists>s. session_of db (rt_session_id r) = Some s \<and> rt_expires_at r = ss_expires_at s
      \<and> (rt_revoked_at r = None \<longleftrightarrow> ss_revoked_at s = None)"
    using session_invD(6) [OF inv r] by (auto simp: row_fits_def)
  ultimately show ?thesis by blast
qed

section \<open>Witnesses\<close>

theorem refresh_refines_rotation_witness:
  "is_ok (snd demo_refresh)
   \<and> families_of (fst demo_refresh) = map_option (family_present 2000000000
        (hash_opaque_token demo_auth ''snm_rt_hc'') (io_hash (drawn_token demo_auth (demo_draw 22 ''s''))))
      \<circ> families_of (fst demo_login)"
proof -
  obtain db' issued where call: "demo_refresh = (db', Inr issued)"
    using is_ok_pair [OF demo_refresh_ok] by blast
  have "Inr issued \<noteq> Inl AuthUnavailable" by simp
  with refresh_refines_rotation [OF demo_login_inv refl call [unfolded demo_refresh_def]]
  show ?thesis unfolding call fst_conv snd_conv by (intro conjI is_ok_simps(1)) blast
qed

theorem refresh_reuse_kills_session_witness:
  "snd (refresh demo_auth (demo_draw 23 ''t'') 2100000000 ''snm_rt_hc'' (fst demo_refresh))
     = Inl AuthRefreshReuseDetected
   \<and> snd (refresh demo_auth (demo_draw 24 ''u'') 2200000000 ''snm_rt_hd''
       (fst (refresh demo_auth (demo_draw 23 ''t'') 2100000000 ''snm_rt_hc'' (fst demo_refresh))))
     = Inl AuthRefreshReuseDetected"
proof -
  obtain db1 issued where call: "demo_refresh = (db1, Inr issued)"
    using is_ok_pair [OF demo_refresh_ok] by blast
  obtain db3 result where again:
    "refresh demo_auth (demo_draw 23 ''t'') 2100000000 ''snm_rt_hc'' db1 = (db3, result)"
    by (cases "refresh demo_auth (demo_draw 23 ''t'') 2100000000 ''snm_rt_hc'' db1")
  note kills = refresh_reuse_kills_session [OF demo_login_inv call [unfolded demo_refresh_def]
      rtranclp.rtrancl_refl again rtranclp.rtrancl_refl refl]
  have "io_hash (is_refresh_token issued) = hash_opaque_token demo_auth ''snm_rt_hd''"
  proof -
    have "io_hash (is_refresh_token (projr (snd demo_refresh)))
        = hash_opaque_token demo_auth ''snm_rt_hd''" by code_simp
    then show ?thesis by (simp add: call)
  qed
  with kills show ?thesis by (simp add: call again)
qed

theorem login_spec_witness:
  "is_ok (snd demo_login)
   \<and> (\<exists>u \<in> set (db_users demo_identity_db). password_fits demo_auth demo_login_request u)
   \<and> (\<exists>h. families_of (fst demo_login) 3 = Some \<lparr>fa_tokens = [h], fa_alive = True,
         fa_expires_at = 1000000000 + 30 * 24 * 60 * 60 * 1000000\<rparr>)"
proof -
  have inv: "session_inv demo_identity_db"
    by (rule empty_session_inv) (simp_all add: demo_identity_db_def empty_identity_db_def)
  obtain db' issued where call: "demo_login = (db', Inr issued)"
    using is_ok_pair [OF demo_login_ok] by blast
  have "dr_session_id (demo_draw 21 ''r'') = 3" by (simp add: demo_draw_def)
  note spec = login_spec [OF inv call [unfolded demo_login_def], THEN conjunct1, rule_format, OF refl]
  have "families_of db' 3 = Some \<lparr>fa_tokens = [io_hash (is_refresh_token issued)], fa_alive = True,
       fa_expires_at = 1000000000 + 30 * 24 * 60 * 60 * 1000000\<rparr>"
    using spec \<open>dr_session_id (demo_draw 21 ''r'') = 3\<close> by simp
  moreover have "\<exists>u \<in> set (db_users demo_identity_db). password_fits demo_auth demo_login_request u"
    using spec by blast
  ultimately show ?thesis unfolding call fst_conv snd_conv by (intro conjI is_ok_simps(1)) blast+
qed

theorem one_live_refresh_token_witness:
  "\<exists>r \<in> set (db_refresh_tokens (fst demo_login)). (session_step demo_auth)\<^sup>*\<^sup>* demo_identity_db (fst demo_login)
     \<and> 0 \<le> rt_generation r \<and> (\<exists>s. session_of (fst demo_login) (rt_session_id r) = Some s)"
proof -
  have none: "db_sessions demo_identity_db = []" "db_refresh_tokens demo_identity_db = []"
    by (simp_all add: demo_identity_db_def empty_identity_db_def)
  have step: "session_step demo_auth demo_identity_db (fst demo_login)"
    unfolding demo_login_def by (rule step_login) (rule surjective_pairing)
  have "db_refresh_tokens (fst demo_login) \<noteq> []" by code_simp
  then obtain r where r: "r \<in> set (db_refresh_tokens (fst demo_login))" by (meson last_in_set)
  show ?thesis
    using one_live_refresh_token [OF none r_into_rtranclp [of "session_step demo_auth", OF step] r] r
      r_into_rtranclp [of "session_step demo_auth", OF step] by blast
qed

end
