(* ===== verification/Auth_Http.thy ===== *)
theory Auth_Http
  imports Sessions Execution
begin

text \<open>
  The HTTP handlers of authentication (\<open>apps/backend/src/auth.rs\<close>): cookies, the double-submit check
  against cross-site requests, the bearer header, and the responses of login, refresh, logout
  and me. A request is its headers (\<open>headers\<close>: absent, not text, or text) with the decoded body; a
  response is the status, the headers it appends in order, and the body.
\<close>

section \<open>Responses\<close>

datatype auth_body =
    No_Body
  | Access_Response string string i64 string
  | Me_Response uuid uuid uuid "string list"
  | Auth_Error_Response string string

record auth_response =
  ar_status :: status_code
  ar_headers :: "(string \<times> string) list"
  ar_body :: auth_body

definition auth_error_response :: "auth_error \<Rightarrow> auth_response" where
  "auth_error_response error =
     (let (status, code, message) = (case error of
         AuthInvalidCredentials \<Rightarrow> (UNAUTHORIZED_401, ''invalid_credentials'', ''invalid credentials'')
       | AuthInvalidSession \<Rightarrow> (UNAUTHORIZED_401, ''invalid_session'', ''invalid or expired session'')
       | AuthRefreshReuseDetected \<Rightarrow> (UNAUTHORIZED_401, ''refresh_reuse_detected'',
            ''session revoked after refresh-token reuse'')
       | AuthCsrfRejected \<Rightarrow> (FORBIDDEN_403, ''csrf_rejected'', ''CSRF validation failed'')
       | AuthInvalidRequest \<Rightarrow> (UNPROCESSABLE_ENTITY_422, ''invalid_auth_request'',
            ''authentication request is invalid'')
       | AuthUnavailable \<Rightarrow> (SERVICE_UNAVAILABLE_503, ''auth_unavailable'',
            ''authentication subsystem is temporarily unavailable''))
      in \<lparr>ar_status = status, ar_headers = [], ar_body = Auth_Error_Response code message\<rparr>)"

section \<open>Reading a request\<close>

definition header_to_str :: "headers \<Rightarrow> string \<Rightarrow> string option" where
  "header_to_str hs name = (case hs name of Some (Some value) \<Rightarrow> Some value | _ \<Rightarrow> None)"

definition cookie_pairs :: "string \<Rightarrow> (string \<times> string) list" where
  "cookie_pairs text = List.map_filter (split_once (CHR ''='')) (map trim (split_on (CHR '';'') text))"

definition cookie_value :: "headers \<Rightarrow> string \<Rightarrow> string option" where
  "cookie_value hs name =
     Option.bind (header_to_str hs ''cookie'') (\<lambda>text.
     map_option snd (List.find (\<lambda>(key, value). key = name) (cookie_pairs text)))"

definition bearer_token :: "headers \<Rightarrow> string option" where
  "bearer_token hs =
     Option.bind (header_to_str hs ''authorization'') (\<lambda>text.
     Option.bind (strip_prefix ''Bearer '' text) (\<lambda>value.
     if value = [] then None else Some value))"

definition csrf_header :: string where "csrf_header = ''x-snm-csrf''"

text \<open>\<open>expect\<close> on the comparison key of the token crate is the outer option.\<close>

definition csrf_valid :: "auth_service \<Rightarrow> headers \<Rightarrow> string \<Rightarrow> bool option" where
  "csrf_valid auth hs cookie_name =
     (case cookie_value hs cookie_name of
        None \<Rightarrow> Some False
      | Some cookie \<Rightarrow>
          (case header_to_str hs csrf_header of
             None \<Rightarrow> Some False
           | Some header_value \<Rightarrow>
               opaque_token_matches auth header_value (hash_opaque_token auth cookie)))"

section \<open>Cookies\<close>

definition refresh_cookie_name :: "auth_service \<Rightarrow> string" where
  "refresh_cookie_name auth = (if as_cookie_secure auth then ''__Host-snm_refresh'' else ''snm_refresh'')"

definition csrf_cookie_name :: "auth_service \<Rightarrow> string" where
  "csrf_cookie_name auth = (if as_cookie_secure auth then ''__Host-snm_csrf'' else ''snm_csrf'')"

text \<open>\<open>Max-Age\<close> is 30 days in seconds.\<close>

definition session_cookie_headers ::
  "auth_service \<Rightarrow> issued_session \<Rightarrow> auth_error + (string \<times> string) list" where
  "session_cookie_headers auth issued =
     (let secure = (if as_cookie_secure auth then ''; Secure'' else '''');
          refresh = refresh_cookie_name auth @ ''='' @ io_secret (is_refresh_token issued)
            @ ''; Path=/; HttpOnly; SameSite=Strict; Max-Age=2592000'' @ secure;
          csrf = csrf_cookie_name auth @ ''='' @ io_secret (is_csrf_token issued)
            @ ''; Path=/; SameSite=Strict; Max-Age=2592000'' @ secure
      in bindR (ensure (as_header_value_ok auth refresh) AuthUnavailable) (\<lambda>_.
         bindR (ensure (as_header_value_ok auth csrf) AuthUnavailable) (\<lambda>_.
         Inr [(''set-cookie'', refresh), (''set-cookie'', csrf), (''cache-control'', ''no-store'')])))"

definition clear_cookie_headers :: "auth_service \<Rightarrow> (string \<times> string) list" where
  "clear_cookie_headers auth =
     (let secure = (if as_cookie_secure auth then ''; Secure'' else '''');
          values = map (\<lambda>name. let http_only = (if contains_str ''refresh'' name then ''; HttpOnly'' else '''')
              in name @ ''=; Path=/; SameSite=Strict; Max-Age=0'' @ http_only @ secure)
            [refresh_cookie_name auth, csrf_cookie_name auth]
      in map (Pair ''set-cookie'') (filter (as_header_value_ok auth) values)
           @ [(''cache-control'', ''no-store'')])"

section \<open>Handlers\<close>

definition issued_response :: "auth_service \<Rightarrow> issued_session \<Rightarrow> auth_response" where
  "issued_response auth issued =
     (case session_cookie_headers auth issued of
        Inl error \<Rightarrow> auth_error_response error
      | Inr hs \<Rightarrow> \<lparr>ar_status = OK_200, ar_headers = hs,
          ar_body = Access_Response (is_access_token issued) ''Bearer'' access_ttl_seconds
            (io_secret (is_csrf_token issued))\<rparr>)"

definition answer_issued ::
  "auth_service \<Rightarrow> identity_db \<times> (auth_error + issued_session) \<Rightarrow> identity_db \<times> auth_response" where
  "answer_issued auth = (\<lambda>(db, result). (db, case result of
      Inr issued \<Rightarrow> issued_response auth issued | Inl error \<Rightarrow> auth_error_response error))"

definition http_login ::
  "auth_service \<Rightarrow> auth_draw \<Rightarrow> timestamp \<Rightarrow> login_request \<Rightarrow> identity_db \<Rightarrow> identity_db \<times> auth_response" where
  "http_login auth dr now request db = answer_issued auth (login auth dr now request db)"

text \<open>\<open>None\<close>: the handler panicked on the comparison key.\<close>

definition http_refresh ::
  "auth_service \<Rightarrow> auth_draw \<Rightarrow> timestamp \<Rightarrow> headers \<Rightarrow> identity_db
     \<Rightarrow> (identity_db \<times> auth_response) option" where
  "http_refresh auth dr now hs db =
     (case cookie_value hs (refresh_cookie_name auth) of
        None \<Rightarrow> Some (db, auth_error_response AuthInvalidSession)
      | Some presented \<Rightarrow> map_option (\<lambda>valid.
          if \<not> valid then (db, auth_error_response AuthCsrfRejected)
          else answer_issued auth (refresh auth dr now presented db))
        (csrf_valid auth hs (csrf_cookie_name auth)))"

definition cleared :: "auth_service \<Rightarrow> auth_response" where
  "cleared auth = \<lparr>ar_status = NO_CONTENT_204, ar_headers = clear_cookie_headers auth, ar_body = No_Body\<rparr>"

definition http_logout ::
  "auth_service \<Rightarrow> timestamp \<Rightarrow> headers \<Rightarrow> identity_db \<Rightarrow> (identity_db \<times> auth_response) option" where
  "http_logout auth now hs db =
     (case cookie_value hs (refresh_cookie_name auth) of
        None \<Rightarrow> Some (db, cleared auth)
      | Some presented \<Rightarrow> map_option (\<lambda>valid.
          if \<not> valid then (db, auth_error_response AuthCsrfRejected)
          else (logout auth now presented db, cleared auth))
        (csrf_valid auth hs (csrf_cookie_name auth)))"

definition http_me :: "auth_service \<Rightarrow> timestamp \<Rightarrow> headers \<Rightarrow> identity_db \<Rightarrow> auth_response" where
  "http_me auth now hs db =
     (case bearer_token hs of
        None \<Rightarrow> auth_error_response AuthInvalidSession
      | Some token \<Rightarrow>
          (case authenticate_access auth now token db of
             Inr identity \<Rightarrow> \<lparr>ar_status = OK_200, ar_headers = [],
               ar_body = Me_Response (sn_user_id identity) (sn_organization_id identity)
                 (sn_session_id identity) (sn_permissions identity)\<rparr>
           | Inl error \<Rightarrow> auth_error_response error))"

section \<open>Cookies travel\<close>

text \<open>What a browser keeps of a \<open>Set-Cookie\<close> value: the pair before the first semicolon.\<close>

definition kept_pair :: "string \<Rightarrow> string" where
  "kept_pair value = hd (split_on (CHR '';'') value)"

text \<open>Bytes of URL-safe base64 and of the names and prefixes around it: no separator, no white space.\<close>

definition token_char :: "char \<Rightarrow> bool" where
  "token_char c \<longleftrightarrow> is_ascii_alphanumeric c \<or> c = CHR ''-'' \<or> c = CHR ''_''"

lemma token_char_plain:
  assumes "token_char c"
  shows "c \<noteq> CHR '';''" and "c \<noteq> CHR ''=''" and "\<not> ws1 (code_of c)" and "code_of c < 128"
  using assms
  by (auto simp: token_char_def is_ascii_alphanumeric_def is_ascii_digit_def is_ascii_lowercase_def
      is_ascii_uppercase_def ws1_def code_of_def)

lemma ws_front_ascii: "code_of c < 128 \<Longrightarrow> \<not> ws1 (code_of c) \<Longrightarrow> ws_front (c # s) = 0"
  by (cases s; cases "tl s") (auto simp: ws_front_def ws_seq_def ws2_def ws3_def)

lemma ws_back_ascii: "code_of c < 128 \<Longrightarrow> \<not> ws1 (code_of c) \<Longrightarrow> ws_back (c # s) = 0"
  by (cases s; cases "tl s") (auto simp: ws_back_def ws_seq_def ws2_def ws3_def)

text \<open>Trimming leaves a text alone whose first and last bytes are visible ASCII.\<close>

lemma trim_plain:
  assumes "s \<noteq> []" and "code_of (hd s) < 128" "\<not> ws1 (code_of (hd s))"
    and "code_of (last s) < 128" "\<not> ws1 (code_of (last s))"
  shows "trim s = s"
proof -
  have "ws_front s = 0" using assms(1-3) ws_front_ascii by (cases s) auto
  then have front: "trim_start s = s" by (rule trim_start_id)
  have "rev s = last s # tl (rev s)" using assms(1) by (metis hd_rev list.collapse rev_is_Nil_conv)
  then have "ws_back (rev s) = 0" using ws_back_ascii [OF assms(4,5)] by metis
  then show ?thesis by (simp add: trim_def trim_end_def front trim_back_id)
qed

lemma trim_space: "trim (CHR '' '' # s) = trim s"
proof -
  have "ws_front (CHR '' '' # s) = 1" by (simp add: ws_front_def ws_seq_def ws1_def code_of_def)
  then have "trim_start (CHR '' '' # s) = trim_start s" by (subst trim_start.simps) simp
  then show ?thesis by (simp add: trim_def)
qed

lemma cookie_pair:
  assumes "list_all token_char name" "list_all token_char v" and "name \<noteq> []" "v \<noteq> []"
  shows "kept_pair (name @ ''='' @ v @ CHR '';'' # rest) = name @ ''='' @ v"
    and "CHR '';'' \<notin> set (name @ ''='' @ v)"
    and "trim (name @ ''='' @ v) = name @ ''='' @ v"
    and "split_once (CHR ''='') (name @ ''='' @ v) = Some (name, v)"
proof -
  have chars: "token_char c" if "c \<in> set name \<union> set v" for c
    using that assms(1,2) by (auto simp: list_all_iff)
  then have plain: "c \<noteq> CHR '';'' \<and> c \<noteq> CHR ''='' \<and> \<not> ws1 (code_of c) \<and> code_of c < 128"
    if "c \<in> set name \<union> set v" for c
    using that token_char_plain by blast
  then show no: "CHR '';'' \<notin> set (name @ ''='' @ v)" by auto
  have "split_on (CHR '';'') ((name @ ''='' @ v) @ CHR '';'' # rest)
      = (name @ ''='' @ v) # split_on (CHR '';'') rest"
    by (rule split_on_append [OF no])
  then show "kept_pair (name @ ''='' @ v @ CHR '';'' # rest) = name @ ''='' @ v"
    by (simp add: kept_pair_def)
  have "hd (name @ ''='' @ v) \<in> set name" "last (name @ ''='' @ v) \<in> set v"
    using assms(3,4) by (auto simp: hd_append last_append)
  then show "trim (name @ ''='' @ v) = name @ ''='' @ v"
    using plain assms(3) by (intro trim_plain) auto
  show "split_once (CHR ''='') (name @ ''='' @ v) = Some (name, v)"
    using plain by (auto simp: split_once_Some_iff)
qed

lemma cookie_pairs_two:
  assumes "list_all token_char n" "list_all token_char v" "n \<noteq> []" "v \<noteq> []"
    and "list_all token_char n'" "list_all token_char v'" "n' \<noteq> []" "v' \<noteq> []"
  shows "cookie_pairs ((n @ ''='' @ v) @ ''; '' @ (n' @ ''='' @ v')) = [(n, v), (n', v')]"
proof -
  note p = cookie_pair [OF assms(1-4)] and p' = cookie_pair [OF assms(5-8)]
  have no: "CHR '';'' \<notin> set (CHR '' '' # n' @ ''='' @ v')" using p'(2) by simp
  have "split_on (CHR '';'') ((n @ ''='' @ v) @ CHR '';'' # CHR '' '' # (n' @ ''='' @ v'))
      = [n @ ''='' @ v, CHR '' '' # (n' @ ''='' @ v')]"
    unfolding split_on_append [OF p(2)] split_on_no_sep [OF no] by (rule refl)
  then show ?thesis
    using p(3,4) p'(3,4) by (simp add: cookie_pairs_def map_filter_simps trim_space)
qed

section \<open>Properties\<close>

text \<open>The headers a browser sends back after a response: the cookies it kept, and the token of the body
  in the header the script sets.\<close>

definition browser_headers :: "auth_response \<Rightarrow> headers" where
  "browser_headers resp = (case (ar_headers resp, ar_body resp) of
     ((_, c1) # (_, c2) # _, Access_Response _ _ _ csrf) \<Rightarrow>
        (\<lambda>name. if name = ''cookie'' then Some (Some (kept_pair c1 @ ''; '' @ kept_pair c2))
           else if name = csrf_header then Some (Some csrf) else None)
   | _ \<Rightarrow> (\<lambda>_. None))"

definition url_safe :: "auth_service \<Rightarrow> bool" where
  "url_safe auth \<longleftrightarrow> (\<forall>b. list_all token_char (b64_encode auth b))"

lemma drawn_secret:
  "io_secret (drawn_token auth dr) = ''snm_rt_'' @ b64_encode auth (dr_refresh_random dr)"
  "io_secret (drawn_csrf auth dr) = ''csrf_'' @ b64_encode auth (dr_csrf_random dr)"
  "io_hash (drawn_token auth dr) = hash_opaque_token auth (io_secret (drawn_token auth dr))"
  using issued_secret [OF issue_drawn(1)] issued_secret [OF issue_drawn(2)]
  by (simp_all add: refresh_prefix_def csrf_prefix_def)

lemma names_plain:
  "list_all token_char (refresh_cookie_name auth)" "refresh_cookie_name auth \<noteq> []"
  "list_all token_char (csrf_cookie_name auth)" "csrf_cookie_name auth \<noteq> []"
  "refresh_cookie_name auth \<noteq> csrf_cookie_name auth"
  by (auto simp: refresh_cookie_name_def csrf_cookie_name_def token_char_def
      is_ascii_alphanumeric_def is_ascii_digit_def is_ascii_lowercase_def is_ascii_uppercase_def
      code_of_def)

lemma secrets_plain:
  assumes "url_safe auth"
  shows "list_all token_char (io_secret (drawn_token auth dr))" "io_secret (drawn_token auth dr) \<noteq> []"
    "list_all token_char (io_secret (drawn_csrf auth dr))" "io_secret (drawn_csrf auth dr) \<noteq> []"
  using assms
  by (auto simp: drawn_secret url_safe_def token_char_def
      is_ascii_alphanumeric_def is_ascii_digit_def is_ascii_lowercase_def is_ascii_uppercase_def
      code_of_def)

text \<open>What the browser sends back after a session was issued reaches the service unchanged.\<close>

lemma browser_returns:
  assumes safe: "url_safe auth" and laws: "token_laws auth"
    and tok: "is_refresh_token issued = drawn_token auth dr" "is_csrf_token issued = drawn_csrf auth dr"
    and ok: "ar_status (issued_response auth issued) = OK_200"
  shows "cookie_value (browser_headers (issued_response auth issued)) (refresh_cookie_name auth)
      = Some (io_secret (drawn_token auth dr))"
    and "csrf_valid auth (browser_headers (issued_response auth issued)) (csrf_cookie_name auth) = Some True"
proof -
  let ?secure = "if as_cookie_secure auth then ''; Secure'' else ''''"
  let ?c1 = "refresh_cookie_name auth @ ''='' @ io_secret (drawn_token auth dr) @ CHR '';''
       # '' Path=/; HttpOnly; SameSite=Strict; Max-Age=2592000'' @ ?secure"
  let ?c2 = "csrf_cookie_name auth @ ''='' @ io_secret (drawn_csrf auth dr) @ CHR '';''
       # '' Path=/; SameSite=Strict; Max-Age=2592000'' @ ?secure"
  have headers: "session_cookie_headers auth issued
      = Inr [(''set-cookie'', ?c1), (''set-cookie'', ?c2), (''cache-control'', ''no-store'')]"
    using ok tok
    by (auto simp: issued_response_def session_cookie_headers_def auth_error_response_def Let_def
        result_simps ensure_def split: if_splits)
  note plain = names_plain [of auth] secrets_plain [OF safe, of dr]
  have kept: "kept_pair ?c1 = refresh_cookie_name auth @ ''='' @ io_secret (drawn_token auth dr)"
    "kept_pair ?c2 = csrf_cookie_name auth @ ''='' @ io_secret (drawn_csrf auth dr)"
    by (rule cookie_pair(1); rule plain)+
  let ?hs = "browser_headers (issued_response auth issued)"
  have hs: "header_to_str ?hs ''cookie'' = Some (kept_pair ?c1 @ ''; '' @ kept_pair ?c2)"
    "header_to_str ?hs csrf_header = Some (io_secret (drawn_csrf auth dr))"
    using tok by (simp_all add: issued_response_def headers browser_headers_def header_to_str_def csrf_header_def)
  have pairs: "cookie_pairs (kept_pair ?c1 @ ''; '' @ kept_pair ?c2)
      = [(refresh_cookie_name auth, io_secret (drawn_token auth dr)),
         (csrf_cookie_name auth, io_secret (drawn_csrf auth dr))]"
    unfolding kept by (rule cookie_pairs_two; rule plain)
  show "cookie_value ?hs (refresh_cookie_name auth) = Some (io_secret (drawn_token auth dr))"
    using hs(1) pairs by (simp add: cookie_value_def)
  have "cookie_value ?hs (csrf_cookie_name auth) = Some (io_secret (drawn_csrf auth dr))"
    using hs(1) pairs plain(5) by (simp add: cookie_value_def)
  then show "csrf_valid auth ?hs (csrf_cookie_name auth) = Some True"
    using hs(2) token_lawsD(3) [OF laws, of "''snm-token-hash-compare''"]
    by (auto simp: csrf_valid_def opaque_token_matches_def)
qed

text \<open>C24: Cross-site requests change nothing: when a refresh or logout request changes the database or a
  refresh succeeds, it carried the refresh cookie, the CSRF cookie and the CSRF header, and the
  header is the CSRF cookie's value, unless the two exhibit a collision of the hash or of the
  keyed comparison; and the request acted on exactly the cookie's token.\<close>

theorem csrf_double_submit:
  assumes "token_laws auth"
    and "(http_refresh auth dr now hs db = Some (db', resp) \<and> (db' \<noteq> db \<or> ar_status resp = OK_200))
      \<or> (http_logout auth now hs db = Some (db', resp) \<and> db' \<noteq> db)"
  shows "\<exists>token cookie header. cookie_value hs (refresh_cookie_name auth) = Some token
    \<and> cookie_value hs (csrf_cookie_name auth) = Some cookie
    \<and> header_to_str hs csrf_header = Some header
    \<and> (header = cookie
       \<or> (header \<noteq> cookie \<and> sha256 auth header = sha256 auth cookie)
       \<or> (\<exists>mac. hmac_new auth ''snm-token-hash-compare'' = Some mac
            \<and> sha256 auth header \<noteq> sha256 auth cookie
            \<and> mac (sha256 auth header) = mac (sha256 auth cookie)))
    \<and> ((db', resp) = answer_issued auth (refresh auth dr now token db)
       \<or> (db', resp) = (logout auth now token db, cleared auth))"
proof -
  obtain token where token: "cookie_value hs (refresh_cookie_name auth) = Some token"
    using assms(2)
    by (auto simp: http_refresh_def http_logout_def auth_error_response_def split: option.splits)
  have valid: "csrf_valid auth hs (csrf_cookie_name auth) = Some True
    \<and> ((db', resp) = answer_issued auth (refresh auth dr now token db)
       \<or> (db', resp) = (logout auth now token db, cleared auth))"
    using assms(2) token
    by (auto simp: http_refresh_def http_logout_def auth_error_response_def split: if_splits)
  obtain mac where mac: "hmac_new auth ''snm-token-hash-compare'' = Some mac"
    using token_lawsD(3) [OF assms(1)] by blast
  obtain cookie header where ch: "cookie_value hs (csrf_cookie_name auth) = Some cookie"
    "header_to_str hs csrf_header = Some header"
    "mac (sha256 auth cookie) = mac (sha256 auth header)"
    using valid mac
    by (auto simp: csrf_valid_def opaque_token_matches_def hash_opaque_token_def split: option.splits)
  have "header = cookie
       \<or> (header \<noteq> cookie \<and> sha256 auth header = sha256 auth cookie)
       \<or> (\<exists>mac. hmac_new auth ''snm-token-hash-compare'' = Some mac
            \<and> sha256 auth header \<noteq> sha256 auth cookie
            \<and> mac (sha256 auth header) = mac (sha256 auth cookie))"
    using mac ch(3) by (cases "sha256 auth header = sha256 auth cookie") auto
  with token valid ch(1,2) show ?thesis by blast
qed

text \<open>Every failure of the service but the five refusals is \<open>Unavailable\<close>, answered with 503.\<close>

lemma rotate_error: "rotate_transaction dr now r s tok db = Inl e \<Longrightarrow> e = AuthUnavailable"
  by (auto simp: rotate_transaction_def insert_refresh_token_def result_simps table_simps
      split: if_splits)

lemma issue_error: "issue_session auth dr now db i org u tok csrf = Inl e \<Longrightarrow> e = AuthUnavailable"
  by (auto simp: issue_session_def issue_access_token_def Let_def result_simps)

lemma issued_status: "ar_status (issued_response auth issued) \<in> {OK_200, SERVICE_UNAVAILABLE_503}"
  by (auto simp: issued_response_def session_cookie_headers_def Let_def auth_error_response_def
      ensure_def)

lemma refresh_accepts:
  assumes inv: "session_inv db" and f: "families_of db i = Some f"
    and h: "hash_opaque_token auth presented = last (fa_tokens f)" "fa_tokens f \<noteq> []"
    and live: "fa_alive f" "now < fa_expires_at f"
  shows "snd (refresh auth dr now presented db) = Inl AuthUnavailable
    \<or> (\<exists>issued. snd (refresh auth dr now presented db) = Inr issued
        \<and> families_of (fst (refresh auth dr now presented db)) i
          = Some (f\<lparr>fa_tokens := fa_tokens f @ [io_hash (drawn_token auth dr)]\<rparr>))"
proof -
  let ?h = "hash_opaque_token auth presented"
  have hin: "?h \<in> set (fa_tokens f)" using h by (metis last_in_set)
  have row: "i = rt_session_id r \<and> rt_consumed_at r = None \<and> rt_revoked_at r = None
      \<and> ss_revoked_at s = None \<and> now < ss_expires_at s \<and> now < rt_expires_at r"
    if "locked_refresh db ?h = Some (r, s)" for r s
  proof (rule locked_family [OF inv that])
    fix g assume g: "families_of db (rt_session_id r) = Some g"
      "fa_alive g \<longleftrightarrow> ss_revoked_at s = None" "fa_alive g \<longleftrightarrow> rt_revoked_at r = None"
      "?h = last (fa_tokens g) \<longleftrightarrow> rt_consumed_at r = None"
      "fa_expires_at g = ss_expires_at s" "fa_expires_at g = rt_expires_at r"
    have i: "i = rt_session_id r" by (rule other_families [OF inv that f hin])
    then have "g = f" using g(1) f by simp
    with i g h live show ?thesis by simp
  qed
  from refl [of ?h] show ?thesis
  proof (cases rule: refresh_cases [of _ auth presented db dr now])
    case unknown
    with unknown_hash [OF inv unknown(1) f] hin show ?thesis by blast
  next
    case (reused r s)
    with row [OF reused(1)] show ?thesis by blast
  next
    case (expired r s)
    with row [OF expired(1)] show ?thesis by simp
  next
    case (clash r s e)
    with rotate_error [OF clash(5)] show ?thesis by simp
  next
    case (rotated r s db1)
    have "families_of db1 i = Some (f\<lparr>fa_tokens := fa_tokens f @ [io_hash (drawn_token auth dr)]\<rparr>)"
      using rotate_inv(3) [OF inv rotated(1,2,3,7), of i] row [OF rotated(1)] f by simp
    then show ?thesis
      using issue_error [of auth dr now db1 "ss_id s" "ss_organization_id s" "ss_user_id s"
          "drawn_token auth dr" "drawn_csrf auth dr"] rotated(8)
      by (cases "issue_session auth dr now db1 (ss_id s) (ss_organization_id s) (ss_user_id s)
          (drawn_token auth dr) (drawn_csrf auth dr)") auto
  qed
qed

lemma login_issued:
  assumes "login auth dr now request db = (db', Inr issued)"
  shows "is_refresh_token issued = drawn_token auth dr" and "is_csrf_token issued = drawn_csrf auth dr"
    and "session_inv db \<Longrightarrow> families_of db' (dr_session_id dr) = Some \<lparr>fa_tokens = [io_hash (drawn_token auth dr)],
       fa_alive = True, fa_expires_at = now + micros_of_days refresh_ttl_days\<rparr>"
proof -
  have "is_refresh_token issued = drawn_token auth dr \<and> is_csrf_token issued = drawn_csrf auth dr
    \<and> (session_inv db \<longrightarrow> families_of db' (dr_session_id dr) = Some \<lparr>fa_tokens = [io_hash (drawn_token auth dr)],
       fa_alive = True, fa_expires_at = now + micros_of_days refresh_ttl_days\<rparr>)"
    using assms
  proof (cases rule: login_cases)
    case (granted user)
    note issue_session_identity(2,3) [OF granted(3) [symmetric]]
    then show ?thesis using login_inv(2) [OF _ granted(2)] by simp
  qed simp
  then show "is_refresh_token issued = drawn_token auth dr" and "is_csrf_token issued = drawn_csrf auth dr"
    and "session_inv db \<Longrightarrow> families_of db' (dr_session_id dr) = Some \<lparr>fa_tokens = [io_hash (drawn_token auth dr)],
       fa_alive = True, fa_expires_at = now + micros_of_days refresh_ttl_days\<rparr>"
    by simp_all
qed


text \<open>The rotation is committed before the permissions are read and the access token is signed. When that
  fails, the browser is answered 503 and keeps a token that was consumed: its retry is taken for
  theft and ends the session.\<close>

lemma failed_issue_ends_session:
  assumes inv: "session_inv db" and call: "refresh auth dr now p db = (db1, Inl AuthUnavailable)"
    and changed: "db1 \<noteq> db"
  shows "snd (refresh auth dr2 later p db1) = Inl AuthRefreshReuseDetected"
  using refl [of "hash_opaque_token auth p"]
proof (cases rule: refresh_cases [of _ auth p db dr now])
  case (rotated r s db')
  note l = locked_refreshD [OF rotated(1)] and rot = rotate_inv [OF inv rotated(1,2,3,7)]
  have db1: "db1 = db'" using rotated(8) call by simp
  obtain f where f: "families_of db (rt_session_id r) = Some f" "hash_opaque_token auth p \<in> set (fa_tokens f)"
    by (rule locked_family [OF inv rotated(1)]) (rule that; assumption)
  let ?g = "f\<lparr>fa_tokens := fa_tokens f @ [io_hash (drawn_token auth dr)]\<rparr>"
  have g: "families_of db' (rt_session_id r) = Some ?g" using rot(3) f(1) by simp
  have "hash_opaque_token auth p \<noteq> last (fa_tokens ?g)"
    using family_tokens_distinct [OF rot(1) g] f(2) by auto
  then show ?thesis
    using refresh_refuses(1) [OF rot(1) g refl] f(2) by (simp add: db1)
qed (use call changed in simp_all)

section \<open>Witnesses\<close>

lemma demo_auth_laws: "token_laws demo_auth"
  by (auto simp: token_laws_def demo_auth_def demo_ops_def demo_decode_encode demo_encode_no_dot
      demo_session_claims_def split: if_splits)

lemma demo_auth_url_safe: "url_safe demo_auth"
proof -
  have "token_char (char_of (97 + code_of c div 16))" "token_char (char_of (97 + code_of c mod 16))" for c
  proof -
    have "0 \<le> code_of c div 16 \<and> code_of c div 16 < 16"
      using code_of_less [of c] by auto
    moreover have "code_of c mod 16 \<le> 25"
      using pos_mod_bound [of 16 "code_of c"] by linarith
    ultimately show "token_char (char_of (97 + code_of c div 16))" "token_char (char_of (97 + code_of c mod 16))"
      by (simp_all add: token_char_def is_ascii_alphanumeric_def is_ascii_lowercase_def code_of_char_of)
  qed
  then have "list_all token_char (demo_encode b)" for b
    by (induction b) (simp_all add: demo_encode_def)
  then show ?thesis by (simp add: url_safe_def demo_auth_def)
qed

definition demo_browser :: headers where
  "demo_browser = [''cookie'' \<mapsto> Some ''theme=dark; __Host-snm_refresh=snm_rt_hc; __Host-snm_csrf=csrf_gd'',
     csrf_header \<mapsto> Some ''csrf_gd'']"

theorem csrf_double_submit_witness:
  "\<exists>db' resp. http_refresh demo_auth (demo_draw 22 ''s'') 2000000000 demo_browser (fst demo_login) = Some (db', resp)
     \<and> ar_status resp = OK_200
     \<and> (\<exists>token cookie. cookie_value demo_browser (refresh_cookie_name demo_auth) = Some token
          \<and> cookie_value demo_browser (csrf_cookie_name demo_auth) = Some cookie)"
proof -
  have "map_option (ar_status \<circ> snd)
      (http_refresh demo_auth (demo_draw 22 ''s'') 2000000000 demo_browser (fst demo_login)) = Some OK_200"
    by code_simp
  then obtain db' resp where r: "http_refresh demo_auth (demo_draw 22 ''s'') 2000000000 demo_browser
      (fst demo_login) = Some (db', resp)" "ar_status resp = OK_200"
    by auto
  from csrf_double_submit [OF demo_auth_laws disjI1 [OF conjI [OF r(1) disjI2 [OF r(2)]]]] r
  show ?thesis by blast
qed


end
