(* ===== verification/Authorization.thy ===== *)
theory Authorization
  imports Auth_Http Rbac
begin

text \<open>
  The authorization service of the backend (\<open>apps/backend/src/authorization.rs\<close>): it authenticates the
  bearer token of a request against the session and the user, and decides whether the principal
  has a permission on a site by a query over sites, bindings, roles and permissions.

  The query meets the contract \<open>scope_authorizer\<close> of the theory \<open>Rbac\<close>, so the lemmas on confinement
  proved there hold of it, and it agrees with the \<open>authorize\<close> of the security crate on the grants
  that the tables hold for the principal.
\<close>

section \<open>The service\<close>

record authorization_service = token_ops +
  az_access_key :: bytes
  az_issuer :: string
  az_audience :: string

record principal =
  pr_session_id :: uuid
  pr_user_id :: uuid
  pr_organization_id :: uuid

datatype authorization_init_error = AzMissingOrWeakAccessTokenKey | AzSigningKey

datatype authorization_error = AzInvalidSession | AzPermissionDenied | AzUnavailable

definition authorization_new ::
  "authorization_service \<Rightarrow> bytes \<Rightarrow> string \<Rightarrow> string
     \<Rightarrow> authorization_init_error + authorization_service" where
  "authorization_new crates signing_secret issuer audience =
     (if length signing_secret < 32 then Inl AzMissingOrWeakAccessTokenKey else
      bindR (map_err (\<lambda>_. AzSigningKey) (access_token_key_new signing_secret)) (\<lambda>access_key.
      Inr (crates\<lparr>az_access_key := access_key, az_issuer := issuer, az_audience := audience\<rparr>)))"

definition authorization_from_env ::
  "authorization_service \<Rightarrow> environment \<Rightarrow> authorization_init_error + authorization_service" where
  "authorization_from_env crates env =
     bindR (ok_or AzMissingOrWeakAccessTokenKey (env ''SNM_ACCESS_TOKEN_KEY'')) (\<lambda>signing_secret.
     let issuer = unwrap_or ''snm'' (env ''SNM_AUTH_ISSUER'');
         audience = unwrap_or ''snm-api'' (env ''SNM_AUTH_AUDIENCE'')
     in authorization_new crates signing_secret issuer audience)"

definition authorization_bearer_token :: "headers \<Rightarrow> string option" where
  "authorization_bearer_token hs =
     Option.bind (header_to_str hs ''authorization'') (\<lambda>text.
     Option.bind (strip_prefix ''Bearer '' text) (\<lambda>value.
     if value = [] then None else Some value))"

text \<open>The session joined with its user in its organization.\<close>

definition session_with_user :: "identity_db \<Rightarrow> uuid \<Rightarrow> (session_row \<times> user_row) option" where
  "session_with_user db i =
     (case session_of db i of None \<Rightarrow> None
      | Some s \<Rightarrow> map_option (Pair s) (List.find (\<lambda>u. us_id u = ss_user_id s
          \<and> us_organization_id u = ss_organization_id s) (db_users db)))"

definition authenticate ::
  "authorization_service \<Rightarrow> timestamp \<Rightarrow> headers \<Rightarrow> identity_db \<Rightarrow> authorization_error + principal" where
  "authenticate az now hs db =
     bindR (ok_or AzInvalidSession (authorization_bearer_token hs)) (\<lambda>token.
     bindR (map_err (\<lambda>_. AzInvalidSession) (decode_access_token az token (az_access_key az)
         (unix_seconds now) (az_issuer az) (az_audience az))) (\<lambda>claims.
     bindR (ok_or AzInvalidSession (session_with_user db (cl_sid claims))) (\<lambda>(s, u).
     if ss_user_id s \<noteq> cl_sub claims \<or> ss_organization_id s \<noteq> cl_org claims
        \<or> us_status u \<noteq> ''active''
        \<or> ss_revoked_at s \<noteq> None \<or> ss_expires_at s \<le> now
        \<or> (case ss_access_revoked_before s of None \<Rightarrow> False
           | Some cutoff \<Rightarrow> cl_iat claims \<le> unix_seconds cutoff)
     then Inl AzInvalidSession
     else Inr \<lparr>pr_session_id = cl_sid claims, pr_user_id = ss_user_id s,
            pr_organization_id = ss_organization_id s\<rparr>)))"

text \<open>The \<open>EXISTS\<close> query. A role is usable when it is global or of the organization.\<close>

definition usable_role :: "identity_db \<Rightarrow> uuid \<Rightarrow> uuid \<Rightarrow> bool" where
  "usable_role db org role \<longleftrightarrow> list_ex (\<lambda>r. ro_id r = role
     \<and> (ro_organization_id r = None \<or> ro_organization_id r = Some org)) (db_roles db)"

definition site_permission_exists ::
  "identity_db \<Rightarrow> uuid \<Rightarrow> uuid \<Rightarrow> string \<Rightarrow> uuid \<Rightarrow> bool" where
  "site_permission_exists db organization_id user_id permission site_id \<longleftrightarrow>
     list_ex (\<lambda>s. si_id s = site_id \<and> si_organization_id s = organization_id
       \<and> list_ex (\<lambda>rb. rb_organization_id rb = si_organization_id s \<and> rb_user_id rb = Some user_id
            \<and> (rb_site_id rb = None \<or> rb_site_id rb = Some (si_id s))
            \<and> usable_role db organization_id (rb_role_id rb)
            \<and> permission \<in> set (codes_of_role db (rb_role_id rb)))
          (db_role_bindings db))
       (db_sites db)"

definition require_site_permission ::
  "identity_db \<Rightarrow> principal \<Rightarrow> uuid \<Rightarrow> string \<Rightarrow> authorization_error + unit" where
  "require_site_permission db pr site_id permission =
     (if trim permission = [] \<or> length permission > 120 then Inl AzPermissionDenied
      else if site_permission_exists db (pr_organization_id pr) (pr_user_id pr) permission site_id
      then Inr () else Inl AzPermissionDenied)"

section \<open>The contract holds\<close>

type_synonym site_context = "identity_db \<times> principal"

definition principal_grants :: "site_context \<Rightarrow> grant_key set" where
  "principal_grants = (\<lambda>(db, pr). {(p, org, s). org = pr_organization_id pr
     \<and> (\<exists>rb \<in> set (db_role_bindings db). rb_organization_id rb = org
          \<and> rb_user_id rb = Some (pr_user_id pr) \<and> rb_site_id rb = s
          \<and> usable_role db org (rb_role_id rb) \<and> p \<in> set (codes_of_role db (rb_role_id rb)))})"

definition site_request_ok :: "site_context \<Rightarrow> string \<Rightarrow> uuid \<Rightarrow> uuid option \<Rightarrow> bool" where
  "site_request_ok = (\<lambda>(db, pr) p org site. trim p \<noteq> [] \<and> length p \<le> 120 \<and> org = pr_organization_id pr
     \<and> (\<exists>s \<in> set (db_sites db). site = Some (si_id s) \<and> si_organization_id s = org))"

definition site_allows :: "site_context \<Rightarrow> string \<Rightarrow> uuid \<Rightarrow> uuid option \<Rightarrow> bool" where
  "site_allows = (\<lambda>(db, pr) p org site. org = pr_organization_id pr
     \<and> (\<exists>s. site = Some s \<and> is_ok (require_site_permission db pr s p)))"

lemma require_ok_iff:
  "is_ok (require_site_permission db pr site p) \<longleftrightarrow>
     trim p \<noteq> [] \<and> length p \<le> 120
     \<and> site_permission_exists db (pr_organization_id pr) (pr_user_id pr) p site"
  by (simp add: require_site_permission_def)

lemma site_permission_exists_iff:
  "site_permission_exists db org u p site \<longleftrightarrow>
     (\<exists>s \<in> set (db_sites db). si_id s = site \<and> si_organization_id s = org)
     \<and> (\<exists>rb \<in> set (db_role_bindings db). rb_organization_id rb = org \<and> rb_user_id rb = Some u
          \<and> (rb_site_id rb = None \<or> rb_site_id rb = Some site)
          \<and> usable_role db org (rb_role_id rb) \<and> p \<in> set (codes_of_role db (rb_role_id rb)))"
proof -
  have step: "si_id s = site \<and> si_organization_id s = org
      \<and> (\<exists>rb \<in> set (db_role_bindings db). rb_organization_id rb = si_organization_id s \<and> rb_user_id rb = Some u
         \<and> (rb_site_id rb = None \<or> rb_site_id rb = Some (si_id s))
         \<and> usable_role db org (rb_role_id rb) \<and> p \<in> set (codes_of_role db (rb_role_id rb)))
    \<longleftrightarrow> (si_id s = site \<and> si_organization_id s = org)
      \<and> (\<exists>rb \<in> set (db_role_bindings db). rb_organization_id rb = org \<and> rb_user_id rb = Some u
         \<and> (rb_site_id rb = None \<or> rb_site_id rb = Some site)
         \<and> usable_role db org (rb_role_id rb) \<and> p \<in> set (codes_of_role db (rb_role_id rb)))" for s
    by (simp cong: conj_cong)
  show ?thesis
    unfolding site_permission_exists_def list_ex_iff step by blast
qed

interpretation site_authorizer: scope_authorizer principal_grants site_request_ok site_allows
proof
  fix c :: site_context and p org site
  obtain db pr where c: "c = (db, pr)" by (cases c)
  show "site_allows c p org site \<longleftrightarrow> site_request_ok c p org site
      \<and> (\<exists>s. (p, org, s) \<in> principal_grants c \<and> (s = None \<or> s = site))"
    unfolding c site_allows_def require_ok_iff site_permission_exists_iff site_request_ok_def
      principal_grants_def prod.case mem_Collect_eq by blast
qed

lemma require_iff_allows:
  "is_ok (require_site_permission db pr site p) \<longleftrightarrow>
     site_allows (db, pr) p (pr_organization_id pr) (Some site)"
  by (simp add: site_allows_def)

section \<open>Properties\<close>

text \<open>The grants the tables hold for a principal, as a context of the security crate.\<close>

definition context_of_principal :: "identity_db \<Rightarrow> principal \<Rightarrow> authorization_context" where
  "context_of_principal db pr = \<lparr>ac_actor_id = pr_user_id pr, ac_session_id = pr_session_id pr,
     ac_grants = concat (map (\<lambda>rb. map (\<lambda>p. \<lparr>pg_permission = p,
           pg_scope = \<lparr>rs_organization_id = pr_organization_id pr, rs_site_id = rb_site_id rb\<rparr>\<rparr>)
         (codes_of_role db (rb_role_id rb)))
       (filter (\<lambda>rb. rb_organization_id rb = pr_organization_id pr
            \<and> rb_user_id rb = Some (pr_user_id pr)
            \<and> usable_role db (pr_organization_id pr) (rb_role_id rb)) (db_role_bindings db)))\<rparr>"

lemma context_grants_of_principal: "context_grants (context_of_principal db pr) = principal_grants (db, pr)"
  by (force simp: context_grants_def context_of_principal_def principal_grants_def)

text \<open>C18: The SQL decision is the decision of the security crate: a principal is allowed a permission on a
  site exactly when the permission text is acceptable, the site belongs to the principal's
  organization, and \<open>authorize\<close> allows it on the grants that the bindings of the user hold.\<close>

theorem site_permission_agrees_with_rbac:
  "require_site_permission db pr site p = Inr () \<longleftrightarrow>
     trim p \<noteq> [] \<and> length p \<le> 120
     \<and> (\<exists>s \<in> set (db_sites db). si_id s = site \<and> si_organization_id s = pr_organization_id pr)
     \<and> authorize (context_of_principal db pr) \<lparr>ar_permission = p,
         ar_scope = \<lparr>rs_organization_id = pr_organization_id pr, rs_site_id = Some site\<rparr>\<rparr> = Inr ()"
proof -
  have "require_site_permission db pr site p = Inr () \<longleftrightarrow>
      site_allows (db, pr) p (pr_organization_id pr) (Some site)"
    by (simp add: require_iff_allows [symmetric] is_ok_iff)
  also have "\<dots> \<longleftrightarrow> site_request_ok (db, pr) p (pr_organization_id pr) (Some site)
      \<and> (\<exists>s. (p, pr_organization_id pr, s) \<in> context_grants (context_of_principal db pr)
          \<and> (s = None \<or> s = Some site))"
    by (simp only: site_authorizer.allowed_iff context_grants_of_principal)
  finally show ?thesis
    using context_authorizer.allowed_iff [of "context_of_principal db pr" p "pr_organization_id pr" "Some site"]
    by (auto simp: site_request_ok_def authorize_as_context)
qed

text \<open>Bindings do not leak between sites or organizations: a principal all of whose bindings are on one
  site is denied every permission on every other site, and a site of another organization is
  denied to everyone.\<close>

theorem site_bindings_confine:
  assumes "require_site_permission db pr site p = Inr ()"
  shows "(\<exists>s \<in> set (db_sites db). si_id s = site \<and> si_organization_id s = pr_organization_id pr)
    \<and> ((\<forall>rb \<in> set (db_role_bindings db). rb_organization_id rb = pr_organization_id pr
           \<and> rb_user_id rb = Some (pr_user_id pr) \<longrightarrow> rb_site_id rb = Some own) \<longrightarrow> site = own)"
proof -
  have allowed: "site_allows (db, pr) p (pr_organization_id pr) (Some site)"
    using assms by (simp add: require_iff_allows [symmetric])
  then have "\<exists>s \<in> set (db_sites db). si_id s = site \<and> si_organization_id s = pr_organization_id pr"
    unfolding site_authorizer.allowed_iff by (auto simp: site_request_ok_def)
  moreover have "site = own" if confined: "\<forall>rb \<in> set (db_role_bindings db).
      rb_organization_id rb = pr_organization_id pr \<and> rb_user_id rb = Some (pr_user_id pr)
      \<longrightarrow> rb_site_id rb = Some own"
  proof -
    have "s' = Some own" if "(p', o', s') \<in> principal_grants (db, pr)" for p' o' s'
      using that confined by (auto simp: principal_grants_def)
    from site_authorizer.site_grant_stays_on_site [OF this allowed] show ?thesis by simp
  qed
  ultimately show ?thesis by blast
qed

lemma same_bearer: "authorization_bearer_token hs = bearer_token hs"
  by (simp add: authorization_bearer_token_def bearer_token_def)

text \<open>C19: An authenticated principal is current: the token is one that \<open>authenticate_access\<close> accepts for the
  same session, user and organization, the session is neither revoked nor expired, and the user
  is active now, whatever the token says. Nothing else is ever answered but an invalid session.\<close>

theorem authenticated_principal_is_current:
  assumes "token_ops.truncate az = token_ops.truncate auth" and "az_access_key az = as_access_key auth"
    and "az_issuer az = as_issuer auth" and "az_audience az = as_audience auth"
  shows "(\<forall>pr. authenticate az now hs db = Inr pr \<longrightarrow>
      (\<exists>token s. bearer_token hs = Some token \<and> session_of db (pr_session_id pr) = Some s
        \<and> ss_revoked_at s = None \<and> now < ss_expires_at s
        \<and> (\<exists>u \<in> set (db_users db). us_id u = pr_user_id pr
             \<and> us_organization_id u = pr_organization_id pr \<and> us_status u = ''active'')
        \<and> authenticate_access auth now token db = Inr \<lparr>sn_session_id = pr_session_id pr,
            sn_user_id = pr_user_id pr, sn_organization_id = pr_organization_id pr,
            sn_permissions = permissions_for_user db (pr_organization_id pr) (pr_user_id pr)\<rparr>))
    \<and> (\<forall>e. authenticate az now hs db = Inl e \<longrightarrow> e = AzInvalidSession)"
proof -
  have ops: "b64_decode az = b64_decode auth" "hmac_new az = hmac_new auth"
    "header_from_slice az = header_from_slice auth" "claims_from_slice az = claims_from_slice auth"
    using assms(1) by (simp_all add: token_ops.truncate_def)
  have decode: "decode_access_token az t k n i a = decode_access_token auth t k n i a" for t k n i a
    unfolding decode_access_token_def key_mac_def ops ..
  have "\<exists>token s. bearer_token hs = Some token \<and> session_of db (pr_session_id pr) = Some s
        \<and> ss_revoked_at s = None \<and> now < ss_expires_at s
        \<and> (\<exists>u \<in> set (db_users db). us_id u = pr_user_id pr
             \<and> us_organization_id u = pr_organization_id pr \<and> us_status u = ''active'')
        \<and> authenticate_access auth now token db = Inr \<lparr>sn_session_id = pr_session_id pr,
            sn_user_id = pr_user_id pr, sn_organization_id = pr_organization_id pr,
            sn_permissions = permissions_for_user db (pr_organization_id pr) (pr_user_id pr)\<rparr>"
    if ok: "authenticate az now hs db = Inr pr" for pr
  proof -
    obtain token claims s u where t: "bearer_token hs = Some token"
      "decode_access_token auth token (as_access_key auth) (unix_seconds now) (as_issuer auth)
         (as_audience auth) = Inr claims"
      "session_with_user db (cl_sid claims) = Some (s, u)"
      "\<not> (ss_user_id s \<noteq> cl_sub claims \<or> ss_organization_id s \<noteq> cl_org claims
        \<or> us_status u \<noteq> ''active'' \<or> ss_revoked_at s \<noteq> None \<or> ss_expires_at s \<le> now
        \<or> (case ss_access_revoked_before s of None \<Rightarrow> False
           | Some cutoff \<Rightarrow> cl_iat claims \<le> unix_seconds cutoff))"
      "pr = \<lparr>pr_session_id = cl_sid claims, pr_user_id = ss_user_id s,
            pr_organization_id = ss_organization_id s\<rparr>"
      using ok unfolding authenticate_def same_bearer decode assms(2-4)
      by (auto simp: result_simps split: if_splits)
    have s: "session_of db (cl_sid claims) = Some s"
      and u: "List.find (\<lambda>u. us_id u = ss_user_id s \<and> us_organization_id u = ss_organization_id s)
        (db_users db) = Some u"
      using t(3) by (auto simp: session_with_user_def split: option.splits)
    have "u \<in> set (db_users db) \<and> us_id u = ss_user_id s \<and> us_organization_id u = ss_organization_id s"
      using find_Some_set [OF u] by blast
    moreover have "authenticate_access auth now token db = Inr \<lparr>sn_session_id = cl_sid claims,
        sn_user_id = ss_user_id s, sn_organization_id = ss_organization_id s,
        sn_permissions = permissions_for_user db (ss_organization_id s) (ss_user_id s)\<rparr>"
      using t(2,4) s by (simp add: authenticate_access_def)
    ultimately show ?thesis using t(1,4) s unfolding t(5) by auto
  qed
  moreover have "e = AzInvalidSession" if "authenticate az now hs db = Inl e" for e
    using that by (auto simp: authenticate_def result_simps split: if_splits)
  ultimately show ?thesis by blast
qed

section \<open>Witnesses\<close>

definition demo_az :: authorization_service where
  "demo_az = \<lparr>b64_encode = demo_encode, b64_decode = demo_decode,
     hmac_new = hmac_new demo_auth, sha256 = sha256 demo_auth,
     header_to_vec = header_to_vec demo_auth, header_from_slice = header_from_slice demo_auth,
     claims_to_vec = claims_to_vec demo_auth, claims_from_slice = claims_from_slice demo_auth,
     az_access_key = as_access_key demo_auth, az_issuer = ''snm'', az_audience = ''snm-api''\<rparr>"

definition demo_bearer :: headers where
  "demo_bearer = [''authorization'' \<mapsto> Some (''Bearer '' @ is_access_token (projr (snd demo_login)))]"

definition demo_principal :: principal where
  "demo_principal = \<lparr>pr_session_id = 3, pr_user_id = 1, pr_organization_id = 2\<rparr>"

text \<open>The organization with two sites, and the viewer's binding confined to site 20.\<close>

definition demo_sites_db :: identity_db where
  "demo_sites_db = demo_identity_db\<lparr>
     db_sites := [\<lparr>si_id = 20, si_organization_id = 2, si_slug = ''a'', si_name = ''A''\<rparr>,
       \<lparr>si_id = 21, si_organization_id = 2, si_slug = ''b'', si_name = ''B''\<rparr>],
     db_role_bindings := map (\<lambda>rb. rb\<lparr>rb_site_id := Some 20\<rparr>) (db_role_bindings demo_identity_db)\<rparr>"

lemma demo_authenticates: "authenticate demo_az 1100000000 demo_bearer (fst demo_login) = Inr demo_principal"
  by code_simp

lemma demo_site_allowed: "require_site_permission demo_sites_db demo_principal 20 ''devices.view'' = Inr ()"
  by code_simp

theorem authenticated_principal_is_current_witness:
  "authenticate demo_az 1100000000 demo_bearer (fst demo_login) = Inr demo_principal
   \<and> (\<exists>s. session_of (fst demo_login) 3 = Some s \<and> ss_revoked_at s = None)
   \<and> (\<exists>u \<in> set (db_users (fst demo_login)). us_id u = 1 \<and> us_status u = ''active'')"
proof -
  have same: "token_ops.truncate demo_az = token_ops.truncate demo_auth"
    "az_access_key demo_az = as_access_key demo_auth" "az_issuer demo_az = as_issuer demo_auth"
    "az_audience demo_az = as_audience demo_auth"
    by (simp_all add: demo_az_def demo_auth_def token_ops.truncate_def)
  have ids: "pr_session_id demo_principal = 3" "pr_user_id demo_principal = 1"
    by (simp_all add: demo_principal_def)
  from authenticated_principal_is_current [OF same, THEN conjunct1, rule_format, OF demo_authenticates]
  show ?thesis unfolding ids using demo_authenticates by blast
qed

theorem site_bindings_confine_witness:
  "require_site_permission demo_sites_db demo_principal 20 ''devices.view'' = Inr ()
   \<and> require_site_permission demo_sites_db demo_principal 21 ''devices.view'' = Inl AzPermissionDenied
   \<and> (\<exists>s \<in> set (db_sites demo_sites_db). si_id s = 20 \<and> si_organization_id s = 2)"
proof -
  have "require_site_permission demo_sites_db demo_principal 21 ''devices.view'' = Inl AzPermissionDenied"
    by code_simp
  moreover have "pr_organization_id demo_principal = 2" by (simp add: demo_principal_def)
  ultimately show ?thesis
    using demo_site_allowed site_bindings_confine [OF demo_site_allowed] by metis
qed

text \<open>The refresh route and the me route do not look at the user: one who was disabled is refused by
  every inventory route at once, but is still issued new tokens and read back by \<open>me\<close>.\<close>

definition demo_disabled :: identity_db where
  "demo_disabled = (fst demo_login)\<lparr>db_users := map (\<lambda>u. u\<lparr>us_status := ''disabled''\<rparr>)
     (db_users (fst demo_login))\<rparr>"

lemma disabled_user_keeps_session:
  "authenticate demo_az 1100000000 demo_bearer demo_disabled = Inl AzInvalidSession
   \<and> ar_status (http_me demo_auth 1100000000 demo_bearer demo_disabled) = OK_200
   \<and> map_option (ar_status \<circ> snd) (http_refresh demo_auth (demo_draw 22 ''s'') 2000000000 demo_browser
        demo_disabled) = Some OK_200"
  by (intro conjI; code_simp)

text \<open>The permissions listed for a user, in the token and by \<open>me\<close>, ignore the site of the binding.\<close>

lemma listed_permissions_ignore_sites:
  "permissions_for_user demo_sites_db 2 1 = [''devices.view'']
   \<and> require_site_permission demo_sites_db demo_principal 21 ''devices.view'' = Inl AzPermissionDenied"
  by (intro conjI; code_simp)

end
