(* ===== verification/Startup.thy ===== *)
theory Startup
  imports Sessions Audit_Chain Execution
begin

text \<open>
  Configuration, start and readiness of the backend: \<open>apps/backend/src/config.rs\<close> (a validated
  configuration that \<open>main.rs\<close> does not use yet), the environment readers, readiness and bootstrap
  calls of \<open>main.rs\<close>, \<open>bootstrap_scope\<close> of \<open>db.rs\<close> and \<open>bootstrap_admin\<close> of \<open>auth.rs\<close>.
\<close>

section \<open>Numbers\<close>

text \<open>\<open>str::parse\<close> for an unsigned type whose greatest value is given: an optional plus sign, at least one
  digit, no overflow.\<close>

fun digits_value :: "int \<Rightarrow> string \<Rightarrow> int" where
  "digits_value acc [] = acc"
| "digits_value acc (c # s) = digits_value (acc * 10 + (code_of c - 48)) s"

definition parse_unsigned :: "int \<Rightarrow> string \<Rightarrow> int option" where
  "parse_unsigned greatest s =
     (let body = (case s of CHR ''+'' # rest \<Rightarrow> rest | _ \<Rightarrow> s)
      in if body = [] \<or> \<not> list_all is_ascii_digit body then None
         else if digits_value 0 body > greatest then None
         else Some (digits_value 0 body))"

definition u32_max :: int where "u32_max = 2 ^ 32 - 1"
definition u64_max :: int where "u64_max = 2 ^ 64 - 1"

section \<open>The validated configuration\<close>

record backend_config =
  bc_bind :: socket_addr
  bc_runtime_url :: string
  bc_database_url :: string
  bc_redis_url :: string
  bc_database_max_connections :: int
  bc_run_migrations :: bool
  bc_request_timeout_ms :: int
  bc_body_limit_bytes :: int
  bc_inventory_require_approval :: bool

datatype config_error =
    CfgMissing string | CfgInvalidSocketAddress string | CfgInvalidUrlScheme string
  | CfgInvalidBoolean string | CfgInvalidInteger string | CfgOutOfRange string int int

definition read_or_default :: "environment \<Rightarrow> string \<Rightarrow> string \<Rightarrow> string" where
  "read_or_default env name dflt = (case env name of
       Some value \<Rightarrow> if trim value \<noteq> [] then value else dflt | None \<Rightarrow> dflt)"

definition required :: "environment \<Rightarrow> string \<Rightarrow> config_error + string" where
  "required env name = (case env name of
       Some value \<Rightarrow> if trim value \<noteq> [] then Inr (trim value) else Inl (CfgMissing name)
     | None \<Rightarrow> Inl (CfgMissing name))"

definition normalized_http_url :: "string \<Rightarrow> string \<Rightarrow> config_error + string" where
  "normalized_http_url name value =
     (let value = trim_end_matches (CHR ''/'') (trim value)
      in if starts_with ''http://'' value \<or> starts_with ''https://'' value then Inr value
         else Inl (CfgInvalidUrlScheme name))"

definition require_scheme :: "string \<Rightarrow> string \<Rightarrow> string list \<Rightarrow> config_error + unit" where
  "require_scheme name value allowed =
     (if list_ex (\<lambda>scheme. starts_with scheme value) allowed then Inr ()
      else Inl (CfgInvalidUrlScheme name))"

definition parse_bool :: "string option \<Rightarrow> bool \<Rightarrow> string \<Rightarrow> config_error + bool" where
  "parse_bool value dflt name = (case value of
       None \<Rightarrow> Inr dflt
     | Some value \<Rightarrow>
         (let v = to_ascii_lowercase (trim value) in
          if v \<in> {''1'', ''true'', ''yes'', ''on''} then Inr True
          else if v \<in> {''0'', ''false'', ''no'', ''off''} then Inr False
          else Inl (CfgInvalidBoolean name)))"

text \<open>The three bounded readers differ in the integer type they parse; \<open>usize\<close> is 64 bits wide.\<close>

definition parse_bounded ::
  "int \<Rightarrow> environment \<Rightarrow> string \<Rightarrow> int \<Rightarrow> int \<Rightarrow> int \<Rightarrow> config_error + int" where
  "parse_bounded greatest env name dflt lo hi =
     bindR (case env name of
         Some value \<Rightarrow> if trim value \<noteq> []
           then ok_or (CfgInvalidInteger name) (parse_unsigned greatest (trim value)) else Inr dflt
       | None \<Rightarrow> Inr dflt) (\<lambda>value.
     if lo \<le> value \<and> value \<le> hi then Inr value else Inl (CfgOutOfRange name lo hi))"

definition parse_bounded_u32 where "parse_bounded_u32 = parse_bounded u32_max"
definition parse_bounded_u64 where "parse_bounded_u64 = parse_bounded u64_max"
definition parse_bounded_usize where "parse_bounded_usize = parse_bounded u64_max"

definition config_from_reader :: "environment \<Rightarrow> config_error + backend_config" where
  "config_from_reader env =
     bindR (ok_or (CfgInvalidSocketAddress ''SNM_BACKEND_BIND'')
       (parse_socket_addr (read_or_default env ''SNM_BACKEND_BIND'' ''127.0.0.1:8080''))) (\<lambda>bind.
     bindR (normalized_http_url ''SNM_RUNTIME_URL''
       (read_or_default env ''SNM_RUNTIME_URL'' ''http://127.0.0.1:9765'')) (\<lambda>runtime_url.
     bindR (required env ''DATABASE_URL'') (\<lambda>database_url.
     bindR (require_scheme ''DATABASE_URL'' database_url [''postgres://'', ''postgresql://'']) (\<lambda>_.
     bindR (required env ''REDIS_URL'') (\<lambda>redis_url.
     bindR (require_scheme ''REDIS_URL'' redis_url [''redis://'', ''rediss://'']) (\<lambda>_.
     bindR (parse_bounded_u32 env ''SNM_DATABASE_MAX_CONNECTIONS'' 10 1 100) (\<lambda>database_max_connections.
     bindR (parse_bounded_u64 env ''SNM_REQUEST_TIMEOUT_MS'' 15000 100 120000) (\<lambda>request_timeout_ms.
     bindR (parse_bounded_usize env ''SNM_HTTP_BODY_LIMIT_BYTES'' 1048576 1024 (16 * 1024 * 1024))
       (\<lambda>body_limit_bytes.
     bindR (parse_bool (env ''SNM_RUN_MIGRATIONS'') True ''SNM_RUN_MIGRATIONS'') (\<lambda>run_migrations.
     bindR (parse_bool (env ''SNM_INVENTORY_REQUIRE_APPROVAL'') True ''SNM_INVENTORY_REQUIRE_APPROVAL'')
       (\<lambda>inventory_require_approval.
     Inr \<lparr>bc_bind = bind, bc_runtime_url = runtime_url, bc_database_url = database_url,
       bc_redis_url = redis_url, bc_database_max_connections = database_max_connections,
       bc_run_migrations = run_migrations, bc_request_timeout_ms = request_timeout_ms,
       bc_body_limit_bytes = body_limit_bytes,
       bc_inventory_require_approval = inventory_require_approval\<rparr>)))))))))))"

section \<open>The readers main uses\<close>

definition env_bool :: "environment \<Rightarrow> string \<Rightarrow> bool \<Rightarrow> bool" where
  "env_bool env name dflt = unwrap_or dflt (map_option
     (\<lambda>value. to_ascii_lowercase value \<in> {''1'', ''true'', ''yes'', ''on''}) (env name))"

definition env_flag :: "environment \<Rightarrow> string \<Rightarrow> bool" where
  "env_flag env name = env_bool env name False"

definition non_empty_env :: "environment \<Rightarrow> string \<Rightarrow> string option" where
  "non_empty_env env name = (case env name of
       Some value \<Rightarrow> if trim value \<noteq> [] then Some value else None | None \<Rightarrow> None)"

text \<open>The size of the connection pool: what \<open>main\<close> reads, clamped by \<open>Database::connect\<close>.\<close>

definition pool_max_connections :: "environment \<Rightarrow> int" where
  "pool_max_connections env = clampi 1 64 (unwrap_or 10
     (Option.bind (env ''SNM_DATABASE_MAX_CONNECTIONS'') (parse_unsigned u32_max)))"

section \<open>Readiness\<close>

datatype runtime_health = RuntimeReady | RuntimeUnavailable

text \<open>The answer of the runtime to the health request, \<open>None\<close> when there was none.\<close>

definition http_runtime_health :: "int option \<Rightarrow> runtime_health" where
  "http_runtime_health answer = (case answer of
       Some status \<Rightarrow> if 200 \<le> status \<and> status < 300 then RuntimeReady else RuntimeUnavailable
     | None \<Rightarrow> RuntimeUnavailable)"

text \<open>The database health: \<open>None\<close> when the probe failed; the migration count falls back to 0.\<close>

definition database_health :: "bool \<Rightarrow> i64 option \<Rightarrow> i64 option" where
  "database_health probe count = (if probe then Some (unwrap_or 0 count) else None)"

record readiness_response =
  rr_status :: string
  rr_database :: string
  rr_redis :: string
  rr_runtime :: string
  rr_applied_migrations :: i64

definition ready ::
  "runtime_health \<Rightarrow> bool \<Rightarrow> i64 option \<Rightarrow> status_code \<times> readiness_response" where
  "ready runtime redis_ok db_health =
     (let runtime_status = (case runtime of RuntimeReady \<Rightarrow> ''ready'' | RuntimeUnavailable \<Rightarrow> ''unavailable'');
          redis_status = (if redis_ok then ''ready'' else ''unavailable'')
      in case db_health of
        None \<Rightarrow> (SERVICE_UNAVAILABLE_503, \<lparr>rr_status = ''not_ready'', rr_database = ''unavailable'',
          rr_redis = redis_status, rr_runtime = runtime_status, rr_applied_migrations = 0\<rparr>)
      | Some migration_count \<Rightarrow>
          if \<not> redis_ok
          then (SERVICE_UNAVAILABLE_503, \<lparr>rr_status = ''not_ready'', rr_database = ''ready'',
            rr_redis = ''unavailable'', rr_runtime = runtime_status,
            rr_applied_migrations = migration_count\<rparr>)
          else (OK_200, \<lparr>rr_status = (case runtime of RuntimeReady \<Rightarrow> ''ready'' | RuntimeUnavailable \<Rightarrow> ''degraded''),
            rr_database = ''ready'', rr_redis = ''ready'', rr_runtime = runtime_status,
            rr_applied_migrations = migration_count\<rparr>))"

section \<open>Bootstrap\<close>

datatype sql_error = SqlConstraintViolation

text \<open>The checks of the tables: the slug pattern \<open>^[a-z0-9][a-z0-9-]{1,62}$\<close>, and a name that is not all
  blanks (\<open>trim\<close> of the database removes spaces only).\<close>

definition slug_byte :: "char \<Rightarrow> bool" where
  "slug_byte c \<longleftrightarrow> is_ascii_lowercase c \<or> is_ascii_digit c"

definition slug_ok :: "string \<Rightarrow> bool" where
  "slug_ok s = (case s of [] \<Rightarrow> False | c # rest \<Rightarrow> slug_byte c
     \<and> list_all (\<lambda>d. slug_byte d \<or> d = CHR ''-'') rest \<and> 1 \<le> length rest \<and> length rest \<le> 62)"

definition name_ok :: "string \<Rightarrow> bool" where
  "name_ok s = list_ex (\<lambda>c. c \<noteq> CHR '' '') s"

record scope_draw =
  sd_organization_id :: uuid
  sd_site_id :: uuid
  sd_routing_domain_id :: uuid

definition bootstrap_scope ::
  "scope_draw \<Rightarrow> string \<Rightarrow> string \<Rightarrow> string \<Rightarrow> string \<Rightarrow> identity_db
     \<Rightarrow> sql_error + (identity_db \<times> (uuid \<times> uuid \<times> uuid))" where
  "bootstrap_scope dr organization_slug organization_name site_slug site_name db =
     bindR (ensure (slug_ok organization_slug \<and> name_ok organization_name) SqlConstraintViolation) (\<lambda>_.
     bindR (upsert SqlConstraintViolation (\<lambda>g. og_slug g = organization_slug)
         (\<lambda>g. og_id g = sd_organization_id dr)
         \<lparr>og_id = sd_organization_id dr, og_slug = organization_slug, og_name = organization_name\<rparr>
         (og_name_update (\<lambda>_. organization_name)) (db_organizations db)) (\<lambda>(organizations, g).
     bindR (ensure (name_ok site_name) SqlConstraintViolation) (\<lambda>_.
     bindR (upsert SqlConstraintViolation
         (\<lambda>s. si_organization_id s = og_id g \<and> si_slug s = site_slug)
         (\<lambda>s. si_id s = sd_site_id dr)
         \<lparr>si_id = sd_site_id dr, si_organization_id = og_id g, si_slug = site_slug, si_name = site_name\<rparr>
         (si_name_update (\<lambda>_. site_name)) (db_sites db)) (\<lambda>(sites, s).
     bindR (ensure (\<not> list_ex (\<lambda>d. rg_organization_id d = og_id g \<and> rg_site_id d = si_id s
           \<and> rg_is_default d \<and> rg_name d \<noteq> ''default'') (db_routing_domains db)) SqlConstraintViolation) (\<lambda>_.
     bindR (upsert SqlConstraintViolation
         (\<lambda>d. rg_organization_id d = og_id g \<and> rg_site_id d = si_id s \<and> rg_name d = ''default'')
         (\<lambda>d. rg_id d = sd_routing_domain_id dr)
         \<lparr>rg_id = sd_routing_domain_id dr, rg_organization_id = og_id g, rg_site_id = si_id s,
          rg_name = ''default'', rg_is_default = True\<rparr>
         (rg_is_default_update (\<lambda>_. True)) (db_routing_domains db)) (\<lambda>(domains, d).
     Inr (db\<lparr>db_organizations := organizations, db_sites := sites, db_routing_domains := domains\<rparr>,
       (og_id g, si_id s, rg_id d))))))))"

definition maybe_bootstrap_scope ::
  "environment \<Rightarrow> scope_draw \<Rightarrow> identity_db \<Rightarrow> sql_error + identity_db" where
  "maybe_bootstrap_scope env dr db =
     (case non_empty_env env ''SNM_BOOTSTRAP_ORG_SLUG'' of
        None \<Rightarrow> Inr db
      | Some organization_slug \<Rightarrow>
          let organization_name = unwrap_or ''Seven Network Manager''
                (non_empty_env env ''SNM_BOOTSTRAP_ORG_NAME'');
              site_slug = unwrap_or ''default'' (non_empty_env env ''SNM_BOOTSTRAP_SITE_SLUG'');
              site_name = unwrap_or ''Default Site'' (non_empty_env env ''SNM_BOOTSTRAP_SITE_NAME'')
          in bindR (bootstrap_scope dr organization_slug organization_name site_slug site_name db)
               (\<lambda>(db, _). Inr db))"

record admin_draw =
  dm_salt :: bytes
  dm_user_id :: uuid
  dm_role_id :: uuid
  dm_binding_id :: uuid
  dm_event_id :: uuid
  dm_correlation_id :: uuid

text \<open>The four statements on users, roles, permissions and bindings.\<close>

definition ensure_admin_user ::
  "auth_service \<Rightarrow> uuid \<Rightarrow> uuid \<Rightarrow> string \<Rightarrow> string \<Rightarrow> string \<Rightarrow> user_row list
     \<Rightarrow> auth_error + (user_row list \<times> user_row)" where
  "ensure_admin_user auth new_id organization_id email display_name encoded =
     upsert AuthUnavailable
       (\<lambda>u. us_organization_id u = organization_id \<and> us_email u = as_sql_lower auth email)
       (\<lambda>u. us_id u = new_id)
       \<lparr>us_id = new_id, us_organization_id = organization_id, us_email = as_sql_lower auth email,
        us_display_name = display_name, us_status = ''active'', us_password_hash = Some encoded,
        us_last_login_at = None\<rparr>
       (\<lambda>u. u\<lparr>us_password_hash := Some (unwrap_or encoded (us_password_hash u))\<rparr>)"

definition ensure_admin_role ::
  "uuid \<Rightarrow> uuid \<Rightarrow> role_row list \<Rightarrow> auth_error + (role_row list \<times> role_row)" where
  "ensure_admin_role new_id organization_id =
     upsert AuthUnavailable
       (\<lambda>r. ro_organization_id r = Some organization_id \<and> ro_name r = ''organization-admin'')
       (\<lambda>r. ro_id r = new_id)
       \<lparr>ro_id = new_id, ro_organization_id = Some organization_id, ro_name = ''organization-admin'',
        ro_is_system = True\<rparr>
       (\<lambda>r. r\<lparr>ro_is_system := True\<rparr>)"

definition grant_all_permissions ::
  "uuid \<Rightarrow> permission_row list \<Rightarrow> (uuid \<times> uuid) list \<Rightarrow> (uuid \<times> uuid) list" where
  "grant_all_permissions role_id permissions grants =
     grants @ filter (\<lambda>g. g \<notin> set grants) (map (\<lambda>p. (role_id, pe_id p)) permissions)"

definition ensure_admin_binding ::
  "uuid \<Rightarrow> uuid \<Rightarrow> uuid \<Rightarrow> uuid \<Rightarrow> binding_row list \<Rightarrow> auth_error + binding_row list" where
  "ensure_admin_binding new_id organization_id role_id user_id rows =
     (if list_ex (\<lambda>b. rb_organization_id b = organization_id \<and> rb_role_id b = role_id
           \<and> rb_user_id b = Some user_id \<and> rb_site_id b = None) rows
      then Inr rows
      else insert_unless AuthUnavailable (\<lambda>b. rb_id b = new_id)
        \<lparr>rb_id = new_id, rb_organization_id = organization_id, rb_role_id = role_id,
         rb_user_id = Some user_id, rb_service_account_id = None, rb_site_id = None\<rparr> rows)"

text \<open>The event \<open>bootstrap_admin\<close> writes itself: none of the columns of the chain is set.\<close>

definition bootstrap_event :: "auth_service \<Rightarrow> admin_draw \<Rightarrow> uuid \<Rightarrow> uuid \<Rightarrow> audit_row" where
  "bootstrap_event auth dr organization_id user_id = \<lparr>ae_id = dm_event_id dr,
     ae_organization_id = organization_id, ae_site_id = None, ae_actor_type = ''system'',
     ae_actor_id = None, ae_session_id = None, ae_source_ip = None, ae_request_id = None,
     ae_action = ''auth.bootstrap_admin.ensure'', ae_resource_type = ''user'',
     ae_resource_id = Some (as_uuid_str auth user_id), ae_correlation_id = dm_correlation_id dr,
     ae_provider = None, ae_status = ''succeeded'', ae_duration_ms = None,
     ae_reason_code = Some ''bootstrap'', ae_before_state = None, ae_after_state = None,
     ae_result = JObject [(''outcome'', JString ''ensured'')], ae_occurred_at_unix_ms = None,
     ae_chain_sequence = None, ae_canonical_payload = None, ae_previous_hash = None,
     ae_event_hash = None\<rparr>"

definition bootstrap_admin ::
  "auth_service \<Rightarrow> admin_draw \<Rightarrow> string \<Rightarrow> string \<Rightarrow> string \<Rightarrow> bytes \<Rightarrow> identity_db \<times> audit_db
     \<Rightarrow> auth_error + (identity_db \<times> audit_db)" where
  "bootstrap_admin auth dr organization_slug email display_name password = (\<lambda>(db, au).
     if length email > 320 \<or> trim display_name = [] \<or> trim organization_slug = []
     then Inl AuthInvalidRequest else
     bindR (map_err (\<lambda>_. AuthInvalidRequest) (hash_password (as_passwords auth) (dm_salt dr) password
         default_password_policy)) (\<lambda>encoded.
     bindR (ok_or AuthInvalidRequest (List.find (\<lambda>g. og_slug g = organization_slug)
         (db_organizations db))) (\<lambda>g.
     bindR (ensure_admin_user auth (dm_user_id dr) (og_id g) email display_name encoded (db_users db))
       (\<lambda>(users, u).
     bindR (ensure_admin_role (dm_role_id dr) (og_id g) (db_roles db)) (\<lambda>(roles, r).
     let grants = grant_all_permissions (ro_id r) (db_permissions db) (db_role_permissions db) in
     bindR (ensure_admin_binding (dm_binding_id dr) (og_id g) (ro_id r) (us_id u) (db_role_bindings db))
       (\<lambda>bindings.
     bindR (map_err (\<lambda>_. AuthUnavailable) (insert_event (bootstrap_event auth dr (og_id g) (us_id u)) au))
       (\<lambda>au.
     Inr (db\<lparr>db_users := users, db_roles := roles, db_role_permissions := grants,
            db_role_bindings := bindings\<rparr>, au))))))))"

datatype startup_error = StartupMessage string | StartupSql sql_error | StartupAuth auth_error

definition maybe_bootstrap_admin ::
  "environment \<Rightarrow> auth_service \<Rightarrow> admin_draw \<Rightarrow> identity_db \<times> audit_db
     \<Rightarrow> startup_error + (identity_db \<times> audit_db)" where
  "maybe_bootstrap_admin env auth dr state =
     (case non_empty_env env ''SNM_BOOTSTRAP_ADMIN_EMAIL'' of
        None \<Rightarrow> Inr state
      | Some email \<Rightarrow>
          bindR (ok_or (StartupMessage ''SNM_BOOTSTRAP_ORG_SLUG is required when bootstrapping an administrator'')
            (non_empty_env env ''SNM_BOOTSTRAP_ORG_SLUG'')) (\<lambda>organization_slug.
          bindR (ok_or (StartupMessage ''SNM_BOOTSTRAP_ADMIN_PASSWORD is required when bootstrapping an administrator'')
            (non_empty_env env ''SNM_BOOTSTRAP_ADMIN_PASSWORD'')) (\<lambda>password.
          let display_name = unwrap_or ''SNM Administrator'' (non_empty_env env ''SNM_BOOTSTRAP_ADMIN_NAME'')
          in map_err StartupAuth (bootstrap_admin auth dr organization_slug email display_name password state))))"

section \<open>Facts\<close>

lemma parse_unsigned_bound: "parse_unsigned greatest s = Some n \<Longrightarrow> n \<le> greatest"
  by (auto simp: parse_unsigned_def Let_def split: if_splits)

lemma parse_bounded_range: "parse_bounded greatest env name d lo hi = Inr n \<Longrightarrow> lo \<le> n \<and> n \<le> hi"
  by (auto simp: parse_bounded_def result_simps split: if_splits)

lemmas bounded_readers = parse_bounded_u32_def parse_bounded_u64_def parse_bounded_usize_def

text \<open>After the trailing separators were stripped the text does not end in one.\<close>

lemma trim_end_matches_last: "trim_end_matches d s \<noteq> [] \<Longrightarrow> last (trim_end_matches d s) \<noteq> d"
  using hd_dropWhile [of "\<lambda>c. c = d" "rev s"] by (auto simp: trim_end_matches_def last_rev)

lemma bool_text_inj:
  "parse_bool (Some v) d name = Inr b \<longleftrightarrow>
     (b \<and> to_ascii_lowercase (trim v) \<in> {''1'', ''true'', ''yes'', ''on''})
     \<or> (\<not> b \<and> to_ascii_lowercase (trim v) \<in> {''0'', ''false'', ''no'', ''off''})"
  by (auto simp: parse_bool_def Let_def)

section \<open>Properties\<close>

text \<open>C40: A configuration that is accepted is within its bounds: at least 1 and at most 100 connections, a
  request timeout of 100 ms to 2 minutes, a body limit of 1 KiB to 16 MiB; the runtime URL is an
  HTTP URL without a trailing slash, the database and Redis URLs have their schemes, the bind
  address parses, and a switch that is set is one of the eight accepted words.\<close>

theorem config_is_bounded:
  assumes "config_from_reader env = Inr c"
  shows "1 \<le> bc_database_max_connections c \<and> bc_database_max_connections c \<le> 100
    \<and> 100 \<le> bc_request_timeout_ms c \<and> bc_request_timeout_ms c \<le> 120000
    \<and> 1024 \<le> bc_body_limit_bytes c \<and> bc_body_limit_bytes c \<le> 16 * 1024 * 1024
    \<and> (starts_with ''http://'' (bc_runtime_url c) \<or> starts_with ''https://'' (bc_runtime_url c))
    \<and> last (bc_runtime_url c) \<noteq> CHR ''/''
    \<and> (starts_with ''postgres://'' (bc_database_url c) \<or> starts_with ''postgresql://'' (bc_database_url c))
    \<and> (starts_with ''redis://'' (bc_redis_url c) \<or> starts_with ''rediss://'' (bc_redis_url c))
    \<and> (\<forall>v. env ''SNM_INVENTORY_REQUIRE_APPROVAL'' = Some v \<longrightarrow>
         to_ascii_lowercase (trim v) \<in> (if bc_inventory_require_approval c
           then {''1'', ''true'', ''yes'', ''on''} else {''0'', ''false'', ''no'', ''off''}))"
proof -
  obtain bind runtime database redis connections timeout body migrations approval where
    r: "normalized_http_url ''SNM_RUNTIME_URL''
         (read_or_default env ''SNM_RUNTIME_URL'' ''http://127.0.0.1:9765'') = Inr runtime"
      "require_scheme ''DATABASE_URL'' database [''postgres://'', ''postgresql://''] = Inr ()"
      "require_scheme ''REDIS_URL'' redis [''redis://'', ''rediss://''] = Inr ()"
      "parse_bounded_u32 env ''SNM_DATABASE_MAX_CONNECTIONS'' 10 1 100 = Inr connections"
      "parse_bounded_u64 env ''SNM_REQUEST_TIMEOUT_MS'' 15000 100 120000 = Inr timeout"
      "parse_bounded_usize env ''SNM_HTTP_BODY_LIMIT_BYTES'' 1048576 1024 (16 * 1024 * 1024) = Inr body"
      "parse_bool (env ''SNM_INVENTORY_REQUIRE_APPROVAL'') True ''SNM_INVENTORY_REQUIRE_APPROVAL'' = Inr approval"
    and c: "c = \<lparr>bc_bind = bind, bc_runtime_url = runtime, bc_database_url = database,
       bc_redis_url = redis, bc_database_max_connections = connections,
       bc_run_migrations = migrations, bc_request_timeout_ms = timeout,
       bc_body_limit_bytes = body, bc_inventory_require_approval = approval\<rparr>"
    using assms unfolding config_from_reader_def bindR_Inr_iff ok_or_Inr_iff ex_unit_iff sum.inject by blast
  have bounds: "1 \<le> connections \<and> connections \<le> 100" "100 \<le> timeout \<and> timeout \<le> 120000"
    "1024 \<le> body \<and> body \<le> 16 * 1024 * 1024"
    using r(4-6) parse_bounded_range unfolding bounded_readers by blast+
  have url: "starts_with ''http://'' runtime \<or> starts_with ''https://'' runtime"
    "\<exists>t. runtime = trim_end_matches (CHR ''/'') t"
    using r(1) by (auto simp: normalized_http_url_def Let_def split: if_splits)
  then have "runtime \<noteq> []" by (auto simp: starts_with_def)
  then have slash: "last runtime \<noteq> CHR ''/''" using url(2) trim_end_matches_last by blast
  have schemes: "starts_with ''postgres://'' database \<or> starts_with ''postgresql://'' database"
    "starts_with ''redis://'' redis \<or> starts_with ''rediss://'' redis"
    using r(2,3) by (auto simp: require_scheme_def split: if_splits)
  have switch: "to_ascii_lowercase (trim v) \<in> (if approval
           then {''1'', ''true'', ''yes'', ''on''} else {''0'', ''false'', ''no'', ''off''})"
    if "env ''SNM_INVENTORY_REQUIRE_APPROVAL'' = Some v" for v
    using r(7) unfolding that bool_text_inj by (cases approval) simp_all
  show ?thesis using bounds url(1) slash schemes switch unfolding c by simp
qed

text \<open>The readers \<open>main\<close> uses instead do not fail: a misspelt switch counts as off, whatever its default,
  so an operator's \<open>enabled\<close> or a trailing blank turns the approval of new devices off.\<close>

lemma misspelt_approval_is_off:
  "env_bool [''SNM_INVENTORY_REQUIRE_APPROVAL'' \<mapsto> ''true ''] ''SNM_INVENTORY_REQUIRE_APPROVAL'' True = False
   \<and> env_bool (\<lambda>_. None) ''SNM_INVENTORY_REQUIRE_APPROVAL'' True = True
   \<and> parse_bool (Some ''true '') False name = Inr True
   \<and> parse_bool (Some ''enabled'') True name = Inl (CfgInvalidBoolean name)"
proof -
  have "trim ''true '' = ''true''" "trim ''enabled'' = ''enabled''" by code_simp+
  then show ?thesis
    by (simp add: env_bool_def unwrap_or_def parse_bool_def)
      (simp add: to_ascii_lowercase_def lower_char_def is_ascii_uppercase_def code_of_def)
qed

text \<open>Readiness: the backend answers 200 exactly when the database and Redis answer; a missing site runtime
  only degrades it. The answer names each dependency's own state, and a pool is never empty nor
  larger than 64 connections.\<close>

theorem readiness_spec:
  "(fst (ready runtime redis_ok db) = OK_200 \<longleftrightarrow> redis_ok \<and> db \<noteq> None)
   \<and> fst (ready runtime redis_ok db) \<in> {OK_200, SERVICE_UNAVAILABLE_503}
   \<and> (rr_status (snd (ready runtime redis_ok db)) = ''ready'' \<longleftrightarrow>
        redis_ok \<and> db \<noteq> None \<and> runtime = RuntimeReady)
   \<and> (rr_status (snd (ready runtime redis_ok db)) = ''degraded'' \<longleftrightarrow>
        redis_ok \<and> db \<noteq> None \<and> runtime = RuntimeUnavailable)
   \<and> (rr_database (snd (ready runtime redis_ok db)) = ''ready'' \<longleftrightarrow> db \<noteq> None)
   \<and> (rr_redis (snd (ready runtime redis_ok db)) = ''ready'' \<longleftrightarrow> redis_ok)
   \<and> (rr_runtime (snd (ready runtime redis_ok db)) = ''ready'' \<longleftrightarrow> runtime = RuntimeReady)
   \<and> 1 \<le> pool_max_connections env \<and> pool_max_connections env \<le> 64"
proof -
  have "1 \<le> pool_max_connections env \<and> pool_max_connections env \<le> 64"
    unfolding pool_max_connections_def by (rule clampi_bounds) simp
  then show ?thesis
    by (cases db; cases runtime) (simp_all add: ready_def Let_def)
qed

text \<open>The effect of the statements of \<open>bootstrap_admin\<close>.\<close>

lemma bootstrap_steps:
  assumes "bootstrap_admin auth dr slug email name password (db, au) = Inr (db', au')"
  obtains encoded g users u roles r bindings where
    "hash_password (as_passwords auth) (dm_salt dr) password default_password_policy = Inr encoded"
    and "List.find (\<lambda>g. og_slug g = slug) (db_organizations db) = Some g"
    and "ensure_admin_user auth (dm_user_id dr) (og_id g) email name encoded (db_users db) = Inr (users, u)"
    and "ensure_admin_role (dm_role_id dr) (og_id g) (db_roles db) = Inr (roles, r)"
    and "ensure_admin_binding (dm_binding_id dr) (og_id g) (ro_id r) (us_id u) (db_role_bindings db) = Inr bindings"
    and "insert_event (bootstrap_event auth dr (og_id g) (us_id u)) au = Inr au'"
    and "db' = db\<lparr>db_users := users, db_roles := roles, db_role_permissions :=
           grant_all_permissions (ro_id r) (db_permissions db) (db_role_permissions db),
           db_role_bindings := bindings\<rparr>"
proof -
  have "\<not> (length email > 320 \<or> trim name = [] \<or> trim slug = [])"
    using assms by (auto simp: bootstrap_admin_def split: if_splits)
  then obtain encoded g us rs bindings where
    "hash_password (as_passwords auth) (dm_salt dr) password default_password_policy = Inr encoded"
    "List.find (\<lambda>g. og_slug g = slug) (db_organizations db) = Some g"
    "ensure_admin_user auth (dm_user_id dr) (og_id g) email name encoded (db_users db) = Inr us"
    "ensure_admin_role (dm_role_id dr) (og_id g) (db_roles db) = Inr rs"
    "ensure_admin_binding (dm_binding_id dr) (og_id g) (ro_id (snd rs)) (us_id (snd us)) (db_role_bindings db) = Inr bindings"
    "insert_event (bootstrap_event auth dr (og_id g) (us_id (snd us))) au = Inr au'"
    "db' = db\<lparr>db_users := fst us, db_roles := fst rs, db_role_permissions :=
           grant_all_permissions (ro_id (snd rs)) (db_permissions db) (db_role_permissions db),
           db_role_bindings := bindings\<rparr>"
    using assms
    unfolding bootstrap_admin_def prod.case if_not_P [OF \<open>\<not> (length email > 320 \<or> trim name = [] \<or> trim slug = [])\<close>]
      Let_def split_beta fst_conv snd_conv bindR_Inr_iff map_err_Inr_iff ok_or_Inr_iff sum.inject prod.inject by blast
  then show thesis by (intro that [of encoded g "fst us" "snd us" "fst rs" "snd rs" bindings]) simp_all
qed

lemma grant_all_holds: "p \<in> set permissions \<Longrightarrow> (role, pe_id p) \<in> set (grant_all_permissions role permissions grants)"
  by (auto simp: grant_all_permissions_def)

lemma grant_all_again:
  "grant_all_permissions role permissions (grant_all_permissions role permissions grants)
   = grant_all_permissions role permissions grants"
  by (auto simp: grant_all_permissions_def filter_empty_conv)

lemma binding_holds:
  assumes "ensure_admin_binding new_id org role user rows = Inr rows'"
  shows "\<exists>b \<in> set rows'. rb_organization_id b = org \<and> rb_role_id b = role
           \<and> rb_user_id b = Some user \<and> rb_site_id b = None"
  using assms
  by (auto simp: ensure_admin_binding_def list_ex_iff table_simps split: if_splits)

lemma binding_again:
  assumes "ensure_admin_binding new_id org role user rows = Inr rows'"
  shows "ensure_admin_binding new_id2 org role user rows' = Inr rows'"
  using binding_holds [OF assms] by (auto simp: ensure_admin_binding_def list_ex_iff)

lemma unsealed_event_keeps_chains:
  assumes "insert_event e au = Inr au'" and "ae_chain_sequence e = None"
  shows "sealed_rows au' org = sealed_rows au org" and "au_events au' = au_events au @ [e]"
  using assms by (auto simp: insert_event_def sealed_rows_def split: if_splits)

text \<open>Bootstrapping an administrator ends with a user of the organization under the lower-cased address
  who holds every permission there is. It never changes the password of an account that has one;
  a new account is active with the given password. It adds one event to the audit table, which
  is part of no sealed chain.\<close>

theorem bootstrap_admin_spec:
  assumes "argon2_laws (as_passwords auth)"
    and "bootstrap_admin auth dr slug email name password (db, au) = Inr (db', au')"
  shows "\<exists>g u. g \<in> set (db_organizations db) \<and> og_slug g = slug
    \<and> u \<in> set (db_users db') \<and> us_organization_id u = og_id g \<and> us_email u = as_sql_lower auth email
    \<and> (\<forall>p \<in> set (db_permissions db'). pe_code p \<in> set (permissions_for_user db' (og_id g) (us_id u)))
    \<and> (\<forall>v \<in> set (db_users db). us_password_hash v \<noteq> None \<longrightarrow> v \<in> set (db_users db'))
    \<and> ((\<forall>v \<in> set (db_users db). \<not> (us_organization_id v = og_id g \<and> us_email v = as_sql_lower auth email))
        \<longrightarrow> us_status u = ''active'' \<and> (\<exists>h. us_password_hash u = Some h
              \<and> verify_password (as_passwords auth) password h = Inr True))
    \<and> (\<exists>e. au_events au' = au_events au @ [e] \<and> ae_chain_sequence e = None)
    \<and> (\<forall>org. sealed_rows au' org = sealed_rows au org)"
proof -
  obtain encoded g users u roles r bindings where
    h: "hash_password (as_passwords auth) (dm_salt dr) password default_password_policy = Inr encoded"
    and g: "List.find (\<lambda>g. og_slug g = slug) (db_organizations db) = Some g"
    and u: "ensure_admin_user auth (dm_user_id dr) (og_id g) email name encoded (db_users db) = Inr (users, u)"
    and r: "ensure_admin_role (dm_role_id dr) (og_id g) (db_roles db) = Inr (roles, r)"
    and b: "ensure_admin_binding (dm_binding_id dr) (og_id g) (ro_id r) (us_id u) (db_role_bindings db) = Inr bindings"
    and e: "insert_event (bootstrap_event auth dr (og_id g) (us_id u)) au = Inr au'"
    and db': "db' = db\<lparr>db_users := users, db_roles := roles, db_role_permissions :=
           grant_all_permissions (ro_id r) (db_permissions db) (db_role_permissions db),
           db_role_bindings := bindings\<rparr>"
    by (rule bootstrap_steps [OF assms(2)]) (rule that; assumption)
  let ?key = "\<lambda>u. us_organization_id u = og_id g \<and> us_email u = as_sql_lower auth email"
  let ?upd = "\<lambda>u. u\<lparr>us_password_hash := Some (unwrap_or encoded (us_password_hash u))\<rparr>"
  have verified: "verify_password (as_passwords auth) password encoded = Inr True"
  proof -
    obtain salt where "argon2id_hash (as_passwords auth) default_password_policy password salt = Some encoded"
      using h by (auto simp: hash_password_def result_simps split: if_splits)
    with assms(1) show ?thesis by (fastforce simp: argon2_laws_def verify_password_def)
  qed
  have user: "\<exists>v. v \<in> set users \<and> us_id v = us_id u \<and> ?key v
      \<and> (\<forall>w \<in> set (db_users db). us_password_hash w \<noteq> None \<longrightarrow> w \<in> set users)
      \<and> ((\<forall>w \<in> set (db_users db). \<not> ?key w) \<longrightarrow> us_status v = ''active'' \<and> us_password_hash v = Some encoded)"
    using u [unfolded ensure_admin_user_def]
  proof (cases rule: upsert_cases)
    case updated
    have "w \<in> set users" if "w \<in> set (db_users db)" "us_password_hash w \<noteq> None" for w
    proof -
      have "?upd w = w" using that(2) by (auto simp: unwrap_or_def)
      then show ?thesis using that(1) unfolding updated(3) set_upd_where by (intro image_eqI [of _ _ w]) simp_all
    qed
    moreover have "?upd u \<in> set users"
      using updated(1,2) unfolding updated(3) set_upd_where by (intro image_eqI [of _ _ u]) simp_all
    ultimately show ?thesis using updated(1,2) by (intro exI [of _ "?upd u"]) auto
  next
    case inserted
    then show ?thesis by (intro exI [of _ u]) auto
  qed
  then obtain v where v: "v \<in> set users" "us_id v = us_id u" "?key v"
    "\<forall>w \<in> set (db_users db). us_password_hash w \<noteq> None \<longrightarrow> w \<in> set users"
    "(\<forall>w \<in> set (db_users db). \<not> ?key w) \<longrightarrow> us_status v = ''active'' \<and> us_password_hash v = Some encoded"
    by blast
  have "pe_code p \<in> set (permissions_for_user db' (og_id g) (us_id v))"
    if "p \<in> set (db_permissions db')" for p
  proof -
    have "(ro_id r, pe_id p) \<in> set (db_role_permissions db')"
      using that unfolding db' by (simp add: grant_all_holds)
    then have "pe_code p \<in> set (codes_of_role db' (ro_id r))"
      using that unfolding codes_of_role_iff by blast
    moreover obtain b where "b \<in> set (db_role_bindings db')" "rb_organization_id b = og_id g"
        "rb_role_id b = ro_id r" "rb_user_id b = Some (us_id v)"
      using binding_holds [OF b] v(2) unfolding db' by auto
    ultimately show ?thesis
      unfolding permissions_for_user_def codes_where_iff by (intro bexI [of _ b]) simp_all
  qed
  then have perms: "\<forall>p \<in> set (db_permissions db'). pe_code p \<in> set (permissions_for_user db' (og_id g) (us_id v))"
    by blast
  have gin: "g \<in> set (db_organizations db)" "og_slug g = slug" using find_Some_set [OF g] by blast+
  have unsealed: "ae_chain_sequence (bootstrap_event auth dr (og_id g) (us_id u)) = None"
    by (simp add: bootstrap_event_def)
  have users: "db_users db' = users" by (simp add: db')
  have new: "us_status v = ''active'' \<and> (\<exists>h. us_password_hash v = Some h
              \<and> verify_password (as_passwords auth) password h = Inr True)"
    if "\<forall>w \<in> set (db_users db). \<not> ?key w"
    using v(5) that verified by blast
  have events: "\<exists>e. au_events au' = au_events au @ [e] \<and> ae_chain_sequence e = None"
    "\<forall>org. sealed_rows au' org = sealed_rows au org"
    using unsealed_event_keeps_chains [OF e unsealed] unsealed by blast+
  show ?thesis
    unfolding users
    by (intro exI [of _ g] exI [of _ v] conjI gin v(1) v(3) [THEN conjunct1] v(3) [THEN conjunct2]
        perms v(4) impI events) (use new in blast)+
qed

text \<open>Bootstrapping an administrator twice is the same as once: whatever password, identifiers and salt the
  second start brings, the users, roles, permissions and bindings stay as the first one left them.\<close>

theorem bootstrap_admin_idempotent:
  assumes first: "bootstrap_admin auth dr slug email name password (db, au) = Inr (db1, au1)"
    and second: "bootstrap_admin auth dr2 slug email name2 password2 (db1, au1) = Inr (db2, au2)"
  shows "db2 = db1"
proof -
  obtain encoded g users u roles r bindings where
    g: "List.find (\<lambda>g. og_slug g = slug) (db_organizations db) = Some g"
    and u: "ensure_admin_user auth (dm_user_id dr) (og_id g) email name encoded (db_users db) = Inr (users, u)"
    and r: "ensure_admin_role (dm_role_id dr) (og_id g) (db_roles db) = Inr (roles, r)"
    and b: "ensure_admin_binding (dm_binding_id dr) (og_id g) (ro_id r) (us_id u) (db_role_bindings db) = Inr bindings"
    and db1: "db1 = db\<lparr>db_users := users, db_roles := roles, db_role_permissions :=
           grant_all_permissions (ro_id r) (db_permissions db) (db_role_permissions db),
           db_role_bindings := bindings\<rparr>"
    by (rule bootstrap_steps [OF first]) (rule that; assumption)
  obtain encoded2 g2 users2 u2 roles2 r2 bindings2 where
    g2: "List.find (\<lambda>g. og_slug g = slug) (db_organizations db1) = Some g2"
    and u2: "ensure_admin_user auth (dm_user_id dr2) (og_id g2) email name2 encoded2 (db_users db1) = Inr (users2, u2)"
    and r2: "ensure_admin_role (dm_role_id dr2) (og_id g2) (db_roles db1) = Inr (roles2, r2)"
    and b2: "ensure_admin_binding (dm_binding_id dr2) (og_id g2) (ro_id r2) (us_id u2) (db_role_bindings db1) = Inr bindings2"
    and db2: "db2 = db1\<lparr>db_users := users2, db_roles := roles2, db_role_permissions :=
           grant_all_permissions (ro_id r2) (db_permissions db1) (db_role_permissions db1),
           db_role_bindings := bindings2\<rparr>"
    by (rule bootstrap_steps [OF second]) (rule that; assumption)
  have gg: "g2 = g" using g g2 by (simp add: db1)
  have users: "users2 = users \<and> us_id u2 = us_id u"
  proof -
    have "\<exists>w. ensure_admin_user auth (dm_user_id dr2) (og_id g) email name2 encoded2 users = Inr (users, w)
        \<and> us_id w = us_id u"
      unfolding ensure_admin_user_def
      by (rule upsert_again [OF u [unfolded ensure_admin_user_def]]) (simp_all add: unwrap_or_def)
    then show ?thesis using u2 by (simp add: gg db1)
  qed
  have roles: "roles2 = roles \<and> ro_id r2 = ro_id r"
  proof -
    have "\<exists>w. ensure_admin_role (dm_role_id dr2) (og_id g) roles = Inr (roles, w) \<and> ro_id w = ro_id r"
      unfolding ensure_admin_role_def
      by (rule upsert_again [OF r [unfolded ensure_admin_role_def]]) simp_all
    then show ?thesis using r2 by (simp add: gg db1)
  qed
  have "bindings2 = bindings"
    using binding_again [OF b, of "dm_binding_id dr2"] b2 users roles by (simp add: gg db1)
  then show ?thesis using users roles by (simp add: db2 db1 grant_all_again)
qed

section \<open>Witnesses\<close>

definition demo_config_env :: environment where
  "demo_config_env = [''DATABASE_URL'' \<mapsto> ''postgresql://snm@127.0.0.1/snm'',
     ''REDIS_URL'' \<mapsto> ''redis://127.0.0.1:6379/0'', ''SNM_RUNTIME_URL'' \<mapsto> ''http://runtime:9765///'',
     ''SNM_INVENTORY_REQUIRE_APPROVAL'' \<mapsto> ''Yes'']"

definition demo_admin_draw :: "uuid \<Rightarrow> admin_draw" where
  "demo_admin_draw n = \<lparr>dm_salt = ''salt'', dm_user_id = n, dm_role_id = n, dm_binding_id = n,
     dm_event_id = n, dm_correlation_id = n\<rparr>"

definition demo_empty_audit :: audit_db where
  "demo_empty_audit = \<lparr>au_organizations = {2}, au_sites = {}, au_sessions = {}, au_events = []\<rparr>"

definition demo_bootstrap :: "auth_error + (identity_db \<times> audit_db)" where
  "demo_bootstrap = bootstrap_admin demo_auth (demo_admin_draw 40) ''acme'' ''Root@acme.test'' ''Root''
     ''correct horse'' (demo_identity_db, demo_empty_audit)"

definition demo_bootstrap_again :: "auth_error + (identity_db \<times> audit_db)" where
  "demo_bootstrap_again = bindR demo_bootstrap (bootstrap_admin demo_auth (demo_admin_draw 41) ''acme''
     ''Root@acme.test'' ''Someone else'' ''correct horse'')"

lemma demo_bootstrap_ok: "is_ok demo_bootstrap" "is_ok demo_bootstrap_again"
  by code_simp+

lemma demo_config_ok: "map_err (\<lambda>_. ()) (config_from_reader demo_config_env) = Inr \<lparr>
     bc_bind = projr (ok_or () (parse_socket_addr ''127.0.0.1:8080'')),
     bc_runtime_url = ''http://runtime:9765'', bc_database_url = ''postgresql://snm@127.0.0.1/snm'',
     bc_redis_url = ''redis://127.0.0.1:6379/0'', bc_database_max_connections = 10,
     bc_run_migrations = True, bc_request_timeout_ms = 15000, bc_body_limit_bytes = 1048576,
     bc_inventory_require_approval = True\<rparr>"
  by code_simp

theorem config_is_bounded_witness:
  "\<exists>c. config_from_reader demo_config_env = Inr c \<and> last (bc_runtime_url c) \<noteq> CHR ''/''
     \<and> bc_database_max_connections c \<le> 100"
proof -
  obtain c where c: "config_from_reader demo_config_env = Inr c"
    using demo_config_ok by (auto simp: map_err_Inr_iff)
  with config_is_bounded [OF c] show ?thesis by blast
qed

theorem bootstrap_admin_spec_witness:
  "\<exists>db au g u. demo_bootstrap = Inr (db, au) \<and> u \<in> set (db_users db)
     \<and> us_email u = ''root@acme.test'' \<and> g \<in> set (db_organizations demo_identity_db) \<and> og_slug g = ''acme''
     \<and> us_organization_id u = og_id g \<and> length (au_events au) = 1"
proof -
  obtain db au where b: "demo_bootstrap = Inr (db, au)"
    using demo_bootstrap_ok(1) by (auto simp: is_ok_iff)
  have laws: "argon2_laws (as_passwords demo_auth)"
    by (simp add: demo_auth_def demo_password_laws)
  have lower: "as_sql_lower demo_auth ''Root@acme.test'' = ''root@acme.test''" by code_simp
  have "au_events demo_empty_audit = []" by (simp add: demo_empty_audit_def)
  with bootstrap_admin_spec [OF laws b [unfolded demo_bootstrap_def]]
  obtain g u e where "g \<in> set (db_organizations demo_identity_db)" "og_slug g = ''acme''" "u \<in> set (db_users db)" "us_organization_id u = og_id g"
    "us_email u = ''root@acme.test''" "au_events au = au_events demo_empty_audit @ [e]"
    unfolding lower by (elim exE conjE) (rule that; assumption)
  then show ?thesis
    using \<open>au_events demo_empty_audit = []\<close>
    by (intro exI [of _ db] exI [of _ au] exI [of _ g] exI [of _ u]) (simp add: b)
qed

theorem bootstrap_admin_idempotent_witness:
  "\<exists>db au au2. demo_bootstrap = Inr (db, au) \<and> demo_bootstrap_again = Inr (db, au2)"
proof -
  obtain db au where b: "demo_bootstrap = Inr (db, au)"
    using demo_bootstrap_ok(1) by (auto simp: is_ok_iff)
  obtain db2 au2 where b2: "demo_bootstrap_again = Inr (db2, au2)"
    using demo_bootstrap_ok(2) by (auto simp: is_ok_iff)
  have "bootstrap_admin demo_auth (demo_admin_draw 41) ''acme'' ''Root@acme.test'' ''Someone else''
      ''correct horse'' (db, au) = Inr (db2, au2)"
    using b2 unfolding demo_bootstrap_again_def b bindR.simps .
  from bootstrap_admin_idempotent [OF b [unfolded demo_bootstrap_def] this] b b2 show ?thesis by blast
qed

end
