(* ===== verification/Inventory_Store.thy ===== *)
theory Inventory_Store
  imports Device_Domain Audit_Chain Outbox
begin

text \<open>
  The inventory store (\<open>crates/inventory-store/src/lib.rs\<close>): manual creation, metadata updates,
  lifecycle transitions and the reconciliation of observations, each in one transaction with its
  audit event and its outbox event.

  The tables are lists of rows with the columns the code reads; \<open>inventory_db\<close> holds the audit trail
  and the outbox next to them, because one transaction writes all three. A transaction is a
  function to the new tables or an error; an error rolls everything back. What the database and the
  standard library choose (the transaction's \<open>now()\<close>, the clock, fresh identifiers) is the argument
  \<open>tick\<close>; the text forms of identifiers and times and the cast of a confidence to
  \<open>numeric(5,4)\<close> are in \<open>inventory_env\<close>. Row ids that only the database generates and nothing reads
  are left out.
\<close>

section \<open>Tables\<close>

record device_row =
  dv_id :: uuid
  dv_organization_id :: uuid
  dv_site_id :: uuid
  dv_lifecycle_state :: string
  dv_device_type :: string
  dv_display_name :: "string option"
  dv_hostname :: "string option"
  dv_vendor :: "string option"
  dv_model :: "string option"
  dv_serial_number :: "string option"
  dv_os_name :: "string option"
  dv_os_version :: "string option"
  dv_firmware_version :: "string option"
  dv_description :: "string option"
  dv_operational_owner :: "string option"
  dv_capabilities :: "string list"
  dv_version :: i64
  dv_last_seen_at :: "timestamp option"
  dv_last_changed_at :: timestamp
  dv_onboarded_at :: "timestamp option"
  dv_retired_at :: "timestamp option"
  dv_retirement_reason :: "string option"

record identifier_row =
  ir_device_id :: uuid
  ir_organization_id :: uuid
  ir_site_id :: uuid
  ir_kind :: string
  ir_value :: string
  ir_source :: string
  ir_confidence :: "rat option"
  ir_normalized_value :: string
  ir_identity_namespace :: string
  ir_strength :: string
  ir_last_seen_at :: "timestamp option"

record fact_row =
  fa_organization_id :: uuid
  fa_site_id :: uuid
  fa_device_id :: uuid
  fa_field_name :: string
  fa_value :: json
  fa_provenance :: string
  fa_source :: string
  fa_confidence :: rat
  fa_observed_at :: "timestamp option"
  fa_updated_at :: timestamp

record lifecycle_event_row =
  le_organization_id :: uuid
  le_site_id :: uuid
  le_device_id :: uuid
  le_from_state :: "string option"
  le_to_state :: string
  le_actor_type :: string
  le_actor_id :: "uuid option"
  le_reason :: "string option"
  le_correlation_id :: uuid
  le_created_at :: timestamp

text \<open>\<open>iv_sites\<close> holds the pairs of a site and its organization.\<close>

record inventory_db =
  iv_sites :: "(uuid \<times> uuid) set"
  iv_devices :: "device_row list"
  iv_identifiers :: "identifier_row list"
  iv_facts :: "fact_row list"
  iv_lifecycle_events :: "lifecycle_event_row list"
  iv_audit :: audit_db
  iv_outbox :: outbox_db

record inventory_env =
  ie_audit_ops :: audit_ops
  ie_uuid_str :: "uuid \<Rightarrow> string"
  ie_rfc3339 :: "timestamp \<Rightarrow> string"
  ie_numeric :: "f32 \<Rightarrow> rat"

record tick =
  tk_now :: timestamp
  tk_utc :: timestamp
  tk_utc_ms :: i64
  tk_device_id :: uuid
  tk_audit_id :: uuid
  tk_outbox_id :: uuid

datatype inventory_error =
    InvInvalidInput string
  | InvDeviceNotFound
  | InvVersionConflict i64 i64
  | InvLifecycleBlocksMutation device_lifecycle
  | InvInvalidLifecycleTransition device_lifecycle device_lifecycle
  | InvLifecycleReasonRequired
  | InvDuplicateIdentifier
  | InvReconciliationConflict "uuid list"
  | InvReactivationRequiresReview uuid
  | InvCorruptStoredValue string
  | InvAudit audit_store_error
  | InvOutbox outbox_error
  | InvJson
  | InvDatabase

section \<open>Inputs\<close>

record mutation_context =
  mx_organization_id :: uuid
  mx_site_id :: uuid
  mx_actor_type :: actor_type
  mx_actor_id :: "uuid option"
  mx_session_id :: "uuid option"
  mx_source_ip :: "string option"
  mx_request_id :: string
  mx_correlation_id :: uuid

definition context_validate :: "mutation_context \<Rightarrow> inventory_error + unit" where
  "context_validate c =
     (if trim (mx_request_id c) = [] \<or> length (mx_request_id c) > 200
      then Inl (InvInvalidInput ''request id is invalid'')
      else if (case mx_source_ip c of None \<Rightarrow> False | Some value \<Rightarrow> parse_ip value = None)
      then Inl (InvInvalidInput ''source IP is invalid'')
      else Inr ())"

record new_identifier =
  ni_kind :: identifier_kind
  ni_value :: string
  ni_source :: string
  ni_confidence :: "f32 option"

definition identity_namespace :: "identifier_kind \<Rightarrow> string \<Rightarrow> inventory_error + string" where
  "identity_namespace kind source =
     (if kind = ProviderNativeId
      then (let namespace = to_ascii_lowercase (trim source) in
        if namespace = []
        then Inl (InvInvalidInput ''provider-native identifier requires provider namespace'')
        else Inr namespace)
      else Inr ''global'')"

definition normalized_identifier :: "new_identifier \<Rightarrow> inventory_error + string" where
  "normalized_identifier i = map_err InvInvalidInput (normalize (ni_kind i) (ni_value i))"

definition new_identifier_validate :: "new_identifier \<Rightarrow> inventory_error + unit" where
  "new_identifier_validate i =
     bindR (normalized_identifier i) (\<lambda>_.
     if trim (ni_source i) = [] \<or> length (ni_source i) > 120
     then Inl (InvInvalidInput ''identifier source is invalid'')
     else if (case ni_confidence i of None \<Rightarrow> False | Some c \<Rightarrow> \<not> in_unit_interval c)
     then Inl (InvInvalidInput ''identifier confidence is invalid'')
     else bindR (identity_namespace (ni_kind i) (ni_source i)) (\<lambda>_. Inr ()))"

definition clean_optional :: "string option \<Rightarrow> string option" where
  "clean_optional value = (case value of None \<Rightarrow> None
     | Some v \<Rightarrow> if trim v = [] then None else Some (trim v))"

definition validate_text_fields :: "string option list \<Rightarrow> inventory_error + unit" where
  "validate_text_fields values =
     (if list_ex (\<lambda>v. case v of None \<Rightarrow> False | Some s \<Rightarrow> trim s = [] \<or> length s > 512) values
      then Inl (InvInvalidInput ''text field is invalid'') else Inr ())"

definition description_too_long :: "string option \<Rightarrow> bool" where
  "description_too_long d = (case d of None \<Rightarrow> False | Some s \<Rightarrow> length s > 4096)"

definition capabilities_invalid :: "string list \<Rightarrow> bool" where
  "capabilities_invalid cs \<longleftrightarrow>
     length cs > 256 \<or> list_ex (\<lambda>c. trim c = [] \<or> length c > 120) cs"

record new_device =
  nd_device_type :: device_type
  nd_display_name :: "string option"
  nd_hostname :: "string option"
  nd_vendor :: "string option"
  nd_model :: "string option"
  nd_os_name :: "string option"
  nd_os_version :: "string option"
  nd_firmware_version :: "string option"
  nd_description :: "string option"
  nd_operational_owner :: "string option"
  nd_capabilities :: "string list"
  nd_identifiers :: "new_identifier list"

definition new_device_validate :: "new_device \<Rightarrow> inventory_error + unit" where
  "new_device_validate d =
     bindR (validate_text_fields [nd_display_name d, nd_hostname d, nd_vendor d, nd_model d,
       nd_os_name d, nd_os_version d, nd_firmware_version d, nd_operational_owner d]) (\<lambda>_.
     if description_too_long (nd_description d)
     then Inl (InvInvalidInput ''description is too long'')
     else if capabilities_invalid (nd_capabilities d)
     then Inl (InvInvalidInput ''capabilities are invalid'')
     else for_eachR new_identifier_validate (nd_identifiers d))"

record device_observation =
  dx_device_type :: device_type
  dx_display_name :: "string option"
  dx_hostname :: "string option"
  dx_vendor :: "string option"
  dx_model :: "string option"
  dx_os_name :: "string option"
  dx_os_version :: "string option"
  dx_firmware_version :: "string option"
  dx_capabilities :: "string list"
  dx_identifiers :: "new_identifier list"
  dx_observed_at :: "timestamp option"

definition observation_validate :: "device_observation \<Rightarrow> inventory_error + unit" where
  "observation_validate x =
     (if dx_identifiers x = []
      then Inl (InvInvalidInput ''observation requires at least one identifier'')
      else bindR (validate_text_fields [dx_display_name x, dx_hostname x, dx_vendor x, dx_model x,
             dx_os_name x, dx_os_version x, dx_firmware_version x]) (\<lambda>_.
           for_eachR new_identifier_validate (dx_identifiers x)))"

text \<open>\<open>Option<Option<String>>\<close>: untouched, cleared or set.\<close>

record metadata_patch =
  mp_device_type :: "device_type option"
  mp_display_name :: "string option option"
  mp_hostname :: "string option option"
  mp_vendor :: "string option option"
  mp_model :: "string option option"
  mp_os_name :: "string option option"
  mp_os_version :: "string option option"
  mp_firmware_version :: "string option option"
  mp_description :: "string option option"
  mp_operational_owner :: "string option option"
  mp_capabilities :: "string list option"

definition nested_ref :: "'a option option \<Rightarrow> 'a option" where
  "nested_ref value = (case value of None \<Rightarrow> None | Some inner \<Rightarrow> inner)"

definition patch_validate :: "metadata_patch \<Rightarrow> inventory_error + unit" where
  "patch_validate p =
     bindR (validate_text_fields [nested_ref (mp_display_name p), nested_ref (mp_hostname p),
       nested_ref (mp_vendor p), nested_ref (mp_model p), nested_ref (mp_os_name p),
       nested_ref (mp_os_version p), nested_ref (mp_firmware_version p),
       nested_ref (mp_operational_owner p)]) (\<lambda>_.
     if description_too_long (nested_ref (mp_description p))
     then Inl (InvInvalidInput ''description is too long'')
     else if (case mp_capabilities p of None \<Rightarrow> False | Some cs \<Rightarrow> capabilities_invalid cs)
     then Inl (InvInvalidInput ''capabilities are invalid'')
     else Inr ())"

section \<open>Views\<close>

record device_view =
  vw_id :: uuid
  vw_organization_id :: uuid
  vw_site_id :: uuid
  vw_lifecycle :: device_lifecycle
  vw_device_type :: device_type
  vw_display_name :: "string option"
  vw_hostname :: "string option"
  vw_vendor :: "string option"
  vw_model :: "string option"
  vw_serial_number :: "string option"
  vw_os_name :: "string option"
  vw_os_version :: "string option"
  vw_firmware_version :: "string option"
  vw_description :: "string option"
  vw_operational_owner :: "string option"
  vw_capabilities :: "string list"
  vw_version :: i64
  vw_last_seen_at :: "timestamp option"
  vw_last_changed_at :: timestamp
  vw_onboarded_at :: "timestamp option"
  vw_retired_at :: "timestamp option"
  vw_retirement_reason :: "string option"

fun corrupt_stored :: "stored_value_error \<Rightarrow> inventory_error" where
  "corrupt_stored (CorruptStoredValue column) = InvCorruptStoredValue column"

definition row_to_device :: "device_row \<Rightarrow> inventory_error + device_view" where
  "row_to_device r =
     bindR (map_err corrupt_stored (parse_lifecycle (dv_lifecycle_state r))) (\<lambda>lifecycle.
     bindR (map_err corrupt_stored (parse_device_type (dv_device_type r))) (\<lambda>type.
     Inr \<lparr>vw_id = dv_id r, vw_organization_id = dv_organization_id r, vw_site_id = dv_site_id r,
       vw_lifecycle = lifecycle, vw_device_type = type, vw_display_name = dv_display_name r,
       vw_hostname = dv_hostname r, vw_vendor = dv_vendor r, vw_model = dv_model r,
       vw_serial_number = dv_serial_number r, vw_os_name = dv_os_name r,
       vw_os_version = dv_os_version r, vw_firmware_version = dv_firmware_version r,
       vw_description = dv_description r, vw_operational_owner = dv_operational_owner r,
       vw_capabilities = dv_capabilities r, vw_version = dv_version r,
       vw_last_seen_at = dv_last_seen_at r, vw_last_changed_at = dv_last_changed_at r,
       vw_onboarded_at = dv_onboarded_at r, vw_retired_at = dv_retired_at r,
       vw_retirement_reason = dv_retirement_reason r\<rparr>))"

definition in_scope :: "uuid \<Rightarrow> uuid \<Rightarrow> uuid \<Rightarrow> device_row \<Rightarrow> bool" where
  "in_scope org site dev r \<longleftrightarrow>
     dv_organization_id r = org \<and> dv_site_id r = site \<and> dv_id r = dev"

text \<open>\<open>load_device_in_tx\<close>, and \<open>get\<close>, which is the same query outside a transaction.\<close>

definition load_device ::
  "inventory_db \<Rightarrow> uuid \<Rightarrow> uuid \<Rightarrow> uuid \<Rightarrow> inventory_error + device_view option" where
  "load_device db org site dev =
     (case List.find (in_scope org site dev) (iv_devices db) of
        None \<Rightarrow> Inr None
      | Some r \<Rightarrow> bindR (row_to_device r) (\<lambda>v. Inr (Some v)))"

definition loaded :: "inventory_db \<Rightarrow> uuid \<Rightarrow> uuid \<Rightarrow> uuid \<Rightarrow> inventory_error + device_view" where
  "loaded db org site dev =
     bindR (load_device db org site dev) (\<lambda>v. ok_or InvDeviceNotFound v)"

text \<open>\<open>serde_json::to_value\<close> of a view: camel-case keys in the order of the map, which is
  alphabetical.\<close>

fun digits_of :: "nat \<Rightarrow> string" where
  "digits_of n = (if n < 10 then [char_of (48 + int n)] else digits_of (n div 10) @ [char_of (48 + int (n mod 10))])"

declare digits_of.simps [simp del]

definition decimal :: "int \<Rightarrow> string" where
  "decimal i = (if i < 0 then CHR ''-'' # digits_of (nat (- i)) else digits_of (nat i))"

definition json_opt :: "('a \<Rightarrow> json) \<Rightarrow> 'a option \<Rightarrow> json" where
  "json_opt f x = (case x of None \<Rightarrow> JNull | Some v \<Rightarrow> f v)"

definition strings_json :: "string list \<Rightarrow> json" where
  "strings_json xs = JArray (map JString xs)"

definition view_json :: "inventory_env \<Rightarrow> device_view \<Rightarrow> json" where
  "view_json env v = (let time = json_opt (\<lambda>t. JString (ie_rfc3339 env t)) in JObject [
     (''capabilities'', strings_json (vw_capabilities v)),
     (''description'', json_opt JString (vw_description v)),
     (''deviceType'', JString (device_type_as_str (vw_device_type v))),
     (''displayName'', json_opt JString (vw_display_name v)),
     (''firmwareVersion'', json_opt JString (vw_firmware_version v)),
     (''hostname'', json_opt JString (vw_hostname v)),
     (''id'', JString (ie_uuid_str env (vw_id v))),
     (''lastChangedAt'', JString (ie_rfc3339 env (vw_last_changed_at v))),
     (''lastSeenAt'', time (vw_last_seen_at v)),
     (''lifecycle'', JString (lifecycle_as_str (vw_lifecycle v))),
     (''model'', json_opt JString (vw_model v)),
     (''onboardedAt'', time (vw_onboarded_at v)),
     (''operationalOwner'', json_opt JString (vw_operational_owner v)),
     (''organizationId'', JString (ie_uuid_str env (vw_organization_id v))),
     (''osName'', json_opt JString (vw_os_name v)),
     (''osVersion'', json_opt JString (vw_os_version v)),
     (''retiredAt'', time (vw_retired_at v)),
     (''retirementReason'', json_opt JString (vw_retirement_reason v)),
     (''serialNumber'', json_opt JString (vw_serial_number v)),
     (''siteId'', JString (ie_uuid_str env (vw_site_id v))),
     (''vendor'', json_opt JString (vw_vendor v)),
     (''version'', JNumber (decimal (vw_version v)))])"

section \<open>Steps of a transaction\<close>

definition insert_device :: "device_row \<Rightarrow> inventory_db \<Rightarrow> inventory_error + inventory_db" where
  "insert_device r db =
     (if (dv_site_id r, dv_organization_id r) \<notin> iv_sites db then Inl InvDatabase
      else bindR (insert_unless InvDatabase (\<lambda>q. dv_id q = dv_id r) r (iv_devices db)) (\<lambda>rows.
        Inr (db\<lparr>iv_devices := rows\<rparr>)))"

text \<open>\<open>UPDATE devices SET .., version = version + 1, last_changed_at = now() WHERE ..\<close>; the version is a
  \<open>bigint\<close>.\<close>

definition update_devices ::
  "timestamp \<Rightarrow> (device_row \<Rightarrow> bool) \<Rightarrow> (device_row \<Rightarrow> device_row) \<Rightarrow> inventory_db
     \<Rightarrow> inventory_error + inventory_db" where
  "update_devices now hit f db =
     (if list_ex (\<lambda>r. hit r \<and> dv_version r = i64_max) (iv_devices db) then Inl InvDatabase
      else Inr (db\<lparr>iv_devices := upd_where hit (\<lambda>r. (f r)\<lparr>dv_version := dv_version r + 1,
             dv_last_changed_at := now\<rparr>) (iv_devices db)\<rparr>))"

definition same_identity :: "identifier_row \<Rightarrow> identifier_row \<Rightarrow> bool" where
  "same_identity q r \<longleftrightarrow> ir_kind q = ir_kind r \<and> ir_identity_namespace q = ir_identity_namespace r
     \<and> ir_normalized_value q = ir_normalized_value r"

text \<open>The two unique indexes: per device, and for strong identifiers per site.\<close>

definition device_clash :: "identifier_row \<Rightarrow> identifier_row \<Rightarrow> bool" where
  "device_clash r q \<longleftrightarrow> ir_device_id q = ir_device_id r \<and> same_identity q r"

definition strong_clash :: "identifier_row \<Rightarrow> identifier_row \<Rightarrow> bool" where
  "strong_clash r q \<longleftrightarrow> ir_strength r = ''strong'' \<and> ir_strength q = ''strong''
     \<and> ir_organization_id q = ir_organization_id r \<and> ir_site_id q = ir_site_id r
     \<and> same_identity q r"

definition identifier_row_of ::
  "inventory_env \<Rightarrow> uuid \<Rightarrow> uuid \<Rightarrow> uuid \<Rightarrow> new_identifier \<Rightarrow> timestamp option \<Rightarrow> string \<Rightarrow> string
     \<Rightarrow> identifier_row" where
  "identifier_row_of env org site dev i observed_at normalized namespace =
     \<lparr>ir_device_id = dev, ir_organization_id = org, ir_site_id = site,
      ir_kind = kind_as_str (ni_kind i), ir_value = trim (ni_value i),
      ir_source = trim (ni_source i), ir_confidence = map_option (ie_numeric env) (ni_confidence i),
      ir_normalized_value = normalized, ir_identity_namespace = namespace,
      ir_strength = strength_as_str (kind_strength (ni_kind i)), ir_last_seen_at = observed_at\<rparr>"

definition device_exists :: "inventory_db \<Rightarrow> uuid \<Rightarrow> uuid \<Rightarrow> uuid \<Rightarrow> bool" where
  "device_exists db org site dev \<longleftrightarrow> list_ex (in_scope org site dev) (iv_devices db)"

definition insert_identifier :: "identifier_row \<Rightarrow> inventory_db \<Rightarrow> inventory_error + inventory_db" where
  "insert_identifier r db =
     (if list_ex (device_clash r) (iv_identifiers db) then Inl InvDatabase
      else if list_ex (strong_clash r) (iv_identifiers db) then Inl InvDuplicateIdentifier
      else if \<not> device_exists db (ir_organization_id r) (ir_site_id r) (ir_device_id r)
      then Inl InvDatabase
      else Inr (db\<lparr>iv_identifiers := iv_identifiers db @ [r]\<rparr>))"

definition upsert_identifier ::
  "inventory_env \<Rightarrow> uuid \<Rightarrow> uuid \<Rightarrow> uuid \<Rightarrow> timestamp option \<Rightarrow> new_identifier \<Rightarrow> inventory_db
     \<Rightarrow> inventory_error + inventory_db" where
  "upsert_identifier env org site dev observed_at i db =
     bindR (new_identifier_validate i) (\<lambda>_.
     bindR (normalized_identifier i) (\<lambda>normalized.
     bindR (identity_namespace (ni_kind i) (ni_source i)) (\<lambda>namespace.
     let new = identifier_row_of env org site dev i observed_at normalized namespace;
         hit = (\<lambda>q. device_clash new q \<and> ir_organization_id q = org \<and> ir_site_id q = site)
     in if rows_affected hit (iv_identifiers db) > 0
        then Inr (db\<lparr>iv_identifiers := upd_where hit (\<lambda>q. q\<lparr>ir_value := ir_value new,
               ir_source := ir_source new, ir_confidence := ir_confidence new,
               ir_last_seen_at := (case observed_at of None \<Rightarrow> ir_last_seen_at q
                                                     | Some t \<Rightarrow> Some t)\<rparr>) (iv_identifiers db)\<rparr>)
        else insert_identifier new db)))"

text \<open>Facts: \<open>INSERT .. ON CONFLICT (device_id, field_name, provenance, source) DO UPDATE\<close>.\<close>

definition same_fact :: "fact_row \<Rightarrow> fact_row \<Rightarrow> bool" where
  "same_fact f q \<longleftrightarrow> fa_device_id q = fa_device_id f \<and> fa_field_name q = fa_field_name f
     \<and> fa_provenance q = fa_provenance f \<and> fa_source q = fa_source f"

definition upsert_fact :: "fact_row \<Rightarrow> inventory_db \<Rightarrow> inventory_error + inventory_db" where
  "upsert_fact f db =
     (if \<not> device_exists db (fa_organization_id f) (fa_site_id f) (fa_device_id f)
      then Inl InvDatabase
      else bindR (upsert InvDatabase (same_fact f) (\<lambda>_. False) f (\<lambda>q. q\<lparr>fa_value := fa_value f,
             fa_confidence := fa_confidence f, fa_observed_at := (if fa_provenance f = ''observed''
               then fa_observed_at f else fa_observed_at q),
             fa_updated_at := fa_updated_at f\<rparr>) (iv_facts db)) (\<lambda>(rows, _).
        Inr (db\<lparr>iv_facts := rows\<rparr>)))"

definition upsert_declared_fact ::
  "timestamp \<Rightarrow> uuid \<Rightarrow> uuid \<Rightarrow> uuid \<Rightarrow> string \<times> json \<Rightarrow> inventory_db
     \<Rightarrow> inventory_error + inventory_db" where
  "upsert_declared_fact now org site dev fv =
     upsert_fact \<lparr>fa_organization_id = org, fa_site_id = site, fa_device_id = dev,
       fa_field_name = fst fv, fa_value = snd fv, fa_provenance = ''declared'',
       fa_source = ''manual'', fa_confidence = 1, fa_observed_at = None, fa_updated_at = now\<rparr>"

definition upsert_observed_fact ::
  "timestamp \<Rightarrow> uuid \<Rightarrow> uuid \<Rightarrow> uuid \<Rightarrow> timestamp \<Rightarrow> string \<times> json \<Rightarrow> inventory_db
     \<Rightarrow> inventory_error + inventory_db" where
  "upsert_observed_fact now org site dev observed_at fv =
     upsert_fact \<lparr>fa_organization_id = org, fa_site_id = site, fa_device_id = dev,
       fa_field_name = fst fv, fa_value = snd fv, fa_provenance = ''observed'',
       fa_source = ''discovery'', fa_confidence = 1, fa_observed_at = Some observed_at,
       fa_updated_at = now\<rparr>"

text \<open>The fields that are present, with their JSON values.\<close>

fun present :: "(string \<times> 'a option) list \<Rightarrow> (string \<times> 'a) list" where
  "present [] = []"
| "present ((field, None) # fs) = present fs"
| "present ((field, Some value) # fs) = (field, value) # present fs"

definition declared_fields :: "new_device \<Rightarrow> (string \<times> json) list" where
  "declared_fields d =
     (''device_type'', JString (device_type_as_str (nd_device_type d)))
     # map (\<lambda>(f, v). (f, JString v)) (present [
         (''display_name'', nd_display_name d), (''hostname'', nd_hostname d),
         (''vendor'', nd_vendor d), (''model'', nd_model d), (''os_name'', nd_os_name d),
         (''os_version'', nd_os_version d), (''firmware_version'', nd_firmware_version d),
         (''description'', nd_description d), (''operational_owner'', nd_operational_owner d)])
     @ (if nd_capabilities d \<noteq> [] then [(''capabilities'', strings_json (nd_capabilities d))] else [])"

definition persist_declared_facts ::
  "timestamp \<Rightarrow> uuid \<Rightarrow> uuid \<Rightarrow> uuid \<Rightarrow> new_device \<Rightarrow> inventory_db \<Rightarrow> inventory_error + inventory_db" where
  "persist_declared_facts now org site dev d =
     foldR (upsert_declared_fact now org site dev) (declared_fields d)"

definition patch_fields :: "metadata_patch \<Rightarrow> (string \<times> json) list" where
  "patch_fields p =
     map (\<lambda>(f, t). (f, JString (device_type_as_str t))) (present [(''device_type'', mp_device_type p)])
     @ map (\<lambda>(f, v). (f, json_opt JString v)) (present [
         (''display_name'', mp_display_name p), (''hostname'', mp_hostname p),
         (''vendor'', mp_vendor p), (''model'', mp_model p), (''os_name'', mp_os_name p),
         (''os_version'', mp_os_version p), (''firmware_version'', mp_firmware_version p),
         (''description'', mp_description p), (''operational_owner'', mp_operational_owner p)])
     @ map (\<lambda>(f, cs). (f, strings_json cs)) (present [(''capabilities'', mp_capabilities p)])"

definition persist_patch_facts ::
  "timestamp \<Rightarrow> uuid \<Rightarrow> uuid \<Rightarrow> uuid \<Rightarrow> metadata_patch \<Rightarrow> inventory_db
     \<Rightarrow> inventory_error + inventory_db" where
  "persist_patch_facts now org site dev p =
     foldR (upsert_declared_fact now org site dev) (patch_fields p)"

definition observed_fields :: "device_observation \<Rightarrow> (string \<times> json) list" where
  "observed_fields x =
     (''device_type'', JString (device_type_as_str (dx_device_type x)))
     # map (\<lambda>(f, v). (f, JString v)) (present [
         (''display_name'', dx_display_name x), (''hostname'', dx_hostname x),
         (''vendor'', dx_vendor x), (''model'', dx_model x), (''os_name'', dx_os_name x),
         (''os_version'', dx_os_version x), (''firmware_version'', dx_firmware_version x)])
     @ (if dx_capabilities x \<noteq> [] then [(''capabilities'', strings_json (dx_capabilities x))] else [])"

definition persist_observed_facts ::
  "timestamp \<Rightarrow> uuid \<Rightarrow> uuid \<Rightarrow> uuid \<Rightarrow> timestamp \<Rightarrow> device_observation \<Rightarrow> inventory_db
     \<Rightarrow> inventory_error + inventory_db" where
  "persist_observed_facts now org site dev observed_at x =
     foldR (upsert_observed_fact now org site dev observed_at) (observed_fields x)"

text \<open>Whether a field of a device has a declared value.\<close>

definition declared :: "inventory_db \<Rightarrow> uuid \<Rightarrow> string \<Rightarrow> bool" where
  "declared db dev field \<longleftrightarrow> list_ex (\<lambda>f. fa_device_id f = dev \<and> fa_field_name f = field
     \<and> fa_provenance f = ''declared'') (iv_facts db)"

definition observed_value ::
  "inventory_db \<Rightarrow> uuid \<Rightarrow> string \<Rightarrow> string option \<Rightarrow> string option \<Rightarrow> string option" where
  "observed_value db dev field new cur = (if new \<noteq> None \<and> \<not> declared db dev field then new else cur)"

definition observe_row ::
  "inventory_db \<Rightarrow> device_observation \<Rightarrow> timestamp \<Rightarrow> device_row \<Rightarrow> device_row" where
  "observe_row db x observed_at r = (let pick = observed_value db (dv_id r) in
     r\<lparr>dv_display_name := pick ''display_name'' (clean_optional (dx_display_name x)) (dv_display_name r),
       dv_hostname := pick ''hostname'' (clean_optional (dx_hostname x)) (dv_hostname r),
       dv_vendor := pick ''vendor'' (clean_optional (dx_vendor x)) (dv_vendor r),
       dv_model := pick ''model'' (clean_optional (dx_model x)) (dv_model r),
       dv_os_name := pick ''os_name'' (clean_optional (dx_os_name x)) (dv_os_name r),
       dv_os_version := pick ''os_version'' (clean_optional (dx_os_version x)) (dv_os_version r),
       dv_firmware_version := pick ''firmware_version'' (clean_optional (dx_firmware_version x))
         (dv_firmware_version r),
       dv_device_type := (if \<not> declared db (dv_id r) ''device_type''
         then device_type_as_str (dx_device_type x) else dv_device_type r),
       dv_capabilities := (if dx_capabilities x \<noteq> [] \<and> \<not> declared db (dv_id r) ''capabilities''
         then dx_capabilities x else dv_capabilities r),
       dv_last_seen_at := Some (case dv_last_seen_at r of None \<Rightarrow> observed_at
                                                       | Some t \<Rightarrow> max t observed_at)\<rparr>)"

definition apply_observed_canonical_fields ::
  "timestamp \<Rightarrow> uuid \<Rightarrow> device_observation \<Rightarrow> timestamp \<Rightarrow> inventory_db
     \<Rightarrow> inventory_error + inventory_db" where
  "apply_observed_canonical_fields now dev x observed_at db =
     update_devices now (\<lambda>r. dv_id r = dev) (observe_row db x observed_at) db"

definition append_lifecycle_event ::
  "timestamp \<Rightarrow> mutation_context \<Rightarrow> uuid \<Rightarrow> device_lifecycle option \<Rightarrow> device_lifecycle
     \<Rightarrow> string option \<Rightarrow> inventory_db \<Rightarrow> inventory_error + inventory_db" where
  "append_lifecycle_event now c dev from_state to reason db =
     (if \<not> device_exists db (mx_organization_id c) (mx_site_id c) dev then Inl InvDatabase
      else Inr (db\<lparr>iv_lifecycle_events := iv_lifecycle_events db @ [
        \<lparr>le_organization_id = mx_organization_id c, le_site_id = mx_site_id c, le_device_id = dev,
         le_from_state = map_option lifecycle_as_str from_state, le_to_state = lifecycle_as_str to,
         le_actor_type = actor_type_as_str (mx_actor_type c), le_actor_id = mx_actor_id c,
         le_reason = reason, le_correlation_id = mx_correlation_id c, le_created_at = now\<rparr>]\<rparr>))"

definition mutation_draft ::
  "inventory_env \<Rightarrow> i64 \<Rightarrow> mutation_context \<Rightarrow> string \<Rightarrow> device_view \<Rightarrow> json option \<Rightarrow> json option
     \<Rightarrow> audit_draft" where
  "mutation_draft env occurred_at c action device before after =
     \<lparr>ad_organization_id = mx_organization_id c, ad_site_id = Some (mx_site_id c),
      ad_actor_type = mx_actor_type c, ad_actor_id = mx_actor_id c,
      ad_session_id = mx_session_id c, ad_source_ip = mx_source_ip c,
      ad_request_id = mx_request_id c, ad_correlation_id = mx_correlation_id c,
      ad_action = action, ad_resource_type = ''device'',
      ad_resource_id = Some (ie_uuid_str env (vw_id device)), ad_provider = None,
      ad_occurred_at_unix_ms = occurred_at, ad_duration_ms = None, ad_status = AuditSucceeded,
      ad_reason_code = None, ad_before = before, ad_after = after,
      ad_result = Some (JObject [(''ok'', JBool True)])\<rparr>"

definition mutation_event ::
  "inventory_env \<Rightarrow> uuid \<Rightarrow> mutation_context \<Rightarrow> string \<Rightarrow> device_view \<Rightarrow> json option
     \<Rightarrow> new_outbox_event" where
  "mutation_event env new_id c event_type device after =
     \<lparr>ne_id = new_id, ne_organization_id = mx_organization_id c, ne_aggregate_type = ''device'',
      ne_aggregate_id = ie_uuid_str env (vw_id device), ne_event_type = event_type,
      ne_event_version = 1,
      ne_payload = (case after of Some a \<Rightarrow> a
        | None \<Rightarrow> JObject [(''deviceId'', JString (ie_uuid_str env (vw_id device)))]),
      ne_correlation_id = mx_correlation_id c\<rparr>"

definition write_mutation_records ::
  "inventory_env \<Rightarrow> tick \<Rightarrow> mutation_context \<Rightarrow> string \<Rightarrow> string \<Rightarrow> device_view \<Rightarrow> json option
     \<Rightarrow> json option \<Rightarrow> inventory_db \<Rightarrow> inventory_error + inventory_db" where
  "write_mutation_records env tk c action event_type device before after db =
     bindR (map_err InvAudit (audit_append (ie_audit_ops env) (tk_audit_id tk)
       (mutation_draft env (tk_utc_ms tk) c action device before after) (iv_audit db))) (\<lambda>(audit, _).
     bindR (map_err InvOutbox (outbox_enqueue (tk_now tk)
       (mutation_event env (tk_outbox_id tk) c event_type device after) (iv_outbox db))) (\<lambda>outbox.
     Inr (db\<lparr>iv_audit := audit, iv_outbox := outbox\<rparr>)))"

section \<open>Operations\<close>

definition first_identifier_value :: "new_identifier list \<Rightarrow> identifier_kind \<Rightarrow> string option" where
  "first_identifier_value is kind =
     map_option (\<lambda>i. trim (ni_value i)) (List.find (\<lambda>i. ni_kind i = kind) is)"

definition or_else :: "'a option \<Rightarrow> 'a option \<Rightarrow> 'a option" where
  "or_else x y = (case x of None \<Rightarrow> y | Some v \<Rightarrow> Some v)"

definition manual_row ::
  "tick \<Rightarrow> mutation_context \<Rightarrow> new_device \<Rightarrow> device_lifecycle \<Rightarrow> device_row" where
  "manual_row tk c d lifecycle =
     \<lparr>dv_id = tk_device_id tk, dv_organization_id = mx_organization_id c, dv_site_id = mx_site_id c,
      dv_lifecycle_state = lifecycle_as_str lifecycle,
      dv_device_type = device_type_as_str (nd_device_type d),
      dv_display_name = clean_optional (nd_display_name d),
      dv_hostname = clean_optional (or_else (nd_hostname d)
        (first_identifier_value (nd_identifiers d) Hostname)),
      dv_vendor = clean_optional (nd_vendor d), dv_model = clean_optional (nd_model d),
      dv_serial_number = clean_optional (first_identifier_value (nd_identifiers d) Serial),
      dv_os_name = clean_optional (nd_os_name d), dv_os_version = clean_optional (nd_os_version d),
      dv_firmware_version = clean_optional (nd_firmware_version d),
      dv_description = clean_optional (nd_description d),
      dv_operational_owner = clean_optional (nd_operational_owner d),
      dv_capabilities = nd_capabilities d, dv_version = 1, dv_last_seen_at = None,
      dv_last_changed_at = tk_now tk,
      dv_onboarded_at = (if lifecycle_as_str lifecycle = ''managed'' then Some (tk_now tk) else None),
      dv_retired_at = None, dv_retirement_reason = None\<rparr>"

definition create_manual ::
  "inventory_env \<Rightarrow> tick \<Rightarrow> mutation_context \<Rightarrow> new_device \<Rightarrow> bool \<Rightarrow> inventory_db
     \<Rightarrow> inventory_error + (inventory_db \<times> device_view)" where
  "create_manual env tk c d approval_required db =
     bindR (context_validate c) (\<lambda>_.
     bindR (new_device_validate d) (\<lambda>_.
     let lifecycle = (if approval_required then PendingReview else Managed);
         dev = tk_device_id tk; org = mx_organization_id c; site = mx_site_id c in
     bindR (insert_device (manual_row tk c d lifecycle) db) (\<lambda>db.
     bindR (foldR (upsert_identifier env org site dev None) (nd_identifiers d) db) (\<lambda>db.
     bindR (persist_declared_facts (tk_now tk) org site dev d db) (\<lambda>db.
     bindR (append_lifecycle_event (tk_now tk) c dev None lifecycle (Some ''manual_create'') db) (\<lambda>db.
     bindR (loaded db org site dev) (\<lambda>device.
     bindR (write_mutation_records env tk c ''inventory.device.create'' ''inventory.device.created''
       device None (Some (view_json env device)) db) (\<lambda>db.
     Inr (db, device)))))))))"

text \<open>\<open>patch.field.clone().unwrap_or_else(|| current.field.clone())\<close>.\<close>

definition patched :: "'a option \<Rightarrow> 'a \<Rightarrow> 'a" where
  "patched patch current = (case patch of None \<Rightarrow> current | Some v \<Rightarrow> v)"

definition patch_row :: "metadata_patch \<Rightarrow> device_view \<Rightarrow> device_row \<Rightarrow> device_row" where
  "patch_row p v r = r\<lparr>
     dv_display_name := clean_optional (patched (mp_display_name p) (vw_display_name v)),
     dv_hostname := clean_optional (patched (mp_hostname p) (vw_hostname v)),
     dv_vendor := clean_optional (patched (mp_vendor p) (vw_vendor v)),
     dv_model := clean_optional (patched (mp_model p) (vw_model v)),
     dv_os_name := clean_optional (patched (mp_os_name p) (vw_os_name v)),
     dv_os_version := clean_optional (patched (mp_os_version p) (vw_os_version v)),
     dv_firmware_version := clean_optional (patched (mp_firmware_version p) (vw_firmware_version v)),
     dv_description := clean_optional (patched (mp_description p) (vw_description v)),
     dv_operational_owner :=
       clean_optional (patched (mp_operational_owner p) (vw_operational_owner v)),
     dv_device_type := device_type_as_str (patched (mp_device_type p) (vw_device_type v)),
     dv_capabilities := patched (mp_capabilities p) (vw_capabilities v)\<rparr>"

definition update_metadata ::
  "inventory_env \<Rightarrow> tick \<Rightarrow> mutation_context \<Rightarrow> uuid \<Rightarrow> i64 \<Rightarrow> metadata_patch \<Rightarrow> inventory_db
     \<Rightarrow> inventory_error + (inventory_db \<times> device_view)" where
  "update_metadata env tk c dev expected_version p db =
     bindR (context_validate c) (\<lambda>_.
     bindR (patch_validate p) (\<lambda>_.
     let org = mx_organization_id c; site = mx_site_id c in
     bindR (loaded db org site dev) (\<lambda>current.
     if vw_version current \<noteq> expected_version
     then Inl (InvVersionConflict expected_version (vw_version current))
     else if \<not> allows_normal_mutation (vw_lifecycle current)
     then Inl (InvLifecycleBlocksMutation (vw_lifecycle current))
     else
     bindR (update_devices (tk_now tk) (in_scope org site dev) (patch_row p current) db) (\<lambda>db.
     bindR (persist_patch_facts (tk_now tk) org site dev p db) (\<lambda>db.
     bindR (loaded db org site dev) (\<lambda>updated.
     bindR (write_mutation_records env tk c ''inventory.device.update'' ''inventory.device.updated''
       updated (Some (view_json env current)) (Some (view_json env updated)) db) (\<lambda>db.
     Inr (db, updated))))))))"

definition lifecycle_row ::
  "timestamp \<Rightarrow> device_lifecycle \<Rightarrow> string option \<Rightarrow> device_row \<Rightarrow> device_row" where
  "lifecycle_row now next reason r = (let to = lifecycle_as_str next;
       reopened = (dv_lifecycle_state r = ''retired'' \<and> to = ''pending_review'') in
     r\<lparr>dv_lifecycle_state := to,
       dv_onboarded_at := (if to = ''managed''
         then Some (case dv_onboarded_at r of None \<Rightarrow> now | Some t \<Rightarrow> t) else dv_onboarded_at r),
       dv_retired_at := (if to = ''retired'' then Some now
         else if reopened then None else dv_retired_at r),
       dv_retirement_reason := (if to = ''retired'' then reason
         else if reopened then None else dv_retirement_reason r)\<rparr>)"

definition transition_lifecycle ::
  "inventory_env \<Rightarrow> tick \<Rightarrow> mutation_context \<Rightarrow> uuid \<Rightarrow> i64 \<Rightarrow> device_lifecycle \<Rightarrow> string option
     \<Rightarrow> inventory_db \<Rightarrow> inventory_error + (inventory_db \<times> device_view)" where
  "transition_lifecycle env tk c dev expected_version next reason db =
     bindR (context_validate c) (\<lambda>_.
     let org = mx_organization_id c; site = mx_site_id c in
     bindR (loaded db org site dev) (\<lambda>current.
     if vw_version current \<noteq> expected_version
     then Inl (InvVersionConflict expected_version (vw_version current))
     else if vw_lifecycle current = next then Inr (db, current)
     else if \<not> can_transition_to (vw_lifecycle current) next
     then Inl (InvInvalidLifecycleTransition (vw_lifecycle current) next)
     else let reason = clean_optional reason in
     if (next = Retired \<or> next = Archived) \<and> (reason = None \<or> reason = Some [])
     then Inl InvLifecycleReasonRequired
     else
     bindR (update_devices (tk_now tk) (in_scope org site dev) (lifecycle_row (tk_now tk) next reason) db)
       (\<lambda>db.
     bindR (append_lifecycle_event (tk_now tk) c dev (Some (vw_lifecycle current)) next reason db) (\<lambda>db.
     bindR (loaded db org site dev) (\<lambda>updated.
     bindR (write_mutation_records env tk c ''inventory.device.lifecycle.transition''
       ''inventory.device.lifecycle_changed'' updated (Some (view_json env current))
       (Some (view_json env updated)) db) (\<lambda>db.
     Inr (db, updated)))))))"

datatype reconciliation_result = Created device_view | Updated device_view

text \<open>The devices that hold one of the strong identifiers, in the order of the set they are collected in.\<close>

definition strong_owner ::
  "inventory_db \<Rightarrow> uuid \<Rightarrow> uuid \<Rightarrow> new_identifier \<Rightarrow> inventory_error + uuid option" where
  "strong_owner db org site i =
     bindR (normalized_identifier i) (\<lambda>normalized.
     bindR (identity_namespace (ni_kind i) (ni_source i)) (\<lambda>namespace.
     Inr (map_option ir_device_id (List.find (\<lambda>q. ir_organization_id q = org \<and> ir_site_id q = site
       \<and> ir_kind q = kind_as_str (ni_kind i) \<and> ir_identity_namespace q = namespace
       \<and> ir_normalized_value q = normalized \<and> ir_strength q = ''strong'') (iv_identifiers db)))))"

definition strong_matches ::
  "inventory_db \<Rightarrow> uuid \<Rightarrow> uuid \<Rightarrow> new_identifier list \<Rightarrow> inventory_error + uuid list" where
  "strong_matches db org site is =
     bindR (foldR (\<lambda>i ms. bindR (strong_owner db org site i) (\<lambda>m.
         Inr (case m of None \<Rightarrow> ms | Some dev \<Rightarrow> ms @ [dev])))
       (filter (\<lambda>i. kind_strength (ni_kind i) = Strong) is) []) (\<lambda>ms.
     Inr (sort (remdups ms)))"

definition observed_row ::
  "tick \<Rightarrow> mutation_context \<Rightarrow> device_observation \<Rightarrow> timestamp \<Rightarrow> device_row" where
  "observed_row tk c x observed_at =
     \<lparr>dv_id = tk_device_id tk, dv_organization_id = mx_organization_id c, dv_site_id = mx_site_id c,
      dv_lifecycle_state = ''discovered'', dv_device_type = device_type_as_str (dx_device_type x),
      dv_display_name = clean_optional (dx_display_name x),
      dv_hostname = clean_optional (or_else (dx_hostname x)
        (first_identifier_value (dx_identifiers x) Hostname)),
      dv_vendor = clean_optional (dx_vendor x), dv_model = clean_optional (dx_model x),
      dv_serial_number = clean_optional (first_identifier_value (dx_identifiers x) Serial),
      dv_os_name = clean_optional (dx_os_name x), dv_os_version = clean_optional (dx_os_version x),
      dv_firmware_version = clean_optional (dx_firmware_version x), dv_description = None,
      dv_operational_owner = None, dv_capabilities = dx_capabilities x, dv_version = 1,
      dv_last_seen_at = Some observed_at, dv_last_changed_at = tk_now tk, dv_onboarded_at = None,
      dv_retired_at = None, dv_retirement_reason = None\<rparr>"

definition reconcile_known ::
  "inventory_env \<Rightarrow> tick \<Rightarrow> mutation_context \<Rightarrow> device_observation \<Rightarrow> timestamp \<Rightarrow> uuid
     \<Rightarrow> inventory_db \<Rightarrow> inventory_error + (inventory_db \<times> device_view)" where
  "reconcile_known env tk c x observed_at dev db =
     (let org = mx_organization_id c; site = mx_site_id c in
     bindR (loaded db org site dev) (\<lambda>current.
     if vw_lifecycle current = Retired \<or> vw_lifecycle current = Archived
     then Inl (InvReactivationRequiresReview dev)
     else
     bindR (foldR (upsert_identifier env org site dev (Some observed_at)) (dx_identifiers x) db) (\<lambda>db.
     bindR (persist_observed_facts (tk_now tk) org site dev observed_at x db) (\<lambda>db.
     bindR (apply_observed_canonical_fields (tk_now tk) dev x observed_at db) (\<lambda>db.
     bindR (loaded db org site dev) (\<lambda>updated.
     bindR (write_mutation_records env tk c ''inventory.device.reconcile'' ''inventory.device.observed''
       updated (Some (view_json env current)) (Some (view_json env updated)) db) (\<lambda>db.
     Inr (db, updated))))))))"

definition reconcile_new ::
  "inventory_env \<Rightarrow> tick \<Rightarrow> mutation_context \<Rightarrow> device_observation \<Rightarrow> timestamp
     \<Rightarrow> inventory_db \<Rightarrow> inventory_error + (inventory_db \<times> device_view)" where
  "reconcile_new env tk c x observed_at db =
     (let org = mx_organization_id c; site = mx_site_id c; dev = tk_device_id tk in
     bindR (insert_device (observed_row tk c x observed_at) db) (\<lambda>db.
     bindR (foldR (upsert_identifier env org site dev (Some observed_at)) (dx_identifiers x) db) (\<lambda>db.
     bindR (persist_observed_facts (tk_now tk) org site dev observed_at x db) (\<lambda>db.
     bindR (append_lifecycle_event (tk_now tk) c dev None Discovered (Some ''discovery'') db) (\<lambda>db.
     bindR (loaded db org site dev) (\<lambda>created.
     bindR (write_mutation_records env tk c ''inventory.device.discovery.create''
       ''inventory.device.discovered'' created None (Some (view_json env created)) db) (\<lambda>db.
     Inr (db, created))))))))"

definition reconcile_observation ::
  "inventory_env \<Rightarrow> tick \<Rightarrow> mutation_context \<Rightarrow> device_observation \<Rightarrow> inventory_db
     \<Rightarrow> inventory_error + (inventory_db \<times> reconciliation_result)" where
  "reconcile_observation env tk c x db =
     bindR (context_validate c) (\<lambda>_.
     bindR (observation_validate x) (\<lambda>_.
     bindR (strong_matches db (mx_organization_id c) (mx_site_id c) (dx_identifiers x)) (\<lambda>matches.
     if length matches > 1 then Inl (InvReconciliationConflict matches)
     else let observed_at = patched (dx_observed_at x) (tk_utc tk) in
     case matches of
       dev # _ \<Rightarrow> bindR (reconcile_known env tk c x observed_at dev db) (\<lambda>(db, v). Inr (db, Updated v))
     | [] \<Rightarrow> bindR (reconcile_new env tk c x observed_at db) (\<lambda>(db, v). Inr (db, Created v)))))"

end
