(* ===== verification/Inventory_Invariant.thy ===== *)
theory Inventory_Invariant
  imports Inventory_Store
begin

text \<open>
  What every transaction of the inventory store keeps. \<open>base_inv\<close> is the invariant of the device,
  identifier and fact tables; \<open>elsewhere_same\<close> says that a step for one device leaves the rows of all
  others as they are. Both are proved for the steps of a transaction and then for the operations.
\<close>

section \<open>The invariant\<close>

definition device_row_ok :: "device_row \<Rightarrow> bool" where
  "device_row_ok r \<longleftrightarrow> dv_lifecycle_state r \<in> range lifecycle_as_str
     \<and> dv_device_type r \<in> range device_type_as_str
     \<and> 1 \<le> dv_version r \<and> dv_version r \<le> i64_max
     \<and> (dv_lifecycle_state r = ''managed'' \<longrightarrow> dv_onboarded_at r \<noteq> None)
     \<and> (dv_lifecycle_state r = ''retired'' \<longrightarrow> dv_retired_at r \<noteq> None \<and> dv_retirement_reason r \<noteq> None)
     \<and> (dv_retired_at r \<noteq> None \<longrightarrow> dv_lifecycle_state r \<in> {''retired'', ''archived''})"

definition devices_ok :: "inventory_db \<Rightarrow> bool" where
  "devices_ok db \<longleftrightarrow> distinct (map dv_id (iv_devices db))
     \<and> (\<forall>r \<in> set (iv_devices db). device_row_ok r \<and> (dv_site_id r, dv_organization_id r) \<in> iv_sites db)"

definition identifier_ok :: "identifier_row \<Rightarrow> bool" where
  "identifier_ok q \<longleftrightarrow> (\<exists>k. ir_kind q = kind_as_str k
     \<and> normalize k (ir_value q) = Inr (ir_normalized_value q)
     \<and> ir_strength q = strength_as_str (kind_strength k)
     \<and> identity_namespace k (ir_source q) = Inr (ir_identity_namespace q))"

definition identifiers_ok :: "inventory_db \<Rightarrow> bool" where
  "identifiers_ok db \<longleftrightarrow>
     sorted_wrt (\<lambda>q r. \<not> device_clash r q \<and> \<not> strong_clash r q) (iv_identifiers db)
     \<and> (\<forall>q \<in> set (iv_identifiers db). identifier_ok q
          \<and> device_exists db (ir_organization_id q) (ir_site_id q) (ir_device_id q))"

definition facts_ok :: "inventory_db \<Rightarrow> bool" where
  "facts_ok db \<longleftrightarrow> sorted_wrt (\<lambda>q f. \<not> same_fact f q) (iv_facts db)
     \<and> (\<forall>f \<in> set (iv_facts db). device_exists db (fa_organization_id f) (fa_site_id f) (fa_device_id f))"

definition base_inv :: "inventory_db \<Rightarrow> bool" where
  "base_inv db \<longleftrightarrow> devices_ok db \<and> identifiers_ok db \<and> facts_ok db"

text \<open>The log of a device, and the state it leads to when each entry starts where the one before it
  ended and moves as the lifecycle allows.\<close>

definition device_log :: "inventory_db \<Rightarrow> uuid \<Rightarrow> lifecycle_event_row list" where
  "device_log db dev = filter (\<lambda>e. le_device_id e = dev) (iv_lifecycle_events db)"

definition log_entry_legal :: "string option \<Rightarrow> lifecycle_event_row \<Rightarrow> bool" where
  "log_entry_legal state e \<longleftrightarrow> le_from_state e = state
     \<and> (case state of
          None \<Rightarrow> le_to_state e \<in> {''discovered'', ''pending_review'', ''managed''}
        | Some s \<Rightarrow> (case (parse_lifecycle s, parse_lifecycle (le_to_state e)) of
              (Inr l, Inr m) \<Rightarrow> l \<noteq> m \<and> can_transition_to l m | _ \<Rightarrow> False))"

fun replay :: "string option \<Rightarrow> lifecycle_event_row list \<Rightarrow> string option option" where
  "replay state [] = Some state"
| "replay state (e # es) =
     (if log_entry_legal state e then replay (Some (le_to_state e)) es else None)"

definition log_ok :: "inventory_db \<Rightarrow> bool" where
  "log_ok db \<longleftrightarrow> (\<forall>r \<in> set (iv_devices db).
       replay None (device_log db (dv_id r)) = Some (Some (dv_lifecycle_state r)))
     \<and> (\<forall>e \<in> set (iv_lifecycle_events db). le_device_id e \<in> dv_id ` set (iv_devices db))"

definition inventory_inv :: "inventory_env \<Rightarrow> inventory_db \<Rightarrow> bool" where
  "inventory_inv env db \<longleftrightarrow> base_inv db \<and> log_ok db
     \<and> all_chained (ie_audit_ops env) (iv_audit db) \<and> outbox_inv (iv_outbox db)"

text \<open>Everything that does not belong to one device is as it was.\<close>

definition elsewhere_same :: "uuid \<Rightarrow> inventory_db \<Rightarrow> inventory_db \<Rightarrow> bool" where
  "elsewhere_same dev db db' \<longleftrightarrow> iv_sites db' = iv_sites db
     \<and> filter (\<lambda>r. dv_id r \<noteq> dev) (iv_devices db') = filter (\<lambda>r. dv_id r \<noteq> dev) (iv_devices db)
     \<and> filter (\<lambda>q. ir_device_id q \<noteq> dev) (iv_identifiers db')
         = filter (\<lambda>q. ir_device_id q \<noteq> dev) (iv_identifiers db)
     \<and> filter (\<lambda>f. fa_device_id f \<noteq> dev) (iv_facts db') = filter (\<lambda>f. fa_device_id f \<noteq> dev) (iv_facts db)
     \<and> filter (\<lambda>e. le_device_id e \<noteq> dev) (iv_lifecycle_events db')
         = filter (\<lambda>e. le_device_id e \<noteq> dev) (iv_lifecycle_events db)"

text \<open>No identifier changes its owner and no fact disappears.\<close>

definition same_owner :: "identifier_row \<Rightarrow> identifier_row \<Rightarrow> bool" where
  "same_owner q q' \<longleftrightarrow> ir_device_id q' = ir_device_id q \<and> ir_organization_id q' = ir_organization_id q
     \<and> ir_site_id q' = ir_site_id q \<and> ir_strength q' = ir_strength q \<and> same_identity q' q"

definition kept :: "inventory_db \<Rightarrow> inventory_db \<Rightarrow> bool" where
  "kept db db' \<longleftrightarrow> (\<forall>q \<in> set (iv_identifiers db). \<exists>q' \<in> set (iv_identifiers db'). same_owner q q')
     \<and> (\<forall>f \<in> set (iv_facts db). \<exists>f' \<in> set (iv_facts db'). same_fact f f')"

text \<open>A step that writes only identifiers and facts, and removes none.\<close>

definition data_only :: "inventory_db \<Rightarrow> inventory_db \<Rightarrow> bool" where
  "data_only db db' \<longleftrightarrow> iv_sites db' = iv_sites db \<and> iv_devices db' = iv_devices db
     \<and> iv_lifecycle_events db' = iv_lifecycle_events db \<and> iv_audit db' = iv_audit db
     \<and> iv_outbox db' = iv_outbox db \<and> kept db db'"

lemma same_owner_refl: "same_owner q q"
  by (simp add: same_owner_def same_identity_def)

lemma kept_subset:
  "set (iv_identifiers db) \<subseteq> set (iv_identifiers db') \<Longrightarrow> set (iv_facts db) \<subseteq> set (iv_facts db')
    \<Longrightarrow> kept db db'"
  unfolding kept_def same_fact_def using same_owner_refl by blast

lemma kept_trans:
  assumes "kept a b" and "kept b c"
  shows "kept a c"
proof -
  have "same_owner p q \<Longrightarrow> same_owner q r \<Longrightarrow> same_owner p r" for p q r
    by (simp add: same_owner_def same_identity_def)
  moreover have "same_fact p q \<Longrightarrow> same_fact q r \<Longrightarrow> same_fact p r" for p q r
    by (simp add: same_fact_def)
  ultimately show ?thesis using assms unfolding kept_def by meson
qed

lemma elsewhere_refl: "elsewhere_same dev db db"
  by (simp add: elsewhere_same_def)

lemma elsewhere_trans: "elsewhere_same dev a b \<Longrightarrow> elsewhere_same dev b c \<Longrightarrow> elsewhere_same dev a c"
  by (simp add: elsewhere_same_def)

lemma data_only_refl: "data_only db db"
  by (simp add: data_only_def kept_subset)

lemma data_only_trans: "data_only a b \<Longrightarrow> data_only b c \<Longrightarrow> data_only a c"
  unfolding data_only_def using kept_trans by metis

lemma sorted_wrt_upd_where:
  assumes "sorted_wrt R rows" and "\<And>q r. R q r \<Longrightarrow> R (if p q then f q else q) (if p r then f r else r)"
  shows "sorted_wrt R (upd_where p f rows)"
  unfolding upd_where_def sorted_wrt_map
  by (rule sorted_wrt_mono_rel [OF _ assms(1)]) (rule assms(2))

lemma filter_upd_where_none:
  "(\<And>r. p r \<Longrightarrow> \<not> k r) \<Longrightarrow> (\<And>r. p r \<Longrightarrow> \<not> k (f r)) \<Longrightarrow> filter k (upd_where p f rows) = filter k rows"
  by (induction rows) (auto simp: upd_where_def)

section \<open>The steps of a transaction\<close>

lemma device_exists_iff:
  "device_exists db org site dev \<longleftrightarrow> (\<exists>r \<in> set (iv_devices db). in_scope org site dev r)"
  by (simp add: device_exists_def list_ex_iff)

lemma identifiers_ok_cong:
  "identifiers_ok db \<Longrightarrow> iv_identifiers db' = iv_identifiers db
    \<Longrightarrow> (\<And>org site dev. device_exists db org site dev \<Longrightarrow> device_exists db' org site dev)
    \<Longrightarrow> identifiers_ok db'"
  by (simp add: identifiers_ok_def)

lemma facts_ok_cong:
  "facts_ok db \<Longrightarrow> iv_facts db' = iv_facts db
    \<Longrightarrow> (\<And>org site dev. device_exists db org site dev \<Longrightarrow> device_exists db' org site dev)
    \<Longrightarrow> facts_ok db'"
  by (simp add: facts_ok_def)

lemma insert_device_effect:
  assumes "insert_device r db = Inr db'"
  shows "db' = db\<lparr>iv_devices := iv_devices db @ [r]\<rparr>"
    and "dv_id r \<notin> dv_id ` set (iv_devices db)"
    and "(dv_site_id r, dv_organization_id r) \<in> iv_sites db"
  using assms by (auto simp: insert_device_def result_simps table_simps split: if_splits)

lemma insert_device_base:
  assumes "insert_device r db = Inr db'" and "base_inv db" and "device_row_ok r"
  shows "base_inv db'"
proof -
  note eff = insert_device_effect [OF assms(1)]
  have "device_exists db org site dev \<Longrightarrow> device_exists db' org site dev" for org site dev
    by (auto simp: eff(1) device_exists_iff)
  moreover have "devices_ok db'"
    using assms(2,3) eff(2,3) by (auto simp: eff(1) base_inv_def devices_ok_def)
  ultimately show ?thesis
    using assms(2) by (auto simp: base_inv_def eff(1) intro: identifiers_ok_cong facts_ok_cong)
qed

lemma insert_device_elsewhere: "insert_device r db = Inr db' \<Longrightarrow> elsewhere_same (dv_id r) db db'"
  using insert_device_effect(1) by (fastforce simp: elsewhere_same_def)

text \<open>An update keeps the key of a row.\<close>

definition keeps_scope :: "(device_row \<Rightarrow> device_row) \<Rightarrow> bool" where
  "keeps_scope f \<longleftrightarrow> (\<forall>r. dv_id (f r) = dv_id r \<and> dv_organization_id (f r) = dv_organization_id r
     \<and> dv_site_id (f r) = dv_site_id r)"

definition bumped :: "timestamp \<Rightarrow> (device_row \<Rightarrow> device_row) \<Rightarrow> device_row \<Rightarrow> device_row" where
  "bumped now f r = (f r)\<lparr>dv_version := dv_version r + 1, dv_last_changed_at := now\<rparr>"

lemma bumped_scope:
  assumes "keeps_scope f"
  shows "dv_id (bumped now f r) = dv_id r" "dv_organization_id (bumped now f r) = dv_organization_id r"
    "dv_site_id (bumped now f r) = dv_site_id r" "in_scope org site dev (bumped now f r) = in_scope org site dev r"
  using assms by (simp_all add: keeps_scope_def bumped_def in_scope_def)

lemma update_devices_effect:
  assumes "update_devices now hit f db = Inr db'"
  shows "db' = db\<lparr>iv_devices := upd_where hit (bumped now f) (iv_devices db)\<rparr>"
    and "\<forall>r \<in> set (iv_devices db). hit r \<longrightarrow> dv_version r \<noteq> i64_max"
  using assms by (auto simp: update_devices_def bumped_def [abs_def] list_ex_iff split: if_splits)

lemma update_devices_exists:
  assumes "update_devices now hit f db = Inr db'" and "keeps_scope f"
  shows "device_exists db' org site dev \<longleftrightarrow> device_exists db org site dev"
proof -
  have "(\<exists>r \<in> set (upd_where hit (bumped now f) rows). in_scope org site dev r)
      \<longleftrightarrow> (\<exists>r \<in> set rows. in_scope org site dev r)" for rows
    by (induction rows) (simp_all add: upd_where_def bumped_scope [OF assms(2)])
  then show ?thesis by (simp add: update_devices_effect(1) [OF assms(1)] device_exists_iff)
qed

lemma update_devices_base:
  assumes up: "update_devices now hit f db = Inr db'" and base: "base_inv db" and f: "keeps_scope f"
    and ok: "\<And>r. r \<in> set (iv_devices db) \<Longrightarrow> hit r \<Longrightarrow> device_row_ok r \<Longrightarrow> device_row_ok (bumped now f r)"
  shows "base_inv db'"
proof -
  note eff = update_devices_effect [OF up]
  have "map dv_id (iv_devices db') = map dv_id (iv_devices db)"
    by (simp add: eff(1) map_upd_where bumped_scope [OF f])
  moreover have "device_row_ok r \<and> (dv_site_id r, dv_organization_id r) \<in> iv_sites db'"
    if "r \<in> set (iv_devices db')" for r
    using that base ok by (auto simp: eff(1) table_simps base_inv_def devices_ok_def bumped_scope [OF f])
  ultimately have "devices_ok db'" using base by (simp add: base_inv_def devices_ok_def)
  moreover have "iv_identifiers db' = iv_identifiers db" "iv_facts db' = iv_facts db"
    by (simp_all add: eff(1))
  ultimately show ?thesis
    using base update_devices_exists [OF up f]
    by (auto simp: base_inv_def intro: identifiers_ok_cong facts_ok_cong)
qed

lemma update_devices_elsewhere:
  assumes "update_devices now hit f db = Inr db'" and "keeps_scope f" and "\<And>r. hit r \<Longrightarrow> dv_id r = dev"
  shows "elsewhere_same dev db db'"
  using assms(3)
  by (auto simp: update_devices_effect(1) [OF assms(1)] elsewhere_same_def bumped_scope [OF assms(2)]
      intro!: filter_upd_where_none)

lemma device_row_ok_version:
  "device_row_ok r \<Longrightarrow> dv_version r \<noteq> i64_max \<Longrightarrow> 1 \<le> dv_version r + 1 \<and> dv_version r + 1 \<le> i64_max"
  by (auto simp: device_row_ok_def)

subsection \<open>Identifiers and facts\<close>

lemma kind_as_str_inj: "kind_as_str k = kind_as_str l \<longleftrightarrow> k = l"
  by (cases k; cases l) simp_all

lemma identity_namespace_trim: "identity_namespace k (trim s) = identity_namespace k s"
  by (simp add: identity_namespace_def str_simps)

lemma new_row_ok:
  assumes "normalized_identifier i = Inr n" and "identity_namespace (ni_kind i) (ni_source i) = Inr ns"
  shows "identifier_ok (identifier_row_of env org site dev i t n ns)"
  using assms by (auto simp: identifier_ok_def identifier_row_of_def normalized_identifier_def
      result_simps normalize_trim identity_namespace_trim intro!: exI [of _ "ni_kind i"])

text \<open>What an update of an identifier writes: all columns but those of the unique indexes.\<close>

definition refreshed :: "identifier_row \<Rightarrow> identifier_row \<Rightarrow> identifier_row" where
  "refreshed new q = q\<lparr>ir_value := ir_value new, ir_source := ir_source new,
     ir_confidence := ir_confidence new,
     ir_last_seen_at := (case ir_last_seen_at new of None \<Rightarrow> ir_last_seen_at q | Some t \<Rightarrow> Some t)\<rparr>"

lemma refreshed_keys [simp]:
  "ir_device_id (refreshed new q) = ir_device_id q"
  "ir_organization_id (refreshed new q) = ir_organization_id q"
  "ir_site_id (refreshed new q) = ir_site_id q"
  "ir_kind (refreshed new q) = ir_kind q"
  "ir_identity_namespace (refreshed new q) = ir_identity_namespace q"
  "ir_normalized_value (refreshed new q) = ir_normalized_value q"
  "ir_strength (refreshed new q) = ir_strength q"
  "ir_value (refreshed new q) = ir_value new" "ir_source (refreshed new q) = ir_source new"
  by (simp_all add: refreshed_def)

lemma refreshed_clash:
  "device_clash (refreshed new q) (refreshed new' r) \<longleftrightarrow> device_clash q r"
  "strong_clash (refreshed new q) (refreshed new' r) \<longleftrightarrow> strong_clash q r"
  "device_clash (refreshed new q) r \<longleftrightarrow> device_clash q r"
  "strong_clash (refreshed new q) r \<longleftrightarrow> strong_clash q r"
  "device_clash q (refreshed new r) \<longleftrightarrow> device_clash q r"
  "strong_clash q (refreshed new r) \<longleftrightarrow> strong_clash q r"
  by (simp_all add: device_clash_def strong_clash_def same_identity_def)

lemma refreshed_ok:
  assumes "identifier_ok q" and "identifier_ok new" and "device_clash new q"
  shows "identifier_ok (refreshed new q)"
proof -
  from assms obtain k l where k: "ir_kind q = kind_as_str k" "ir_strength q = strength_as_str (kind_strength k)"
    and l: "ir_kind new = kind_as_str l" "normalize l (ir_value new) = Inr (ir_normalized_value new)"
      "identity_namespace l (ir_source new) = Inr (ir_identity_namespace new)"
    by (auto simp: identifier_ok_def)
  moreover have "k = l" using assms(3) k(1) l(1) by (simp add: device_clash_def same_identity_def kind_as_str_inj)
  ultimately show ?thesis
    using assms(3) unfolding identifier_ok_def
    by (intro exI [of _ k]) (simp add: device_clash_def same_identity_def)
qed

lemma refreshed_kept: "kept db (db\<lparr>iv_identifiers := upd_where p (refreshed new) (iv_identifiers db)\<rparr>)"
proof -
  have "\<forall>q \<in> set rows. \<exists>q' \<in> set (upd_where p (refreshed new) rows). same_owner q q'" for rows
    by (induction rows) (auto simp: upd_where_def same_owner_def same_identity_def)
  then show ?thesis by (auto simp: kept_def same_fact_def)
qed

definition identifier_hit :: "identifier_row \<Rightarrow> identifier_row \<Rightarrow> bool" where
  "identifier_hit new q \<longleftrightarrow> device_clash new q
     \<and> ir_organization_id q = ir_organization_id new \<and> ir_site_id q = ir_site_id new"

lemma upsert_identifier_cases:
  assumes "upsert_identifier env org site dev t i db = Inr db'"
  obtains (refresh) n ns new where "new = identifier_row_of env org site dev i t n ns"
      and "normalized_identifier i = Inr n" and "identity_namespace (ni_kind i) (ni_source i) = Inr ns"
      and "\<exists>q \<in> set (iv_identifiers db). identifier_hit new q"
      and "db' = db\<lparr>iv_identifiers := upd_where (identifier_hit new) (refreshed new) (iv_identifiers db)\<rparr>"
  | (insert) n ns new where "new = identifier_row_of env org site dev i t n ns"
      and "normalized_identifier i = Inr n" and "identity_namespace (ni_kind i) (ni_source i) = Inr ns"
      and "db' = db\<lparr>iv_identifiers := iv_identifiers db @ [new]\<rparr>"
      and "\<forall>q \<in> set (iv_identifiers db). \<not> device_clash new q \<and> \<not> strong_clash new q"
      and "device_exists db org site dev"
proof -
  from assms obtain n ns where n: "normalized_identifier i = Inr n"
    "identity_namespace (ni_kind i) (ni_source i) = Inr ns"
    unfolding upsert_identifier_def bindR_Inr_iff by blast
  define new where "new = identifier_row_of env org site dev i t n ns"
  have keys: "ir_organization_id new = org" "ir_site_id new = site" "ir_device_id new = dev"
    "ir_last_seen_at new = t"
    by (simp_all add: new_def identifier_row_of_def)
  have hit: "(\<lambda>q. device_clash new q \<and> ir_organization_id q = org \<and> ir_site_id q = site) = identifier_hit new"
    by (simp add: identifier_hit_def fun_eq_iff keys)
  have upd: "(\<lambda>q. q\<lparr>ir_value := ir_value new, ir_source := ir_source new,
      ir_confidence := ir_confidence new, ir_last_seen_at :=
        (case t of None \<Rightarrow> ir_last_seen_at q | Some t \<Rightarrow> Some t)\<rparr>) = refreshed new"
    by (simp add: refreshed_def fun_eq_iff keys)
  have step: "(if rows_affected (identifier_hit new) (iv_identifiers db) > 0
      then Inr (db\<lparr>iv_identifiers := upd_where (identifier_hit new) (refreshed new) (iv_identifiers db)\<rparr>)
      else insert_identifier new db) = Inr db'"
    using assms n unfolding upsert_identifier_def n bindR.simps bindR_Inr_iff Let_def
      new_def [symmetric] hit upd by blast
  show ?thesis
  proof (cases "rows_affected (identifier_hit new) (iv_identifiers db) > 0")
    case True
    have "\<exists>q \<in> set (iv_identifiers db). identifier_hit new q"
      using True rows_affected_0_iff [of "identifier_hit new" "iv_identifiers db"] by fastforce
    with True step refresh [OF new_def n] show ?thesis by simp
  next
    case False
    then have "insert_identifier new db = Inr db'" using step by simp
    then have "db' = db\<lparr>iv_identifiers := iv_identifiers db @ [new]\<rparr>"
      "\<forall>q \<in> set (iv_identifiers db). \<not> device_clash new q \<and> \<not> strong_clash new q"
      "device_exists db org site dev"
      by (auto simp: insert_identifier_def list_ex_iff keys split: if_splits)
    then show ?thesis using insert [OF new_def n] by blast
  qed
qed

lemma upsert_identifier_keeps:
  assumes up: "upsert_identifier env org site dev t i db = Inr db'" and base: "base_inv db"
  shows "base_inv db'" and "data_only db db'" and "elsewhere_same dev db db'"
    and "iv_facts db' = iv_facts db"
proof -
  have ids: "identifiers_ok db" and rest: "devices_ok db" "facts_ok db"
    using base by (simp_all add: base_inv_def)
  have "base_inv db' \<and> data_only db db' \<and> elsewhere_same dev db db' \<and> iv_facts db' = iv_facts db"
    using up
  proof (cases rule: upsert_identifier_cases)
    case (refresh n ns new)
    have ok: "identifier_ok new" unfolding refresh(1) by (rule new_row_ok) (fact refresh(2,3))+
    have dev: "ir_device_id new = dev" by (simp add: refresh(1) identifier_row_of_def)
    have db': "data_only db db'" "iv_facts db' = iv_facts db"
      "iv_identifiers db' = upd_where (identifier_hit new) (refreshed new) (iv_identifiers db)"
      by (simp_all add: refresh(5) data_only_def refreshed_kept)
    have "sorted_wrt (\<lambda>q r. \<not> device_clash r q \<and> \<not> strong_clash r q) (iv_identifiers db')"
      unfolding db'(3) by (rule sorted_wrt_upd_where)
        (use ids in \<open>simp_all add: identifiers_ok_def refreshed_clash\<close>)
    moreover have "identifier_ok q \<and> device_exists db' (ir_organization_id q) (ir_site_id q) (ir_device_id q)"
      if "q \<in> set (iv_identifiers db')" for q
      using that ids ok db'(1) by (auto simp: db'(3) table_simps identifiers_ok_def identifier_hit_def
          data_only_def device_exists_def intro!: refreshed_ok)
    ultimately have "identifiers_ok db'" by (simp add: identifiers_ok_def)
    moreover have "devices_ok db'" "facts_ok db'"
      using rest db' by (auto simp: devices_ok_def facts_ok_def data_only_def device_exists_def)
    moreover have "elsewhere_same dev db db'"
      using db' dev by (auto simp: elsewhere_same_def data_only_def identifier_hit_def device_clash_def
          intro!: filter_upd_where_none)
    ultimately show ?thesis using db' by (simp add: base_inv_def)
  next
    case (insert n ns new)
    have ok: "identifier_ok new" unfolding insert(1) by (rule new_row_ok) (fact insert(2,3))+
    have keys: "ir_device_id new = dev" "ir_organization_id new = org" "ir_site_id new = site"
      by (simp_all add: insert(1) identifier_row_of_def)
    have db': "data_only db db'" "iv_facts db' = iv_facts db"
      "iv_identifiers db' = iv_identifiers db @ [new]"
      by (auto simp: insert(4) data_only_def intro!: kept_subset)
    have "identifiers_ok db'"
      using ids ok insert(5,6) db' by (auto simp: identifiers_ok_def sorted_wrt_append keys
          data_only_def device_exists_def)
    moreover have "devices_ok db'" "facts_ok db'"
      using rest db' by (auto simp: devices_ok_def facts_ok_def data_only_def device_exists_def)
    moreover have "elsewhere_same dev db db'"
      using db' keys by (auto simp: elsewhere_same_def data_only_def)
    ultimately show ?thesis using db' by (simp add: base_inv_def)
  qed
  then show "base_inv db'" "data_only db db'" "elsewhere_same dev db db'" "iv_facts db' = iv_facts db"
    by blast+
qed

text \<open>What an update of a fact writes.\<close>

definition rewritten :: "fact_row \<Rightarrow> fact_row \<Rightarrow> fact_row" where
  "rewritten f q = q\<lparr>fa_value := fa_value f, fa_confidence := fa_confidence f,
     fa_observed_at := (if fa_provenance f = ''observed'' then fa_observed_at f else fa_observed_at q),
     fa_updated_at := fa_updated_at f\<rparr>"

lemma rewritten_keys [simp]:
  "fa_device_id (rewritten f q) = fa_device_id q" "fa_field_name (rewritten f q) = fa_field_name q"
  "fa_provenance (rewritten f q) = fa_provenance q" "fa_source (rewritten f q) = fa_source q"
  "fa_organization_id (rewritten f q) = fa_organization_id q" "fa_site_id (rewritten f q) = fa_site_id q"
  by (simp_all add: rewritten_def)

lemma rewritten_same_fact [simp]:
  "same_fact (rewritten f q) r = same_fact q r" "same_fact q (rewritten f r) = same_fact q r"
  by (simp_all add: same_fact_def)

lemma rewritten_kept: "kept db (db\<lparr>iv_facts := upd_where p (rewritten f) (iv_facts db)\<rparr>)"
proof -
  have "\<forall>q \<in> set rows. \<exists>q' \<in> set (upd_where p (rewritten f) rows). same_fact q q'" for rows
    by (induction rows) (auto simp: upd_where_def same_fact_def)
  then show ?thesis by (auto simp: kept_def intro: same_owner_refl)
qed

lemma upsert_fact_cases:
  assumes "upsert_fact f db = Inr db'"
  obtains (rewrite) "db' = db\<lparr>iv_facts := upd_where (same_fact f) (rewritten f) (iv_facts db)\<rparr>"
      and "\<exists>q \<in> set (iv_facts db). same_fact f q"
      and "device_exists db (fa_organization_id f) (fa_site_id f) (fa_device_id f)"
  | (insert) "db' = db\<lparr>iv_facts := iv_facts db @ [f]\<rparr>"
      and "\<forall>q \<in> set (iv_facts db). \<not> same_fact f q"
      and "device_exists db (fa_organization_id f) (fa_site_id f) (fa_device_id f)"
proof -
  from assms have ex: "device_exists db (fa_organization_id f) (fa_site_id f) (fa_device_id f)"
    by (simp add: upsert_fact_def split: if_splits)
  with assms obtain rows q where up: "upsert InvDatabase (same_fact f) (\<lambda>_. False) f (rewritten f) (iv_facts db)
      = Inr (rows, q)" and db': "db' = db\<lparr>iv_facts := rows\<rparr>"
    by (auto simp: upsert_fact_def rewritten_def [abs_def] bindR_Inr_iff)
  from up show ?thesis
    by (cases rule: upsert_cases) (use ex db' in \<open>auto intro: rewrite insert\<close>)
qed

lemma upsert_fact_keeps:
  assumes up: "upsert_fact f db = Inr db'" and base: "base_inv db"
  shows "base_inv db'" and "data_only db db'" and "elsewhere_same (fa_device_id f) db db'"
    and "iv_identifiers db' = iv_identifiers db"
proof -
  have facts: "facts_ok db" and rest: "devices_ok db" "identifiers_ok db"
    using base by (simp_all add: base_inv_def)
  have "base_inv db' \<and> data_only db db' \<and> elsewhere_same (fa_device_id f) db db'
      \<and> iv_identifiers db' = iv_identifiers db"
    using up
  proof (cases rule: upsert_fact_cases)
    case rewrite
    have db': "data_only db db'" "iv_identifiers db' = iv_identifiers db"
      "iv_facts db' = upd_where (same_fact f) (rewritten f) (iv_facts db)"
      by (simp_all add: rewrite(1) data_only_def rewritten_kept)
    have "sorted_wrt (\<lambda>q f. \<not> same_fact f q) (iv_facts db')"
      unfolding db'(3) by (rule sorted_wrt_upd_where) (use facts in \<open>simp_all add: facts_ok_def\<close>)
    then have "facts_ok db'"
      using facts db'(1) by (auto simp: facts_ok_def db'(3) table_simps data_only_def device_exists_def)
    moreover have "devices_ok db'" "identifiers_ok db'"
      using rest db' by (auto simp: devices_ok_def identifiers_ok_def data_only_def device_exists_def)
    moreover have "elsewhere_same (fa_device_id f) db db'"
      using db' by (auto simp: elsewhere_same_def data_only_def same_fact_def intro!: filter_upd_where_none)
    ultimately show ?thesis using db' by (simp add: base_inv_def)
  next
    case insert
    have db': "data_only db db'" "iv_identifiers db' = iv_identifiers db" "iv_facts db' = iv_facts db @ [f]"
      by (auto simp: insert(1) data_only_def intro!: kept_subset)
    have "facts_ok db'"
      using facts insert(2,3) db' by (auto simp: facts_ok_def sorted_wrt_append data_only_def device_exists_def)
    moreover have "devices_ok db'" "identifiers_ok db'"
      using rest db' by (auto simp: devices_ok_def identifiers_ok_def data_only_def device_exists_def)
    moreover have "elsewhere_same (fa_device_id f) db db'"
      using db' by (auto simp: elsewhere_same_def data_only_def)
    ultimately show ?thesis using db' by (simp add: base_inv_def)
  qed
  then show "base_inv db'" "data_only db db'" "elsewhere_same (fa_device_id f) db db'"
    "iv_identifiers db' = iv_identifiers db"
    by blast+
qed

text \<open>The loops over identifiers and facts.\<close>


lemma fold_base:
  assumes "foldR step xs db = Inr db'" and "base_inv db"
    and "\<And>x a b. x \<in> set xs \<Longrightarrow> step x a = Inr b \<Longrightarrow> base_inv a
      \<Longrightarrow> base_inv b \<and> data_only a b \<and> elsewhere_same dev a b"
  shows "base_inv db' \<and> data_only db db' \<and> elsewhere_same dev db db'"
proof (rule foldR_invariant [OF assms(1), where P = "\<lambda>t. base_inv t \<and> data_only db t \<and> elsewhere_same dev db t"])
  show "base_inv db \<and> data_only db db \<and> elsewhere_same dev db db"
    using assms(2) by (simp add: data_only_refl elsewhere_refl)
qed (use assms(3) data_only_trans elsewhere_trans in blast)

lemma identifiers_keep:
  assumes "foldR (upsert_identifier env org site dev t) is db = Inr db'" and "base_inv db"
  shows "base_inv db' \<and> data_only db db' \<and> elsewhere_same dev db db'"
  by (rule fold_base [OF assms]) (blast intro: upsert_identifier_keeps)

lemma declared_keeps:
  assumes "upsert_declared_fact now org site dev fv db = Inr db'" and "base_inv db"
  shows "base_inv db' \<and> data_only db db' \<and> elsewhere_same dev db db'"
  using upsert_fact_keeps(1-3) [OF assms [unfolded upsert_declared_fact_def]] by simp

lemma observed_keeps:
  assumes "upsert_observed_fact now org site dev t fv db = Inr db'" and "base_inv db"
  shows "base_inv db' \<and> data_only db db' \<and> elsewhere_same dev db db'"
  using upsert_fact_keeps(1-3) [OF assms [unfolded upsert_observed_fact_def]] by simp

lemma facts_keep:
  assumes "foldR (upsert_declared_fact now org site dev) fvs db = Inr db'
    \<or> foldR (upsert_observed_fact now org site dev t) fvs db = Inr db'" and "base_inv db"
  shows "base_inv db' \<and> data_only db db' \<and> elsewhere_same dev db db'"
  using assms(1)
proof
  assume f: "foldR (upsert_declared_fact now org site dev) fvs db = Inr db'"
  show ?thesis by (rule fold_base [OF f assms(2)]) (rule declared_keeps)
next
  assume f: "foldR (upsert_observed_fact now org site dev t) fvs db = Inr db'"
  show ?thesis by (rule fold_base [OF f assms(2)]) (rule observed_keeps)
qed

section \<open>The operations\<close>

lemma row_to_device_Inr:
  assumes "row_to_device r = Inr v"
  shows "lifecycle_as_str (vw_lifecycle v) = dv_lifecycle_state r"
    and "device_type_as_str (vw_device_type v) = dv_device_type r"
    and "vw_id v = dv_id r" and "vw_version v = dv_version r"
    and "vw_organization_id v = dv_organization_id r" and "vw_site_id v = dv_site_id r"
  using assms lifecycle_codec.parse_sound device_type_codec.parse_sound
  by (auto simp: row_to_device_def bindR_Inr_iff map_err_Inr_iff)

lemma loaded_Inr:
  assumes "loaded db org site dev = Inr v"
  obtains r where "r \<in> set (iv_devices db)" and "in_scope org site dev r" and "row_to_device r = Inr v"
proof -
  from assms have "load_device db org site dev = Inr (Some v)"
    by (simp add: loaded_def bindR_Inr_iff ok_or_Inr_iff)
  then obtain r where "List.find (in_scope org site dev) (iv_devices db) = Some r" "row_to_device r = Inr v"
    by (auto simp: load_device_def bindR_Inr_iff split: option.splits)
  then show ?thesis using that find_Some_set by fastforce
qed

lemma loaded_id: "loaded db org site dev = Inr v \<Longrightarrow> vw_id v = dev"
  by (erule loaded_Inr) (simp add: row_to_device_Inr in_scope_def)

lemma append_lifecycle_event_effect:
  assumes "append_lifecycle_event now c dev from_state to reason db = Inr db'"
  obtains e where "db' = db\<lparr>iv_lifecycle_events := iv_lifecycle_events db @ [e]\<rparr>"
    and "le_device_id e = dev" and "le_from_state e = map_option lifecycle_as_str from_state"
    and "le_to_state e = lifecycle_as_str to" and "le_reason e = reason"
  using assms by (auto simp: append_lifecycle_event_def split: if_splits)

lemma append_lifecycle_event_keeps:
  assumes "append_lifecycle_event now c dev from_state to reason db = Inr db'"
  shows "base_inv db \<Longrightarrow> base_inv db'" and "elsewhere_same dev db db'"
proof -
  from assms obtain e where e: "db' = db\<lparr>iv_lifecycle_events := iv_lifecycle_events db @ [e]\<rparr>"
    "le_device_id e = dev" by (rule append_lifecycle_event_effect)
  then have "device_exists db' = device_exists db" by (simp add: device_exists_def fun_eq_iff)
  with e show "base_inv db \<Longrightarrow> base_inv db'" "elsewhere_same dev db db'"
    by (simp_all add: base_inv_def devices_ok_def identifiers_ok_def facts_ok_def elsewhere_same_def)
qed

text \<open>The records of a mutation: one audit event and one outbox event.\<close>

definition recorded ::
  "inventory_env \<Rightarrow> tick \<Rightarrow> mutation_context \<Rightarrow> string \<Rightarrow> string \<Rightarrow> device_view \<Rightarrow> json option
     \<Rightarrow> inventory_db \<Rightarrow> inventory_db \<Rightarrow> bool" where
  "recorded env tk c action event_type v before db db' \<longleftrightarrow>
     audit_append (ie_audit_ops env) (tk_audit_id tk) (mutation_draft env (tk_utc_ms tk) c action v before
       (Some (view_json env v))) (iv_audit db) = Inr (iv_audit db', tk_audit_id tk)
     \<and> outbox_enqueue (tk_now tk) (mutation_event env (tk_outbox_id tk) c event_type v
         (Some (view_json env v))) (iv_outbox db) = Inr (iv_outbox db')"

lemma audit_append_id: "audit_append ops i d db = Inr (db', j) \<Longrightarrow> j = i"
  by (auto simp: audit_append_def result_simps)

lemma write_mutation_records_effect:
  assumes "write_mutation_records env tk c action event_type v before (Some (view_json env v)) db = Inr db'"
  shows "recorded env tk c action event_type v before db db'"
    and "\<exists>a b. db' = db\<lparr>iv_audit := a, iv_outbox := b\<rparr>"
  using assms audit_append_id
  by (auto simp: write_mutation_records_def recorded_def bindR_Inr_iff map_err_Inr_iff)

lemma records_keep:
  assumes "db' = db\<lparr>iv_audit := a, iv_outbox := b\<rparr>"
  shows "base_inv db \<Longrightarrow> base_inv db'" and "elsewhere_same dev db db'"
    and "loaded db' org site d = loaded db org site d"
proof -
  have "device_exists db' = device_exists db" by (simp add: assms device_exists_def fun_eq_iff)
  then show "base_inv db \<Longrightarrow> base_inv db'" "elsewhere_same dev db db'"
    "loaded db' org site d = loaded db org site d"
    by (simp_all add: assms base_inv_def devices_ok_def identifiers_ok_def facts_ok_def
        elsewhere_same_def loaded_def load_device_def)
qed

text \<open>What happens to the devices and to the log: a row is created with its first entry, edited
  without one, or moved to another state with one.\<close>

inductive device_change :: "uuid \<Rightarrow> inventory_db \<Rightarrow> inventory_db \<Rightarrow> bool" for dev db db' where
  created: "iv_devices db' = iv_devices db @ [r] \<Longrightarrow> dv_id r = dev
     \<Longrightarrow> dev \<notin> dv_id ` set (iv_devices db) \<Longrightarrow> dv_version r = 1
     \<Longrightarrow> iv_lifecycle_events db' = iv_lifecycle_events db @ [e] \<Longrightarrow> le_device_id e = dev
     \<Longrightarrow> log_entry_legal None e \<Longrightarrow> le_to_state e = dv_lifecycle_state r
     \<Longrightarrow> device_change dev db db'"
| edited: "iv_devices db' = upd_where hit (bumped now f) (iv_devices db) \<Longrightarrow> keeps_scope f
     \<Longrightarrow> (\<And>r. hit r \<Longrightarrow> dv_id r = dev)
     \<Longrightarrow> (\<And>r. r \<in> set (iv_devices db) \<Longrightarrow> hit r \<Longrightarrow> dv_lifecycle_state (f r) = dv_lifecycle_state r)
     \<Longrightarrow> iv_lifecycle_events db' = iv_lifecycle_events db
     \<Longrightarrow> \<exists>r \<in> set (iv_devices db). hit r
     \<Longrightarrow> device_change dev db db'"
| moved: "iv_devices db' = upd_where hit (bumped now f) (iv_devices db) \<Longrightarrow> keeps_scope f
     \<Longrightarrow> (\<And>r. hit r \<Longrightarrow> dv_id r = dev)
     \<Longrightarrow> iv_lifecycle_events db' = iv_lifecycle_events db @ [e] \<Longrightarrow> le_device_id e = dev
     \<Longrightarrow> (\<And>r. r \<in> set (iv_devices db) \<Longrightarrow> hit r \<Longrightarrow>
           log_entry_legal (Some (dv_lifecycle_state r)) e \<and> dv_lifecycle_state (f r) = le_to_state e)
     \<Longrightarrow> \<exists>r \<in> set (iv_devices db). hit r
     \<Longrightarrow> device_change dev db db'"

text \<open>The outcome of a committed mutation.\<close>

definition mutation ::
  "inventory_env \<Rightarrow> tick \<Rightarrow> mutation_context \<Rightarrow> uuid \<Rightarrow> string \<Rightarrow> string \<Rightarrow> json option \<Rightarrow> device_view
     \<Rightarrow> inventory_db \<Rightarrow> inventory_db \<Rightarrow> bool" where
  "mutation env tk c dev action event_type before v db db' \<longleftrightarrow> base_inv db'
     \<and> elsewhere_same dev db db' \<and> device_change dev db db' \<and> kept db db'
     \<and> recorded env tk c action event_type v before db db'
     \<and> loaded db' (mx_organization_id c) (mx_site_id c) dev = Inr v"

lemma mutationI:
  assumes "write_mutation_records env tk c action event_type v before (Some (view_json env v)) db1 = Inr db'"
    and "loaded db1 (mx_organization_id c) (mx_site_id c) dev = Inr v"
    and "base_inv db1" and "elsewhere_same dev db db1" and "device_change dev db db1"
    and "iv_audit db1 = iv_audit db" "iv_outbox db1 = iv_outbox db" "kept db db1"
  shows "mutation env tk c dev action event_type before v db db'"
proof -
  obtain a b where db': "db' = db1\<lparr>iv_audit := a, iv_outbox := b\<rparr>"
    using write_mutation_records_effect(2) [OF assms(1)] by blast
  have "recorded env tk c action event_type v before db1 db'"
    by (rule write_mutation_records_effect(1) [OF assms(1)])
  then have "recorded env tk c action event_type v before db db'"
    by (simp add: recorded_def assms(6,7))
  moreover have "device_change dev db db'"
    using assms(5) by (auto simp: db' intro: device_change.intros elim!: device_change.cases)
  moreover have "kept db db'" using assms(8) by (simp add: db' kept_def)
  ultimately show ?thesis
    using assms(2,3) elsewhere_trans [OF assms(4) records_keep(2) [OF db']] records_keep(1) [OF db']
    by (simp add: mutation_def records_keep(3) [OF db'])
qed

subsection \<open>Creation\<close>

lemma manual_row_ok: "device_row_ok (manual_row tk c d (if approval then PendingReview else Managed))"
  by (cases approval) (auto simp: device_row_ok_def manual_row_def i64_max_def image_iff
      intro: exI [of _ Managed] exI [of _ PendingReview])

lemma observed_row_ok: "device_row_ok (observed_row tk c x t)"
  by (auto simp: device_row_ok_def observed_row_def i64_max_def image_iff intro: exI [of _ Discovered])

lemma create_manual_steps:
  assumes "create_manual env tk c d approval db = Inr (db', v)"
  obtains db1 db2 db3 db4 where "context_validate c = Inr ()" and "new_device_validate d = Inr ()"
    and "insert_device (manual_row tk c d (if approval then PendingReview else Managed)) db = Inr db1"
    and "foldR (upsert_identifier env (mx_organization_id c) (mx_site_id c) (tk_device_id tk) None)
           (nd_identifiers d) db1 = Inr db2"
    and "persist_declared_facts (tk_now tk) (mx_organization_id c) (mx_site_id c) (tk_device_id tk) d db2
           = Inr db3"
    and "append_lifecycle_event (tk_now tk) c (tk_device_id tk) None
           (if approval then PendingReview else Managed) (Some ''manual_create'') db3 = Inr db4"
    and "loaded db4 (mx_organization_id c) (mx_site_id c) (tk_device_id tk) = Inr v"
    and "write_mutation_records env tk c ''inventory.device.create'' ''inventory.device.created'' v None
           (Some (view_json env v)) db4 = Inr db'"
  using assms unfolding create_manual_def Let_def bindR_Inr_iff ex_unit_iff sum.inject prod.inject by blast

text \<open>A created row, its identifiers and facts, and its first log entry.\<close>

lemma created_change:
  assumes ins: "insert_device r db = Inr db1" and data: "data_only db1 db3" and r: "dv_id r = dev"
    "dv_version r = 1" "dv_lifecycle_state r = lifecycle_as_str l" "l \<in> {Discovered, PendingReview, Managed}"
    and ev: "append_lifecycle_event now c dev None l reason db3 = Inr db4"
  shows "device_change dev db db4" and "iv_audit db4 = iv_audit db" "iv_outbox db4 = iv_outbox db"
    and "kept db db4"
proof -
  note i = insert_device_effect [OF ins]
  obtain e where e: "db4 = db3\<lparr>iv_lifecycle_events := iv_lifecycle_events db3 @ [e]\<rparr>"
    "le_device_id e = dev" "le_from_state e = map_option lifecycle_as_str None"
    "le_to_state e = lifecycle_as_str l"
    using append_lifecycle_event_effect [OF ev] by metis
  have "log_entry_legal None e" using e(3,4) r(4) by (auto simp: log_entry_legal_def)
  then show "device_change dev db db4"
    using e data i r by (intro device_change.created [of _ _ r _ e]) (simp_all add: data_only_def)
  show "iv_audit db4 = iv_audit db" "iv_outbox db4 = iv_outbox db"
    using e data i by (simp_all add: data_only_def)
  show "kept db db4" using data i e by (simp add: data_only_def kept_def)
qed

lemma create_manual_mutation:
  assumes "create_manual env tk c d approval db = Inr (db', v)" and base: "base_inv db"
  shows "mutation env tk c (tk_device_id tk) ''inventory.device.create'' ''inventory.device.created'' None v db db'"
  using assms(1)
proof (rule create_manual_steps)
  let ?l = "if approval then PendingReview else Managed"
  let ?r = "manual_row tk c d ?l" and ?dev = "tk_device_id tk"
  fix db1 db2 db3 db4
  assume s: "insert_device ?r db = Inr db1"
    "foldR (upsert_identifier env (mx_organization_id c) (mx_site_id c) ?dev None) (nd_identifiers d) db1 = Inr db2"
    "persist_declared_facts (tk_now tk) (mx_organization_id c) (mx_site_id c) ?dev d db2 = Inr db3"
    "append_lifecycle_event (tk_now tk) c ?dev None ?l (Some ''manual_create'') db3 = Inr db4"
    "loaded db4 (mx_organization_id c) (mx_site_id c) ?dev = Inr v"
    "write_mutation_records env tk c ''inventory.device.create'' ''inventory.device.created'' v None
       (Some (view_json env v)) db4 = Inr db'"
  have r: "dv_id ?r = ?dev" "dv_version ?r = 1" "dv_lifecycle_state ?r = lifecycle_as_str ?l"
    by (simp_all add: manual_row_def)
  have b1: "base_inv db1" by (rule insert_device_base [OF s(1) base manual_row_ok])
  note k2 = identifiers_keep [OF s(2) b1]
  have k3: "base_inv db3 \<and> data_only db2 db3 \<and> elsewhere_same ?dev db2 db3"
    by (rule facts_keep [OF disjI1 [OF s(3) [unfolded persist_declared_facts_def]]]) (use k2 in blast)
  have data: "data_only db1 db3" using k2 k3 data_only_trans by blast
  note change = created_change [OF s(1) data r _ s(4)]
  have "elsewhere_same ?dev db db4"
    using insert_device_elsewhere [OF s(1)] k2 k3 append_lifecycle_event_keeps(2) [OF s(4)] r(1)
      elsewhere_trans by metis
  moreover have "base_inv db4" using append_lifecycle_event_keeps(1) [OF s(4)] k3 by blast
  ultimately show ?thesis
    using change by (intro mutationI [OF s(6,5)]) (auto split: if_splits)
qed

subsection \<open>Updates\<close>

lemma patch_row_keeps: "keeps_scope (patch_row p v)"
  by (simp add: keeps_scope_def patch_row_def)

lemma patch_row_state: "dv_lifecycle_state (patch_row p v r) = dv_lifecycle_state r"
  by (simp add: patch_row_def)

lemma patch_row_ok:
  assumes "device_row_ok r" and "dv_version r \<noteq> i64_max"
  shows "device_row_ok (bumped now (patch_row p v) r)"
  using assms device_row_ok_version [OF assms] by (simp add: device_row_ok_def bumped_def patch_row_def)

lemma update_metadata_steps:
  assumes "update_metadata env tk c dev expected p db = Inr (db', v)"
  obtains db1 db2 current where "context_validate c = Inr ()" and "patch_validate p = Inr ()"
    and "loaded db (mx_organization_id c) (mx_site_id c) dev = Inr current"
    and "vw_version current = expected" and "allows_normal_mutation (vw_lifecycle current)"
    and "update_devices (tk_now tk) (in_scope (mx_organization_id c) (mx_site_id c) dev)
           (patch_row p current) db = Inr db1"
    and "persist_patch_facts (tk_now tk) (mx_organization_id c) (mx_site_id c) dev p db1 = Inr db2"
    and "loaded db2 (mx_organization_id c) (mx_site_id c) dev = Inr v"
    and "write_mutation_records env tk c ''inventory.device.update'' ''inventory.device.updated'' v
           (Some (view_json env current)) (Some (view_json env v)) db2 = Inr db'"
proof -
  from assms obtain current where 1: "context_validate c = Inr ()" "patch_validate p = Inr ()"
    "loaded db (mx_organization_id c) (mx_site_id c) dev = Inr current"
    unfolding update_metadata_def Let_def bindR_Inr_iff ex_unit_iff by blast
  have 2: "vw_version current = expected" "allows_normal_mutation (vw_lifecycle current)"
    using assms by (auto simp: update_metadata_def Let_def 1 split: if_splits)
  from assms show ?thesis
    unfolding update_metadata_def Let_def 1 bindR.simps 2(1) bindR_Inr_iff
    using 1 2 that by (auto simp: bindR_Inr_iff)
qed

lemma loaded_hit:
  assumes "loaded db org site dev = Inr v" and "base_inv db" and "r \<in> set (iv_devices db)"
    and "in_scope org site dev r"
  shows "row_to_device r = Inr v"
proof -
  from assms(1) obtain q where q: "q \<in> set (iv_devices db)" "in_scope org site dev q" "row_to_device q = Inr v"
    by (rule loaded_Inr)
  have "distinct (map dv_id (iv_devices db))" using assms(2) by (simp add: base_inv_def devices_ok_def)
  then have "r = q"
    using assms(3,4) q by (auto simp: in_scope_def dest: distinct_key_unique)
  with q show ?thesis by simp
qed

lemma data_only_records: "data_only a b \<Longrightarrow> iv_audit b = iv_audit a \<and> iv_outbox b = iv_outbox a"
  by (simp add: data_only_def)

lemma edited_change:
  assumes up: "update_devices now hit f db1 = Inr db2" and f: "keeps_scope f" "\<And>r. hit r \<Longrightarrow> dv_id r = dev"
    "\<And>r. dv_lifecycle_state (f r) = dv_lifecycle_state r"
    and data: "data_only db db1" "data_only db2 db3" and hit: "\<exists>r \<in> set (iv_devices db). hit r"
  shows "device_change dev db db3" "iv_audit db3 = iv_audit db" "iv_outbox db3 = iv_outbox db"
    and "kept db db3"
proof -
  note u = update_devices_effect(1) [OF up]
  show "device_change dev db db3" "iv_audit db3 = iv_audit db" "iv_outbox db3 = iv_outbox db"
    using data hit f u by (auto simp: data_only_def intro!: device_change.edited)
  have "kept db db1" "kept db1 db2" "kept db2 db3"
    using data u by (simp_all add: data_only_def kept_subset)
  then show "kept db db3" using kept_trans by blast
qed

lemma update_metadata_mutation:
  assumes "update_metadata env tk c dev expected p db = Inr (db', v)" and base: "base_inv db"
  shows "\<exists>current. loaded db (mx_organization_id c) (mx_site_id c) dev = Inr current
    \<and> vw_version current = expected \<and> allows_normal_mutation (vw_lifecycle current)
    \<and> mutation env tk c dev ''inventory.device.update'' ''inventory.device.updated''
        (Some (view_json env current)) v db db'"
  using assms(1)
proof (rule update_metadata_steps)
  let ?hit = "in_scope (mx_organization_id c) (mx_site_id c) dev"
  fix db1 db2 current
  assume s: "loaded db (mx_organization_id c) (mx_site_id c) dev = Inr current"
    "vw_version current = expected" "allows_normal_mutation (vw_lifecycle current)"
    "update_devices (tk_now tk) ?hit (patch_row p current) db = Inr db1"
    "persist_patch_facts (tk_now tk) (mx_organization_id c) (mx_site_id c) dev p db1 = Inr db2"
    "loaded db2 (mx_organization_id c) (mx_site_id c) dev = Inr v"
    "write_mutation_records env tk c ''inventory.device.update'' ''inventory.device.updated'' v
       (Some (view_json env current)) (Some (view_json env v)) db2 = Inr db'"
  have hit: "\<exists>r \<in> set (iv_devices db). ?hit r" using s(1) by (rule loaded_Inr) blast
  have b1: "base_inv db1"
    by (rule update_devices_base [OF s(4) base patch_row_keeps])
      (use update_devices_effect(2) [OF s(4)] patch_row_ok in blast)
  have k2: "base_inv db2 \<and> data_only db1 db2 \<and> elsewhere_same dev db1 db2"
    by (rule facts_keep [OF disjI1 [OF s(5) [unfolded persist_patch_facts_def]] b1])
  have "elsewhere_same dev db db1"
    by (rule update_devices_elsewhere [OF s(4) patch_row_keeps]) (simp add: in_scope_def)
  then have else2: "elsewhere_same dev db db2" using k2 elsewhere_trans by blast
  have d: "data_only db1 db2" using k2 by blast
  have id: "?hit r \<Longrightarrow> dv_id r = dev" for r by (simp add: in_scope_def)
  note change = edited_change [OF s(4) patch_row_keeps id patch_row_state data_only_refl d hit]
  have "mutation env tk c dev ''inventory.device.update'' ''inventory.device.updated''
      (Some (view_json env current)) v db db'"
    using k2 change by (intro mutationI [OF s(7,6) _ else2]) auto
  with s(1-3) show ?thesis by blast
qed

subsection \<open>Lifecycle transitions\<close>

lemma lifecycle_row_keeps: "keeps_scope (lifecycle_row now l reason)"
  by (simp add: keeps_scope_def lifecycle_row_def Let_def)

lemma lifecycle_row_ok:
  assumes r: "device_row_ok r" "dv_version r \<noteq> i64_max" "dv_lifecycle_state r = lifecycle_as_str l"
    and l: "can_transition_to l next" "l \<noteq> next" "next = Retired \<longrightarrow> reason \<noteq> None"
  shows "device_row_ok (bumped now (lifecycle_row now next reason) r)"
proof -
  let ?r = "bumped now (lifecycle_row now next reason) r"
  have st: "dv_lifecycle_state ?r = lifecycle_as_str next" "dv_device_type ?r = dv_device_type r"
    "dv_version ?r = dv_version r + 1"
    by (simp_all add: bumped_def lifecycle_row_def Let_def)
  have onb: "lifecycle_as_str next = ''managed'' \<longrightarrow> dv_onboarded_at ?r \<noteq> None"
    by (simp add: bumped_def lifecycle_row_def Let_def)
  have ret: "lifecycle_as_str next = ''retired'' \<longrightarrow> dv_retired_at ?r \<noteq> None \<and> dv_retirement_reason ?r \<noteq> None"
    using l(3) by (cases "next") (simp_all add: bumped_def lifecycle_row_def Let_def)
  have "dv_retired_at r \<noteq> None \<longrightarrow> l = Retired \<or> l = Archived"
    using r(1,3) by (cases l) (auto simp: device_row_ok_def)
  then have "dv_retired_at ?r \<noteq> None \<longrightarrow> lifecycle_as_str next \<in> {''retired'', ''archived''}"
    using l(1,2) r(3) by (cases "next") (auto simp: bumped_def lifecycle_row_def Let_def can_transition_to_def)
  with onb ret show ?thesis
    using r(1) device_row_ok_version [OF r(1,2)] by (simp add: device_row_ok_def st)
qed

lemma transition_lifecycle_steps:
  assumes "transition_lifecycle env tk c dev expected next reason db = Inr (db', v)"
  obtains (same) "context_validate c = Inr ()"
      and "loaded db (mx_organization_id c) (mx_site_id c) dev = Inr v"
      and "vw_version v = expected" and "vw_lifecycle v = next" and "db' = db"
  | (move) db1 db2 current where "context_validate c = Inr ()"
      and "loaded db (mx_organization_id c) (mx_site_id c) dev = Inr current"
      and "vw_version current = expected" and "vw_lifecycle current \<noteq> next"
      and "can_transition_to (vw_lifecycle current) next"
      and "next = Retired \<or> next = Archived \<longrightarrow> clean_optional reason \<noteq> None"
      and "update_devices (tk_now tk) (in_scope (mx_organization_id c) (mx_site_id c) dev)
             (lifecycle_row (tk_now tk) next (clean_optional reason)) db = Inr db1"
      and "append_lifecycle_event (tk_now tk) c dev (Some (vw_lifecycle current)) next
             (clean_optional reason) db1 = Inr db2"
      and "loaded db2 (mx_organization_id c) (mx_site_id c) dev = Inr v"
      and "write_mutation_records env tk c ''inventory.device.lifecycle.transition''
             ''inventory.device.lifecycle_changed'' v (Some (view_json env current))
             (Some (view_json env v)) db2 = Inr db'"
proof -
  from assms obtain current where 1: "context_validate c = Inr ()"
    "loaded db (mx_organization_id c) (mx_site_id c) dev = Inr current"
    unfolding transition_lifecycle_def Let_def bindR_Inr_iff ex_unit_iff by blast
  have 2: "vw_version current = expected"
    using assms by (auto simp: transition_lifecycle_def Let_def 1 split: if_splits)
  show ?thesis
  proof (cases "vw_lifecycle current = next")
    case True
    with assms have "db' = db" "v = current"
      by (auto simp: transition_lifecycle_def Let_def 1 2)
    with 1 2 True show ?thesis by (intro same) simp_all
  next
    case False
    have 3: "can_transition_to (vw_lifecycle current) next"
      "next = Retired \<or> next = Archived \<longrightarrow> clean_optional reason \<noteq> None"
      using assms False by (auto simp: transition_lifecycle_def Let_def 1 2 split: if_splits)
    from assms show ?thesis
      unfolding transition_lifecycle_def Let_def 1 bindR.simps 2
      using 1 2 3 False move by (auto simp: bindR_Inr_iff split: if_splits)
  qed
qed

lemma legal_move:
  assumes "le_from_state e = Some (lifecycle_as_str l)" and "le_to_state e = lifecycle_as_str m"
    and "can_transition_to l m" and "l \<noteq> m"
  shows "log_entry_legal (Some (lifecycle_as_str l)) e"
  using assms by (simp add: log_entry_legal_def lifecycle_codec.parse_as_str)

lemma transition_lifecycle_mutation:
  assumes "transition_lifecycle env tk c dev expected next reason db = Inr (db', v)" and base: "base_inv db"
  shows "\<exists>current. loaded db (mx_organization_id c) (mx_site_id c) dev = Inr current
    \<and> vw_version current = expected
    \<and> (if vw_lifecycle current = next then db' = db \<and> v = current
       else can_transition_to (vw_lifecycle current) next
         \<and> mutation env tk c dev ''inventory.device.lifecycle.transition''
             ''inventory.device.lifecycle_changed'' (Some (view_json env current)) v db db')"
  using assms(1)
proof (cases rule: transition_lifecycle_steps)
  case (move db1 db2 current)
  let ?hit = "in_scope (mx_organization_id c) (mx_site_id c) dev"
    and ?f = "lifecycle_row (tk_now tk) next (clean_optional reason)"
  have st: "row_to_device r = Inr current" "dv_lifecycle_state r = lifecycle_as_str (vw_lifecycle current)"
    if "r \<in> set (iv_devices db)" "?hit r" for r
    using loaded_hit [OF move(2) base that] row_to_device_Inr(1) by metis+
  have l: "vw_lifecycle current \<noteq> next" "next = Retired \<longrightarrow> clean_optional reason \<noteq> None"
    using move(4,6) by blast+
  have b1: "base_inv db1"
    by (rule update_devices_base [OF move(7) base lifecycle_row_keeps])
      (use update_devices_effect(2) [OF move(7)] lifecycle_row_ok [OF _ _ _ move(5) l] st(2) in blast)
  obtain e where e: "db2 = db1\<lparr>iv_lifecycle_events := iv_lifecycle_events db1 @ [e]\<rparr>"
    "le_device_id e = dev" "le_from_state e = map_option lifecycle_as_str (Some (vw_lifecycle current))"
    "le_to_state e = lifecycle_as_str next"
    using append_lifecycle_event_effect [OF move(8)] by metis
  have hit: "\<exists>r \<in> set (iv_devices db). ?hit r" using move(2) by (rule loaded_Inr) blast
  have legal: "log_entry_legal (Some (dv_lifecycle_state r)) e \<and> dv_lifecycle_state (?f r) = le_to_state e"
    if "r \<in> set (iv_devices db)" "?hit r" for r
    using legal_move [OF _ e(4) move(5) l(1)] e(3,4) st(2) [OF that]
    by (simp add: lifecycle_row_def Let_def)
  have id: "?hit r \<Longrightarrow> dv_id r = dev" for r by (simp add: in_scope_def)
  note u = update_devices_effect(1) [OF move(7)]
  have "iv_devices db2 = upd_where ?hit (bumped (tk_now tk) ?f) (iv_devices db)"
    "iv_lifecycle_events db2 = iv_lifecycle_events db @ [e]"
    "iv_audit db2 = iv_audit db" "iv_outbox db2 = iv_outbox db" "kept db db2"
    by (simp_all add: e(1) u kept_subset)
  note db2 = this
  have change: "device_change dev db db2"
    by (rule device_change.moved [OF db2(1) lifecycle_row_keeps id db2(2) e(2) legal hit])
  have "elsewhere_same dev db db1" by (rule update_devices_elsewhere [OF move(7) lifecycle_row_keeps id])
  then have "elsewhere_same dev db db2"
    using append_lifecycle_event_keeps(2) [OF move(8)] elsewhere_trans by blast
  then have "mutation env tk c dev ''inventory.device.lifecycle.transition''
      ''inventory.device.lifecycle_changed'' (Some (view_json env current)) v db db'"
    using mutationI [OF move(10,9) append_lifecycle_event_keeps(1) [OF move(8) b1] _ change db2(3-5)] by blast
  with move(2-5) show ?thesis by auto
qed auto

subsection \<open>Observations\<close>

lemma strong_fold:
  assumes "foldR (\<lambda>i ms. bindR (strong_owner db org site i) (\<lambda>m.
      Inr (case m of None \<Rightarrow> ms | Some dev \<Rightarrow> ms @ [dev]))) is acc = Inr ms"
  shows "set ms = set acc \<union> {dev. \<exists>i \<in> set is. strong_owner db org site i = Inr (Some dev)}"
  using assms
proof (induction "is" arbitrary: acc)
  case (Cons i "is")
  from Cons.prems obtain m where m: "strong_owner db org site i = Inr m"
    by (auto simp: bindR_Inr_iff)
  with Cons show ?case by (cases m) auto
qed simp

lemma strong_matches_spec:
  assumes "strong_matches db org site is = Inr ms"
  shows "set ms = {dev. \<exists>i \<in> set is. kind_strength (ni_kind i) = Strong
      \<and> strong_owner db org site i = Inr (Some dev)}" and "distinct ms" and "sorted ms"
proof -
  from assms obtain ks where ks: "foldR (\<lambda>i ms. bindR (strong_owner db org site i) (\<lambda>m.
      Inr (case m of None \<Rightarrow> ms | Some dev \<Rightarrow> ms @ [dev])))
      (filter (\<lambda>i. kind_strength (ni_kind i) = Strong) is) [] = Inr ks" and ms: "ms = sort (remdups ks)"
    by (auto simp: strong_matches_def bindR_Inr_iff)
  show "set ms = {dev. \<exists>i \<in> set is. kind_strength (ni_kind i) = Strong
      \<and> strong_owner db org site i = Inr (Some dev)}"
    using strong_fold [OF ks] by (auto simp: ms)
  show "distinct ms" "sorted ms" by (simp_all add: ms)
qed

lemma reconcile_steps:
  assumes "reconcile_observation env tk c x db = Inr (db', res)"
  obtains (known) dev v where "context_validate c = Inr ()" and "observation_validate x = Inr ()"
      and "strong_matches db (mx_organization_id c) (mx_site_id c) (dx_identifiers x) = Inr [dev]"
      and "reconcile_known env tk c x (patched (dx_observed_at x) (tk_utc tk)) dev db = Inr (db', v)"
      and "res = Updated v"
  | (fresh) v where "context_validate c = Inr ()" and "observation_validate x = Inr ()"
      and "strong_matches db (mx_organization_id c) (mx_site_id c) (dx_identifiers x) = Inr []"
      and "reconcile_new env tk c x (patched (dx_observed_at x) (tk_utc tk)) db = Inr (db', v)"
      and "res = Created v"
proof -
  from assms obtain ms where 1: "context_validate c = Inr ()" "observation_validate x = Inr ()"
    "strong_matches db (mx_organization_id c) (mx_site_id c) (dx_identifiers x) = Inr ms"
    unfolding reconcile_observation_def bindR_Inr_iff ex_unit_iff by blast
  have 2: "length ms \<le> 1"
    using assms by (auto simp: reconcile_observation_def 1 split: if_splits)
  show ?thesis
  proof (cases ms)
    case Nil
    obtain v where "reconcile_new env tk c x (patched (dx_observed_at x) (tk_utc tk)) db = Inr (db', v)"
      "res = Created v"
      using assms by (auto simp: reconcile_observation_def Let_def 1 Nil bindR_Inr_iff)
    with 1 Nil fresh show ?thesis by simp
  next
    case (Cons dev ks)
    with 2 have ms: "ms = [dev]" by simp
    obtain v where "reconcile_known env tk c x (patched (dx_observed_at x) (tk_utc tk)) dev db = Inr (db', v)"
      "res = Updated v"
      using assms by (auto simp: reconcile_observation_def Let_def 1 ms bindR_Inr_iff)
    with 1 ms known show ?thesis by simp
  qed
qed

lemma observe_row_keeps: "keeps_scope (observe_row db x t)"
  by (simp add: keeps_scope_def observe_row_def Let_def)

lemma observe_row_state: "dv_lifecycle_state (observe_row db x t r) = dv_lifecycle_state r"
  by (simp add: observe_row_def Let_def)

lemma observe_row_ok:
  assumes "device_row_ok r" and "dv_version r \<noteq> i64_max"
  shows "device_row_ok (bumped now (observe_row db x t) r)"
  using assms device_row_ok_version [OF assms] by (simp add: device_row_ok_def bumped_def observe_row_def Let_def)

lemma reconcile_known_steps:
  assumes "reconcile_known env tk c x t dev db = Inr (db', v)"
  obtains db1 db2 db3 current where
    "loaded db (mx_organization_id c) (mx_site_id c) dev = Inr current"
    and "vw_lifecycle current \<noteq> Retired" and "vw_lifecycle current \<noteq> Archived"
    and "foldR (upsert_identifier env (mx_organization_id c) (mx_site_id c) dev (Some t))
           (dx_identifiers x) db = Inr db1"
    and "persist_observed_facts (tk_now tk) (mx_organization_id c) (mx_site_id c) dev t x db1 = Inr db2"
    and "apply_observed_canonical_fields (tk_now tk) dev x t db2 = Inr db3"
    and "loaded db3 (mx_organization_id c) (mx_site_id c) dev = Inr v"
    and "write_mutation_records env tk c ''inventory.device.reconcile'' ''inventory.device.observed'' v
           (Some (view_json env current)) (Some (view_json env v)) db3 = Inr db'"
proof -
  from assms obtain current where 1: "loaded db (mx_organization_id c) (mx_site_id c) dev = Inr current"
    unfolding reconcile_known_def Let_def bindR_Inr_iff by blast
  have 2: "vw_lifecycle current \<noteq> Retired" "vw_lifecycle current \<noteq> Archived"
    using assms by (auto simp: reconcile_known_def Let_def 1)
  from assms show ?thesis
    unfolding reconcile_known_def Let_def 1 bindR.simps using 1 2 that by (auto simp: bindR_Inr_iff)
qed

lemma reconcile_known_mutation:
  assumes "reconcile_known env tk c x t dev db = Inr (db', v)" and base: "base_inv db"
  shows "\<exists>current. loaded db (mx_organization_id c) (mx_site_id c) dev = Inr current
    \<and> vw_lifecycle current \<noteq> Retired \<and> vw_lifecycle current \<noteq> Archived
    \<and> mutation env tk c dev ''inventory.device.reconcile'' ''inventory.device.observed''
        (Some (view_json env current)) v db db'"
  using assms(1)
proof (rule reconcile_known_steps)
  fix db1 db2 db3 current
  assume s: "loaded db (mx_organization_id c) (mx_site_id c) dev = Inr current"
    "vw_lifecycle current \<noteq> Retired" "vw_lifecycle current \<noteq> Archived"
    "foldR (upsert_identifier env (mx_organization_id c) (mx_site_id c) dev (Some t))
       (dx_identifiers x) db = Inr db1"
    "persist_observed_facts (tk_now tk) (mx_organization_id c) (mx_site_id c) dev t x db1 = Inr db2"
    "apply_observed_canonical_fields (tk_now tk) dev x t db2 = Inr db3"
    "loaded db3 (mx_organization_id c) (mx_site_id c) dev = Inr v"
    "write_mutation_records env tk c ''inventory.device.reconcile'' ''inventory.device.observed'' v
       (Some (view_json env current)) (Some (view_json env v)) db3 = Inr db'"
  note up = s(6) [unfolded apply_observed_canonical_fields_def]
  note k1 = identifiers_keep [OF s(4) base]
  have k2: "base_inv db2 \<and> data_only db1 db2 \<and> elsewhere_same dev db1 db2"
    by (rule facts_keep [OF disjI2 [OF s(5) [unfolded persist_observed_facts_def]]]) (use k1 in blast)
  have d2: "data_only db db2" using k1 k2 data_only_trans by blast
  have "\<exists>r \<in> set (iv_devices db). dv_id r = dev"
    using s(1) by (rule loaded_Inr) (auto simp: in_scope_def)
  note change = edited_change [OF up observe_row_keeps _ observe_row_state d2 data_only_refl this]
  have b3: "base_inv db3"
    by (rule update_devices_base [OF up _ observe_row_keeps])
      (use k2 update_devices_effect(2) [OF up] observe_row_ok in blast)+
  have "elsewhere_same dev db2 db3" by (rule update_devices_elsewhere [OF up observe_row_keeps])
  then have "elsewhere_same dev db db3" using k1 k2 elsewhere_trans by blast
  then have "mutation env tk c dev ''inventory.device.reconcile'' ''inventory.device.observed''
      (Some (view_json env current)) v db db'"
    by (intro mutationI [OF s(8,7) b3]) (use change in auto)
  with s(1-3) show ?thesis by blast
qed

lemma reconcile_new_steps:
  assumes "reconcile_new env tk c x t db = Inr (db', v)"
  obtains db1 db2 db3 db4 where "insert_device (observed_row tk c x t) db = Inr db1"
    and "foldR (upsert_identifier env (mx_organization_id c) (mx_site_id c) (tk_device_id tk) (Some t))
           (dx_identifiers x) db1 = Inr db2"
    and "persist_observed_facts (tk_now tk) (mx_organization_id c) (mx_site_id c) (tk_device_id tk) t x db2
           = Inr db3"
    and "append_lifecycle_event (tk_now tk) c (tk_device_id tk) None Discovered (Some ''discovery'') db3
           = Inr db4"
    and "loaded db4 (mx_organization_id c) (mx_site_id c) (tk_device_id tk) = Inr v"
    and "write_mutation_records env tk c ''inventory.device.discovery.create''
           ''inventory.device.discovered'' v None (Some (view_json env v)) db4 = Inr db'"
  using assms unfolding reconcile_new_def Let_def bindR_Inr_iff ex_unit_iff sum.inject prod.inject by blast

lemma reconcile_new_mutation:
  assumes "reconcile_new env tk c x t db = Inr (db', v)" and base: "base_inv db"
  shows "mutation env tk c (tk_device_id tk) ''inventory.device.discovery.create''
    ''inventory.device.discovered'' None v db db'"
  using assms(1)
proof (rule reconcile_new_steps)
  let ?r = "observed_row tk c x t" and ?dev = "tk_device_id tk"
  fix db1 db2 db3 db4
  assume s: "insert_device ?r db = Inr db1"
    "foldR (upsert_identifier env (mx_organization_id c) (mx_site_id c) ?dev (Some t)) (dx_identifiers x) db1
       = Inr db2"
    "persist_observed_facts (tk_now tk) (mx_organization_id c) (mx_site_id c) ?dev t x db2 = Inr db3"
    "append_lifecycle_event (tk_now tk) c ?dev None Discovered (Some ''discovery'') db3 = Inr db4"
    "loaded db4 (mx_organization_id c) (mx_site_id c) ?dev = Inr v"
    "write_mutation_records env tk c ''inventory.device.discovery.create''
       ''inventory.device.discovered'' v None (Some (view_json env v)) db4 = Inr db'"
  have r: "dv_id ?r = ?dev" "dv_version ?r = 1" "dv_lifecycle_state ?r = lifecycle_as_str Discovered"
    by (simp_all add: observed_row_def)
  have b1: "base_inv db1" by (rule insert_device_base [OF s(1) base observed_row_ok])
  note k2 = identifiers_keep [OF s(2) b1]
  have k3: "base_inv db3 \<and> data_only db2 db3 \<and> elsewhere_same ?dev db2 db3"
    by (rule facts_keep [OF disjI2 [OF s(3) [unfolded persist_observed_facts_def]]]) (use k2 in blast)
  have data: "data_only db1 db3" using k2 k3 data_only_trans by blast
  note change = created_change [OF s(1) data r _ s(4)]
  have "elsewhere_same ?dev db db4"
    using insert_device_elsewhere [OF s(1)] k2 k3 append_lifecycle_event_keeps(2) [OF s(4)] r(1)
      elsewhere_trans by metis
  moreover have "base_inv db4" using append_lifecycle_event_keeps(1) [OF s(4)] k3 by blast
  ultimately show ?thesis
    using change by (intro mutationI [OF s(6,5)]) auto
qed

end
