(* ===== verification/Inventory_History.thy ===== *)
theory Inventory_History
  imports Inventory_Invariant
begin

text \<open>
  The inventory as a machine: its transactions, interleaved with appends to the audit trail and
  steps of the outbox by others, keep \<open>inventory_inv\<close> and only move forward. From this come the
  properties of the store: the log of a device leads to its state, versions prevent lost updates,
  identifiers keep their owner, declared values stay.
\<close>

section \<open>The log and the devices\<close>

lemma replay_append:
  "replay s (es @ [e]) = (case replay s es of None \<Rightarrow> None
     | Some t \<Rightarrow> if log_entry_legal t e then Some (Some (le_to_state e)) else None)"
  by (induction es arbitrary: s) auto

inductive lifecycle_moves :: "string \<Rightarrow> string \<Rightarrow> bool" where
  "lifecycle_step l m \<Longrightarrow> lifecycle_moves (lifecycle_as_str l) (lifecycle_as_str m)"

inductive_cases lifecycle_movesE: "lifecycle_moves s t"

lemma legal_moves: "log_entry_legal (Some s) e \<Longrightarrow> lifecycle_moves s (le_to_state e)"
proof -
  assume "log_entry_legal (Some s) e"
  then obtain l m where "parse_lifecycle s = Inr l" "parse_lifecycle (le_to_state e) = Inr m"
    "l \<noteq> m" "can_transition_to l m"
    by (auto simp: log_entry_legal_def split: sum.splits)
  then show ?thesis
    using lifecycle_codec.parse_sound [of s l] lifecycle_codec.parse_sound [of "le_to_state e" m]
      lifecycle_step.move [of l m] lifecycle_moves.intros by metis
qed

lemma archived_stays: "lifecycle_moves\<^sup>*\<^sup>* ''archived'' t \<Longrightarrow> t = ''archived''"
proof (induction rule: rtranclp_induct)
  case (step t u)
  have "lifecycle_as_str l = ''archived'' \<Longrightarrow> l = Archived" for l by (cases l) simp_all
  then show ?case using step(2,3) lifecycle_step_from(1) by (metis lifecycle_movesE)
qed simp

text \<open>A device row later: the same device, never an older version, changed only with a newer version,
  and in a state the lifecycle reaches from the earlier one.\<close>

definition device_forward :: "device_row \<Rightarrow> device_row \<Rightarrow> bool" where
  "device_forward r r' \<longleftrightarrow> dv_id r' = dv_id r \<and> dv_organization_id r' = dv_organization_id r
     \<and> dv_site_id r' = dv_site_id r \<and> dv_version r \<le> dv_version r'
     \<and> (dv_version r = dv_version r' \<longrightarrow> r' = r)
     \<and> lifecycle_moves\<^sup>*\<^sup>* (dv_lifecycle_state r) (dv_lifecycle_state r')"

lemma device_forward_refl: "device_forward r r"
  by (simp add: device_forward_def)

lemma device_forward_trans: "device_forward p q \<Longrightarrow> device_forward q r \<Longrightarrow> device_forward p r"
  by (auto simp: device_forward_def)

definition devices_forward :: "inventory_db \<Rightarrow> inventory_db \<Rightarrow> bool" where
  "devices_forward db db' \<longleftrightarrow> (\<forall>r \<in> set (iv_devices db). \<exists>r' \<in> set (iv_devices db'). device_forward r r')"

definition inventory_forward :: "inventory_db \<Rightarrow> inventory_db \<Rightarrow> bool" where
  "inventory_forward db db' \<longleftrightarrow> iv_sites db' = iv_sites db \<and> devices_forward db db' \<and> kept db db'
     \<and> (\<exists>es. iv_lifecycle_events db' = iv_lifecycle_events db @ es)
     \<and> audit_extends (iv_audit db) (iv_audit db') \<and> outbox_forward (iv_outbox db) (iv_outbox db')"

lemma inventory_forward_refl: "inventory_forward db db"
  by (auto simp: inventory_forward_def devices_forward_def audit_extends_def
      intro: device_forward_refl kept_subset outbox_forward_refl)

lemma inventory_forward_trans:
  assumes "inventory_forward a b" and "inventory_forward b c"
  shows "inventory_forward a c"
proof -
  have "devices_forward a c"
    using assms device_forward_trans unfolding inventory_forward_def devices_forward_def by meson
  moreover have "audit_extends (iv_audit a) (iv_audit c)"
    using assms audit_machine.fwd_trans unfolding inventory_forward_def by blast
  ultimately show ?thesis
    using assms kept_trans outbox_forward_trans unfolding inventory_forward_def by (metis append_assoc)
qed

lemma device_log_append:
  "iv_lifecycle_events db' = iv_lifecycle_events db @ [e]
    \<Longrightarrow> device_log db' d = device_log db d @ (if le_device_id e = d then [e] else [])"
  by (simp add: device_log_def)

lemma no_log: "log_ok db \<Longrightarrow> d \<notin> dv_id ` set (iv_devices db) \<Longrightarrow> device_log db d = []"
  by (auto simp: log_ok_def device_log_def filter_empty_conv)

lemma bumped_state: "dv_lifecycle_state (bumped now f r) = dv_lifecycle_state (f r)"
  by (simp add: bumped_def)

lemma devices_forward_update:
  assumes "iv_devices db' = upd_where hit (bumped now f) (iv_devices db)" and "keeps_scope f"
    and "\<And>r. r \<in> set (iv_devices db) \<Longrightarrow> hit r
      \<Longrightarrow> lifecycle_moves\<^sup>*\<^sup>* (dv_lifecycle_state r) (dv_lifecycle_state (f r))"
  shows "devices_forward db db'"
proof -
  have "device_forward r (bumped now f r)" if "r \<in> set (iv_devices db)" "hit r" for r
  proof -
    have "dv_version (bumped now f r) = dv_version r + 1" by (simp add: bumped_def)
    then show ?thesis
      using that assms(3) bumped_scope [OF assms(2)] by (simp add: device_forward_def bumped_state)
  qed
  then have "device_forward r (if hit r then bumped now f r else r)" if "r \<in> set (iv_devices db)" for r
    using that device_forward_refl by simp
  then show ?thesis unfolding devices_forward_def assms(1) set_upd_where by blast
qed

lemma device_change_keeps:
  assumes "device_change dev db db'" and "log_ok db" and "distinct (map dv_id (iv_devices db))"
  shows "log_ok db' \<and> devices_forward db db' \<and> (\<exists>es. iv_lifecycle_events db' = iv_lifecycle_events db @ es)"
  using assms(1)
proof cases
  case (created r e)
  note log = device_log_append [OF created(5)]
  have "replay None (device_log db' (dv_id q)) = Some (Some (dv_lifecycle_state q))"
    if "q \<in> set (iv_devices db')" for q
  proof (cases "dv_id q = dev")
    case True
    with that created have "q = r" by (auto simp: image_iff)
    with True created no_log [OF assms(2) created(3)] show ?thesis by (simp add: log)
  next
    case False
    with that created assms(2) show ?thesis by (auto simp: log log_ok_def)
  qed
  moreover have "devices_forward db db'"
    using created(1) device_forward_refl by (auto simp: devices_forward_def)
  ultimately show ?thesis using assms(2) created by (auto simp: log_ok_def)
next
  case (edited hit now f)
  have ids: "dv_id ` set (iv_devices db') = dv_id ` set (iv_devices db)"
    unfolding edited(1) set_upd_where image_image using bumped_scope [OF edited(2)]
    by (intro image_cong) auto
  have "replay None (device_log db' (dv_id q)) = Some (Some (dv_lifecycle_state q))"
    if q: "q \<in> set (iv_devices db')" for q
  proof -
    from q obtain r where r: "r \<in> set (iv_devices db)" "q = (if hit r then bumped now f r else r)"
      by (auto simp: edited(1) table_simps)
    then have "dv_id q = dv_id r" "dv_lifecycle_state q = dv_lifecycle_state r"
      using bumped_scope [OF edited(2)] edited(4) by (simp_all add: bumped_state)
    with r assms(2) edited(5) show ?thesis by (simp add: log_ok_def device_log_def)
  qed
  moreover have "devices_forward db db'"
    by (rule devices_forward_update [OF edited(1,2)]) (simp add: edited(4))
  ultimately show ?thesis using assms(2) edited(5) ids by (simp add: log_ok_def)
next
  case (moved hit now f e)
  note log = device_log_append [OF moved(4)]
  have ids: "dv_id ` set (iv_devices db') = dv_id ` set (iv_devices db)"
    unfolding moved(1) set_upd_where image_image using bumped_scope [OF moved(2)]
    by (intro image_cong) auto
  have "replay None (device_log db' (dv_id q)) = Some (Some (dv_lifecycle_state q))"
    if q: "q \<in> set (iv_devices db')" for q
  proof -
    from q obtain r where r: "r \<in> set (iv_devices db)" "q = (if hit r then bumped now f r else r)"
      by (auto simp: moved(1) table_simps)
    then have id: "dv_id q = dv_id r" using bumped_scope [OF moved(2)] by simp
    have old: "replay None (device_log db (dv_id r)) = Some (Some (dv_lifecycle_state r))"
      using r(1) assms(2) by (simp add: log_ok_def)
    show ?thesis
    proof (cases "dv_id r = dev")
      case True
      then have "hit r" using moved(3,7) r(1) distinct_key_unique [OF assms(3)] by metis
      then have "dv_lifecycle_state q = le_to_state e" "log_entry_legal (Some (dv_lifecycle_state r)) e"
        using r(2) moved(6) [OF r(1)] by (simp_all add: bumped_state)
      with True old moved(5) show ?thesis unfolding id by (simp add: log replay_append)
    next
      case False
      then have "\<not> hit r" using moved(3) by blast
      with False r old moved(5) show ?thesis by (simp add: log)
    qed
  qed
  moreover have "devices_forward db db'"
    by (rule devices_forward_update [OF moved(1,2)]) (metis moved(6) legal_moves r_into_rtranclp)
  moreover have "dev \<in> dv_id ` set (iv_devices db)" using moved(3,7) by blast
  ultimately show ?thesis using assms(2) moved(4,5) ids by (auto simp: log_ok_def)
qed

section \<open>The machine\<close>

lemma digits_of_digits: "list_all is_ascii_digit (digits_of n)"
proof (induction n rule: digits_of.induct)
  case (1 n)
  have "is_ascii_digit (char_of (48 + int k))" if "k < 10" for k
    using that by (simp add: is_ascii_digit_def str_simps)
  with 1 show ?case by (subst digits_of.simps) (auto simp: list_all_iff)
qed

lemma view_json_plain: "json_plain (view_json env v)"
proof -
  have "json_plain (json_opt (\<lambda>x. JString (f x)) y)" for f :: "timestamp \<Rightarrow> string" and y
    by (cases y) (simp_all add: json_opt_def)
  moreover have "json_plain (strings_json xs)" for xs by (simp add: strings_json_def list_all_iff)
  moreover have "list_all (\<lambda>c. is_ascii_digit c \<or> c = CHR ''-'') (decimal i)" for i
    using digits_of_digits by (simp add: decimal_def list_all_iff)
  moreover have "json_plain (json_opt JString y)" for y by (cases y) (simp_all add: json_opt_def)
  ultimately show ?thesis by (simp add: view_json_def Let_def)
qed

lemma mutation_draft_plain:
  assumes "in_i64 ms" and "pred_option json_plain before"
  shows "draft_plain (mutation_draft env ms c action v before (Some (view_json env v')))"
  using assms by (simp add: draft_plain_def mutation_draft_def view_json_plain)

lemma mutation_keeps:
  assumes laws: "audit_laws (ie_audit_ops env)" and inv: "inventory_inv env db"
    and mut: "mutation env tk c dev action event_type before v db db'"
    and ms: "in_i64 (tk_utc_ms tk)" and before: "pred_option json_plain before"
  shows "inventory_inv env db' \<and> inventory_forward db db'"
proof -
  have m: "base_inv db'" "elsewhere_same dev db db'" "device_change dev db db'" "kept db db'"
    "recorded env tk c action event_type v before db db'"
    using mut by (simp_all add: mutation_def)
  have i: "base_inv db" "log_ok db" "all_chained (ie_audit_ops env) (iv_audit db)" "outbox_inv (iv_outbox db)"
    using inv by (simp_all add: inventory_inv_def)
  have "distinct (map dv_id (iv_devices db))" using i(1) by (simp add: base_inv_def devices_ok_def)
  note d = device_change_keeps [OF m(3) i(2) this]
  have a: "audit_step (ie_audit_ops env) (iv_audit db) (iv_audit db')"
    using m(5) unfolding recorded_def
    by (intro audit_step.intros [OF mutation_draft_plain [OF ms before]]) (erule conjunct1)
  have o: "outbox_inv (iv_outbox db') \<and> outbox_forward (iv_outbox db) (iv_outbox db')"
    using m(5) unfolding recorded_def by (intro enqueue_keeps [OF _ i(4)]) (erule conjunct2)
  have s: "iv_sites db' = iv_sites db" using m(2) by (simp add: elsewhere_same_def)
  have "all_chained (ie_audit_ops env) (iv_audit db')" "audit_extends (iv_audit db) (iv_audit db')"
    using audit_step_chained [OF laws a i(3)] audit_step_extends [OF laws a i(3)] by blast+
  with d o m s show ?thesis by (simp add: inventory_inv_def inventory_forward_def)
qed

text \<open>A committed transaction of the store.\<close>

inductive commits ::
  "inventory_env \<Rightarrow> tick \<Rightarrow> mutation_context \<Rightarrow> inventory_db \<Rightarrow> inventory_db \<Rightarrow> device_view \<Rightarrow> bool"
  for env tk c db db' v where
  commit_create: "create_manual env tk c d approval db = Inr (db', v) \<Longrightarrow> commits env tk c db db' v"
| commit_update: "update_metadata env tk c dev expected p db = Inr (db', v) \<Longrightarrow> commits env tk c db db' v"
| commit_transition: "transition_lifecycle env tk c dev expected next reason db = Inr (db', v)
     \<Longrightarrow> commits env tk c db db' v"
| commit_known: "reconcile_observation env tk c x db = Inr (db', Updated v) \<Longrightarrow> commits env tk c db db' v"
| commit_new: "reconcile_observation env tk c x db = Inr (db', Created v) \<Longrightarrow> commits env tk c db db' v"

text \<open>Each is a mutation of one device, but for a transition to the state the device is in.\<close>

lemma commits_mutation:
  assumes "commits env tk c db db' v" and base: "base_inv db"
  shows "(db' = db \<and> loaded db (mx_organization_id c) (mx_site_id c) (vw_id v) = Inr v)
    \<or> (\<exists>dev action event_type before. pred_option json_plain before
         \<and> mutation env tk c dev action event_type before v db db')"
  using assms(1)
proof cases
  case (commit_create d approval)
  then show ?thesis using create_manual_mutation [OF _ base] by (metis option.pred_inject(1))
next
  case (commit_update dev expected p)
  then show ?thesis
    using update_metadata_mutation [OF _ base] view_json_plain by (metis option.pred_inject(2))
next
  case (commit_transition dev expected "next" reason)
  obtain current where "loaded db (mx_organization_id c) (mx_site_id c) dev = Inr current"
    "if vw_lifecycle current = next then db' = db \<and> v = current
     else can_transition_to (vw_lifecycle current) next
       \<and> mutation env tk c dev ''inventory.device.lifecycle.transition''
           ''inventory.device.lifecycle_changed'' (Some (view_json env current)) v db db'"
    using transition_lifecycle_mutation [OF commit_transition base] by blast
  then show ?thesis
    using view_json_plain loaded_id by (cases "vw_lifecycle current = next") (auto simp: option.pred_inject)
next
  case (commit_known x)
  then show ?thesis
  proof (cases rule: reconcile_steps)
    case (known dev w)
    then show ?thesis
      using reconcile_known_mutation [OF known(4) base] view_json_plain by (metis option.pred_inject(2) reconciliation_result.inject(2))
  qed simp
next
  case (commit_new x)
  then show ?thesis
  proof (cases rule: reconcile_steps)
    case (fresh w)
    then show ?thesis
      using reconcile_new_mutation [OF fresh(4) base] by (metis option.pred_inject(1) reconciliation_result.inject(1))
  qed simp
qed

inductive inventory_step :: "inventory_env \<Rightarrow> inventory_db \<Rightarrow> inventory_db \<Rightarrow> bool" for env where
  step_commit: "in_i64 (tk_utc_ms tk) \<Longrightarrow> commits env tk c db db' v \<Longrightarrow> inventory_step env db db'"
| step_audit: "audit_step (ie_audit_ops env) (iv_audit db) a
     \<Longrightarrow> inventory_step env db (db\<lparr>iv_audit := a\<rparr>)"
| step_outbox: "outbox_step (iv_outbox db) b \<Longrightarrow> inventory_step env db (db\<lparr>iv_outbox := b\<rparr>)"

lemma others_keep:
  assumes "inventory_inv env db" and "all_chained (ie_audit_ops env) a \<and> audit_extends (iv_audit db) a"
    and "outbox_inv b \<and> outbox_forward (iv_outbox db) b"
  shows "inventory_inv env (db\<lparr>iv_audit := a, iv_outbox := b\<rparr>)
    \<and> inventory_forward db (db\<lparr>iv_audit := a, iv_outbox := b\<rparr>)"
proof -
  let ?db = "db\<lparr>iv_audit := a, iv_outbox := b\<rparr>"
  have "base_inv ?db" by (rule records_keep(1) [OF refl]) (use assms(1) in \<open>simp add: inventory_inv_def\<close>)
  moreover have "log_ok ?db" using assms(1) by (simp add: inventory_inv_def log_ok_def device_log_def)
  moreover have "devices_forward db ?db" using device_forward_refl by (auto simp: devices_forward_def)
  ultimately show ?thesis
    using assms by (simp add: inventory_inv_def inventory_forward_def kept_subset)
qed

lemma inventory_step_keeps:
  assumes laws: "audit_laws (ie_audit_ops env)" and step: "inventory_step env db db'"
    and inv: "inventory_inv env db"
  shows "inventory_inv env db' \<and> inventory_forward db db'"
proof -
  have base: "base_inv db" using inv by (simp add: inventory_inv_def)
  from step show ?thesis
  proof cases
    case (step_commit tk c v)
    from commits_mutation [OF step_commit(2) base] show ?thesis
      using mutation_keeps [OF laws inv _ step_commit(1)] inv inventory_forward_refl by blast
  next
    case (step_audit a)
    have "all_chained (ie_audit_ops env) (iv_audit db)" using inv by (simp add: inventory_inv_def)
    then show ?thesis
      using others_keep [OF inv, of a "iv_outbox db"] audit_step_chained [OF laws step_audit(2)]
        audit_step_extends [OF laws step_audit(2)] inv outbox_forward_refl
      by (simp add: step_audit(1) inventory_inv_def)
  next
    case (step_outbox b)
    have "outbox_inv (iv_outbox db)" using inv by (simp add: inventory_inv_def)
    then show ?thesis
      using others_keep [OF inv, of "iv_audit db" b] outbox_step_keeps [OF step_outbox(2)] inv
      by (simp add: step_outbox(1) inventory_inv_def audit_extends_def)
  qed
qed

interpretation inventory: forward_machine
  "\<lambda>db db'. audit_laws (ie_audit_ops env) \<and> inventory_step env db db'" "inventory_inv env" inventory_forward
  for env
  by unfold_locales (use inventory_step_keeps inventory_forward_refl inventory_forward_trans in blast)+

lemma inventory_reach:
  assumes "audit_laws (ie_audit_ops env)" and "(inventory_step env)\<^sup>*\<^sup>* db db'" and "inventory_inv env db"
  shows "inventory_inv env db'" and "inventory_forward db db'"
proof -
  have "(\<lambda>db db'. audit_laws (ie_audit_ops env) \<and> inventory_step env db db')\<^sup>*\<^sup>* db db'"
    using assms(2) by (rule rtranclp_mono [THEN predicate2D, rotated]) (use assms(1) in auto)
  then show "inventory_inv env db'" "inventory_forward db db'"
    using inventory.reach_inv inventory.reach_fwd assms(3) by blast+
qed

section \<open>An example\<close>

text \<open>A serializer for a given list of drafts, and a hash.\<close>

fun index_of :: "'a \<Rightarrow> 'a list \<Rightarrow> nat option" where
  "index_of x [] = None"
| "index_of x (y # ys) = (if x = y then Some 0 else map_option Suc (index_of x ys))"

lemma index_of_nth: "index_of x ys = Some n \<Longrightarrow> n < length ys \<and> ys ! n = x"
  by (induction ys arbitrary: n) (auto split: if_splits)

definition listed_ops :: "audit_draft list \<Rightarrow> audit_ops" where
  "listed_ops ds = \<lparr>audit_sha256 = (\<lambda>m. take 32 (rev m @ replicate 32 CHR ''0'')),
     draft_to_vec = (\<lambda>d. map_option (\<lambda>n. replicate n CHR ''d'') (index_of (null_to_none d) ds)),
     draft_from_slice = (\<lambda>b. if length b < length ds then Some (ds ! length b) else None)\<rparr>"

lemma listed_ops_laws: "audit_laws (listed_ops ds)"
proof -
  have "null_to_none (null_to_none d) = null_to_none d" for d
    by (simp add: null_to_none_def null_none_def)
  then show ?thesis
    by (auto simp: audit_laws_def listed_ops_def min_def dest: index_of_nth)
qed

definition staff_context :: mutation_context where
  "staff_context = \<lparr>mx_organization_id = 2, mx_site_id = 20, mx_actor_type = UserActor,
     mx_actor_id = Some 1, mx_session_id = Some 3, mx_source_ip = None, mx_request_id = ''u'',
     mx_correlation_id = 62\<rparr>"

definition demo_tick :: "nat \<Rightarrow> tick" where
  "demo_tick n = \<lparr>tk_now = 100 + int n, tk_utc = 100 + int n, tk_utc_ms = int n,
     tk_device_id = of_nat (10 + n), tk_audit_id = of_nat (20 + n), tk_outbox_id = of_nat (30 + n)\<rparr>"

definition demo_device :: new_device where
  "demo_device = \<lparr>nd_device_type = Switch, nd_display_name = Some ''a'', nd_hostname = None,
     nd_vendor = None, nd_model = None, nd_os_name = None, nd_os_version = None,
     nd_firmware_version = None, nd_description = None, nd_operational_owner = None,
     nd_capabilities = [], nd_identifiers = [\<lparr>ni_kind = Serial, ni_value = ''S1'',
       ni_source = ''m'', ni_confidence = None\<rparr>]\<rparr>"

definition switch_view :: device_view where
  "switch_view = \<lparr>vw_id = 10, vw_organization_id = 2, vw_site_id = 20, vw_lifecycle = Managed,
     vw_device_type = Switch, vw_display_name = Some ''a'', vw_hostname = None, vw_vendor = None,
     vw_model = None, vw_serial_number = Some ''S1'', vw_os_name = None, vw_os_version = None,
     vw_firmware_version = None, vw_description = None, vw_operational_owner = None,
     vw_capabilities = [], vw_version = 1, vw_last_seen_at = None, vw_last_changed_at = 100,
     vw_onboarded_at = Some 100, vw_retired_at = None, vw_retirement_reason = None\<rparr>"

definition switch_view2 :: device_view where
  "switch_view2 = switch_view\<lparr>vw_hostname := Some ''h'', vw_version := 2, vw_last_changed_at := 101\<rparr>"

definition plain_env :: inventory_env where
  "plain_env = \<lparr>ie_audit_ops = listed_ops [], ie_uuid_str = (\<lambda>_. ''u''), ie_rfc3339 = (\<lambda>_. ''t''),
     ie_numeric = (\<lambda>_. 1)\<rparr>"

definition demo_env :: inventory_env where
  "demo_env = plain_env\<lparr>ie_audit_ops := listed_ops [
     null_to_none (sanitize (mutation_draft plain_env 0 staff_context ''inventory.device.create''
       switch_view None (Some (view_json plain_env switch_view)))),
     null_to_none (sanitize (mutation_draft plain_env 1 staff_context ''inventory.device.update''
       switch_view2 (Some (view_json plain_env switch_view)) (Some (view_json plain_env switch_view2))))]\<rparr>"

definition demo_inventory :: inventory_db where
  "demo_inventory = \<lparr>iv_sites = {(20, 2), (21, 2)}, iv_devices = [], iv_identifiers = [], iv_facts = [],
     iv_lifecycle_events = [], iv_audit = \<lparr>au_organizations = {2}, au_sites = {20, 21}, au_sessions = {3},
       au_events = []\<rparr>, iv_outbox = empty_outbox\<lparr>od_organizations := {2}\<rparr>\<rparr>"

definition demo_created :: "(inventory_error + (inventory_db \<times> device_view))" where
  "demo_created = create_manual demo_env (demo_tick 0) staff_context demo_device False demo_inventory"

lemma demo_created_ok: "is_ok demo_created"
  by code_simp

section \<open>Properties\<close>

lemma demo_inventory_inv: "inventory_inv demo_env demo_inventory"
proof -
  have "sealed_rows (iv_audit demo_inventory) org = []" for org
    by (simp add: demo_inventory_def sealed_rows_def)
  moreover have "outbox_inv (empty_outbox\<lparr>od_organizations := {2}\<rparr>)"
    using empty_outbox_inv by (simp add: outbox_inv_def empty_outbox_def)
  ultimately show ?thesis
    by (simp add: inventory_inv_def base_inv_def devices_ok_def identifiers_ok_def facts_ok_def log_ok_def
        all_chained_def) (simp add: demo_inventory_def)
qed

lemma demo_laws: "audit_laws (ie_audit_ops demo_env)"
  by (simp add: demo_env_def plain_env_def listed_ops_laws)

definition demo_db :: inventory_db where
  "demo_db = (case demo_created of Inr (db, _) \<Rightarrow> db | Inl _ \<Rightarrow> demo_inventory)"

lemma demo_created: "create_manual demo_env (demo_tick 0) staff_context demo_device False demo_inventory
    = Inr (demo_db, switch_view)"
proof -
  have "(case demo_created of Inr (_, v) \<Rightarrow> v = switch_view | Inl _ \<Rightarrow> False)" by code_simp
  then show ?thesis
    by (cases demo_created) (auto simp: demo_created_def demo_db_def)
qed

lemma demo_db_reach: "(inventory_step demo_env)\<^sup>*\<^sup>* demo_inventory demo_db"
  using step_commit [OF _ commit_create [OF demo_created]]
  by (auto simp: demo_tick_def in_i64_def i64_min_def i64_max_def)

lemma demo_db_inv: "inventory_inv demo_env demo_db"
  by (rule inventory_reach(1) [OF demo_laws demo_db_reach demo_inventory_inv])

definition demo_patch :: metadata_patch where
  "demo_patch = \<lparr>mp_device_type = None, mp_display_name = None, mp_hostname = Some (Some ''h''),
     mp_vendor = None, mp_model = None, mp_os_name = None, mp_os_version = None,
     mp_firmware_version = None, mp_description = None, mp_operational_owner = None,
     mp_capabilities = None\<rparr>"

definition demo_updated :: "(inventory_error + (inventory_db \<times> device_view))" where
  "demo_updated = update_metadata demo_env (demo_tick 1) staff_context 10 1 demo_patch demo_db"

definition demo_db2 :: inventory_db where
  "demo_db2 = (case demo_updated of Inr (db, _) \<Rightarrow> db | Inl _ \<Rightarrow> demo_inventory)"

lemma demo_updated: "update_metadata demo_env (demo_tick 1) staff_context 10 1 demo_patch demo_db
    = Inr (demo_db2, switch_view2)"
proof -
  have "(case demo_updated of Inr (_, v) \<Rightarrow> v = switch_view2 | Inl _ \<Rightarrow> False)" by code_simp
  then show ?thesis
    by (cases demo_updated) (auto simp: demo_updated_def demo_db2_def)
qed

lemma demo_db2_reach: "(inventory_step demo_env)\<^sup>*\<^sup>* demo_db demo_db2"
  using step_commit [OF _ commit_update [OF demo_updated]]
  by (auto simp: demo_tick_def in_i64_def i64_min_def i64_max_def)

text \<open>C4: The history of a device. From a consistent inventory, whatever transactions, audit appends and
  outbox steps follow, a device stays in its organization and site, its version never decreases, it
  changes only together with its version, its lifecycle moves only as the rules allow, and the entries
  of its log, replayed from the first, lead exactly to the state it is in.\<close>

theorem device_history:
  assumes "audit_laws (ie_audit_ops env)" and "inventory_inv env db"
    and "(inventory_step env)\<^sup>*\<^sup>* db db'" and "r \<in> set (iv_devices db)"
  shows "\<exists>r' \<in> set (iv_devices db'). dv_id r' = dv_id r
    \<and> dv_organization_id r' = dv_organization_id r \<and> dv_site_id r' = dv_site_id r
    \<and> dv_version r \<le> dv_version r' \<and> (dv_version r = dv_version r' \<longrightarrow> r' = r)
    \<and> lifecycle_moves\<^sup>*\<^sup>* (dv_lifecycle_state r) (dv_lifecycle_state r')
    \<and> replay None (device_log db' (dv_id r')) = Some (Some (dv_lifecycle_state r'))"
proof -
  note reach = inventory_reach [OF assms(1,3,2)]
  obtain r' where r': "r' \<in> set (iv_devices db')" "device_forward r r'"
    using reach(2) assms(4) by (auto simp: inventory_forward_def devices_forward_def)
  moreover have "replay None (device_log db' (dv_id r')) = Some (Some (dv_lifecycle_state r'))"
    using reach(1) r'(1) by (simp add: inventory_inv_def log_ok_def)
  ultimately show ?thesis by (intro bexI [of _ r']) (simp_all add: device_forward_def)
qed

lemma demo_row:
  "\<exists>r \<in> set (iv_devices demo_db). dv_id r = 10 \<and> dv_version r = 1 \<and> dv_lifecycle_state r = ''managed''
     \<and> dv_organization_id r = 2 \<and> dv_site_id r = 20"
proof -
  have "list_ex (\<lambda>r. dv_id r = 10 \<and> dv_version r = 1 \<and> dv_lifecycle_state r = ''managed''
     \<and> dv_organization_id r = 2 \<and> dv_site_id r = 20) (iv_devices demo_db)"
    by code_simp
  then show ?thesis by (auto simp: list_ex_iff)
qed

theorem device_history_witness:
  "\<exists>r' \<in> set (iv_devices demo_db2). dv_id r' = 10 \<and> 1 \<le> dv_version r'
     \<and> replay None (device_log demo_db2 10) = Some (Some (dv_lifecycle_state r'))"
proof -
  obtain r where r: "r \<in> set (iv_devices demo_db)" "dv_id r = 10" "dv_version r = 1"
    using demo_row by blast
  from device_history [OF demo_laws demo_db_inv demo_db2_reach r(1)] r(2,3) show ?thesis by force
qed

text \<open>A row in a table that satisfies the invariant is found under its key and can be read.\<close>

lemma stored_load_ok:
  assumes "base_inv db" and "r \<in> set (iv_devices db)"
  shows "\<exists>v. row_to_device r = Inr v
    \<and> load_device db (dv_organization_id r) (dv_site_id r) (dv_id r) = Inr (Some v)
    \<and> loaded db (dv_organization_id r) (dv_site_id r) (dv_id r) = Inr v"
proof -
  have d: "distinct (map dv_id (iv_devices db))" and ok: "device_row_ok r"
    using assms by (simp_all add: base_inv_def devices_ok_def)
  obtain l t where "dv_lifecycle_state r = lifecycle_as_str l" "dv_device_type r = device_type_as_str t"
    using ok by (auto simp: device_row_ok_def)
  then obtain v where v: "row_to_device r = Inr v"
    by (simp add: row_to_device_def lifecycle_codec.parse_as_str device_type_codec.parse_as_str)
  have "List.find (in_scope (dv_organization_id r) (dv_site_id r) (dv_id r)) (iv_devices db) = Some r"
  proof (cases "List.find (in_scope (dv_organization_id r) (dv_site_id r) (dv_id r)) (iv_devices db)")
    case None
    then show ?thesis using assms(2) by (auto simp: find_None_set in_scope_def)
  next
    case (Some q)
    then have "q \<in> set (iv_devices db)" "dv_id q = dv_id r"
      using find_Some_set by (fastforce simp: in_scope_def)+
    then show ?thesis using Some assms(2) distinct_key_unique [OF d] by metis
  qed
  with v show ?thesis by (simp add: load_device_def loaded_def)
qed

text \<open>C31: Every stored device can be read. In every state the store reaches, loading a device under its
  organization and site succeeds (no \<open>CorruptStoredValue\<close>), a managed device has an onboarding time,
  a retired one has a retirement time and a reason, and only retired and archived devices have a
  retirement time.\<close>

theorem stored_devices_load:
  assumes "audit_laws (ie_audit_ops env)" and "inventory_inv env db"
    and "(inventory_step env)\<^sup>*\<^sup>* db db'" and "r \<in> set (iv_devices db')"
  shows "\<exists>v. load_device db' (dv_organization_id r) (dv_site_id r) (dv_id r) = Inr (Some v)
    \<and> vw_id v = dv_id r \<and> 1 \<le> vw_version v
    \<and> (vw_lifecycle v = Managed \<longrightarrow> vw_onboarded_at v \<noteq> None)
    \<and> (vw_lifecycle v = Retired \<longrightarrow> vw_retired_at v \<noteq> None \<and> vw_retirement_reason v \<noteq> None)
    \<and> (vw_retired_at v \<noteq> None \<longrightarrow> vw_lifecycle v = Retired \<or> vw_lifecycle v = Archived)"
proof -
  have base: "base_inv db'" using inventory_reach(1) [OF assms(1,3,2)] by (simp add: inventory_inv_def)
  then have ok: "device_row_ok r" using assms(4) by (simp add: base_inv_def devices_ok_def)
  obtain v where v: "row_to_device r = Inr v"
    "load_device db' (dv_organization_id r) (dv_site_id r) (dv_id r) = Inr (Some v)"
    using stored_load_ok [OF base assms(4)] by blast
  have cols: "vw_onboarded_at v = dv_onboarded_at r" "vw_retired_at v = dv_retired_at r"
    "vw_retirement_reason v = dv_retirement_reason r"
    using v(1) by (auto simp: row_to_device_def bindR_Inr_iff)
  have "1 \<le> dv_version r"
    "lifecycle_as_str (vw_lifecycle v) = ''managed'' \<longrightarrow> vw_onboarded_at v \<noteq> None"
    "lifecycle_as_str (vw_lifecycle v) = ''retired'' \<longrightarrow> vw_retired_at v \<noteq> None \<and> vw_retirement_reason v \<noteq> None"
    "vw_retired_at v \<noteq> None \<longrightarrow> lifecycle_as_str (vw_lifecycle v) \<in> {''retired'', ''archived''}"
    unfolding cols row_to_device_Inr(1) [OF v(1)] using ok by (simp_all add: device_row_ok_def)
  then show ?thesis
    using row_to_device_Inr(3,4) [OF v(1)] v(2)
    by (intro exI [of _ v], cases "vw_lifecycle v") simp_all
qed

theorem stored_devices_load_witness:
  "\<exists>v. load_device demo_db 2 20 10 = Inr (Some v) \<and> vw_id v = 10"
proof -
  obtain r where r: "r \<in> set (iv_devices demo_db)" "dv_id r = 10" "dv_organization_id r = 2" "dv_site_id r = 20"
    using demo_row by blast
  from stored_devices_load [OF demo_laws demo_inventory_inv demo_db_reach r(1)] r(2-4) show ?thesis
    by auto
qed

text \<open>No lost updates. Once an update with some expected version has gone through, no later request
  for that device with the same expected version succeeds: a metadata update or a lifecycle transition
  with it is answered with a version conflict that names the newer version.\<close>

theorem lost_updates_refused:
  assumes laws: "audit_laws (ie_audit_ops env)" and inv: "inventory_inv env db"
    and up: "update_metadata env tk c dev n p db = Inr (db1, v)" and ms: "in_i64 (tk_utc_ms tk)"
    and later: "(inventory_step env)\<^sup>*\<^sup>* db1 db2"
    and c': "context_validate c' = Inr ()" "mx_organization_id c' = mx_organization_id c"
      "mx_site_id c' = mx_site_id c" and p': "patch_validate p' = Inr ()"
  shows "\<exists>m. n < m \<and> update_metadata env tk' c' dev n p' db2 = Inl (InvVersionConflict n m)
    \<and> transition_lifecycle env tk'' c' dev n next reason db2 = Inl (InvVersionConflict n m)"
proof -
  let ?org = "mx_organization_id c" and ?site = "mx_site_id c"
  have base: "base_inv db" using inv by (simp add: inventory_inv_def)
  obtain current where cur: "loaded db ?org ?site dev = Inr current" "vw_version current = n"
    using update_metadata_mutation [OF up base] by blast
  have s1: "inventory_step env db db1" by (rule step_commit [OF ms commit_update [OF up]])
  note i1 = inventory_step_keeps [OF laws s1 inv]
  obtain d where d: "d \<in> set (iv_devices db)" "in_scope ?org ?site dev d" "row_to_device d = Inr current"
    using cur(1) by (rule loaded_Inr)
  obtain r where r: "r \<in> set (iv_devices db1)" "device_forward d r"
    using i1 d(1) by (auto simp: inventory_forward_def devices_forward_def)
  have "dv_version r = n + 1"
    using up
  proof (rule update_metadata_steps)
    fix e1 e2 cur'
    assume s: "loaded db ?org ?site dev = Inr cur'"
      "update_devices (tk_now tk) (in_scope ?org ?site dev) (patch_row p cur') db = Inr e1"
      "persist_patch_facts (tk_now tk) ?org ?site dev p e1 = Inr e2"
      "write_mutation_records env tk c ''inventory.device.update'' ''inventory.device.updated'' v
        (Some (view_json env cur')) (Some (view_json env v)) e2 = Inr db1"
    have b1: "base_inv e1"
      by (rule update_devices_base [OF s(2) base patch_row_keeps])
        (use update_devices_effect(2) [OF s(2)] patch_row_ok in blast)
    have "iv_devices e2 = iv_devices e1"
      using facts_keep [OF disjI1 [OF s(3) [unfolded persist_patch_facts_def]] b1] by (simp add: data_only_def)
    then have dev: "iv_devices db1 = upd_where (in_scope ?org ?site dev) (bumped (tk_now tk) (patch_row p cur'))
        (iv_devices db)"
      using write_mutation_records_effect(2) [OF s(4)] update_devices_effect(1) [OF s(2)] by auto
    then obtain q where q: "q \<in> set (iv_devices db)"
      "r = (if in_scope ?org ?site dev q then bumped (tk_now tk) (patch_row p cur') q else q)"
      using r(1) by (auto simp: table_simps)
    have "dv_id q = dv_id r" using q(2) bumped_scope(1) [OF patch_row_keeps] by auto
    then have "q = d"
      using base q(1) d(1) r(2) by (metis base_inv_def devices_ok_def device_forward_def distinct_key_unique)
    moreover have "dv_version d = n" using row_to_device_Inr(4) [OF d(3)] cur(2) by simp
    ultimately show "dv_version r = n + 1" using q(2) d(2) by (simp add: bumped_def)
  qed
  moreover obtain q where q: "q \<in> set (iv_devices db2)" "device_forward r q"
    using inventory_reach(2) [OF laws later] i1 r(1) by (auto simp: inventory_forward_def devices_forward_def)
  ultimately have q_new: "n < dv_version q" by (simp add: device_forward_def)
  have scope: "dv_organization_id q = ?org" "dv_site_id q = ?site" "dv_id q = dev"
    using d(2) r(2) q(2) by (simp_all add: device_forward_def in_scope_def)
  have inv2: "inventory_inv env db2" using inventory_reach(1) [OF laws later] i1 by blast
  then have b2: "base_inv db2" by (simp add: inventory_inv_def)
  obtain w where w: "loaded db2 ?org ?site dev = Inr w"
    using stored_load_ok [OF b2 q(1)] scope by auto
  have "row_to_device q = Inr w"
    by (rule loaded_hit [OF w b2 q(1)]) (simp add: in_scope_def scope)
  then have "n < vw_version w" using q_new row_to_device_Inr(4) by metis
  then show ?thesis
    using c' p' w by (intro exI [of _ "vw_version w"])
      (simp add: update_metadata_def transition_lifecycle_def Let_def)
qed

theorem lost_updates_refused_witness:
  "\<exists>m. 1 < m \<and> update_metadata demo_env (demo_tick 1) staff_context 10 1 demo_patch demo_db2
      = Inl (InvVersionConflict 1 m)"
proof -
  have v: "context_validate staff_context = Inr ()" "patch_validate demo_patch = Inr ()"
    by code_simp+
  have ms: "in_i64 (tk_utc_ms (demo_tick 1))" by code_simp
  show ?thesis
    using lost_updates_refused [OF demo_laws demo_db_inv demo_updated ms rtranclp.rtrancl_refl v(1) refl refl v(2)]
    by blast
qed

lemma enqueue_effect:
  assumes "outbox_enqueue now e db = Inr db'"
  shows "\<exists>r. od_events db' = od_events db @ [r] \<and> ob_organization_id r = ne_organization_id e
    \<and> ob_status r = OutPending \<and> ob_aggregate_id r = ne_aggregate_id e \<and> ob_payload r = ne_payload e"
  using assms by (auto simp: outbox_enqueue_def bindR_Inr_iff split: if_splits)

text \<open>C17: Every change is recorded. A transaction that commits either changed nothing (a transition to the
  state the device is in) or appended exactly one event to the audit trail and exactly one pending event
  to the outbox, both for the device it returns: the audit event names the actor and holds the redacted
  new state, the outbox event carries the new state, and that state is what a read now returns.\<close>

theorem commit_is_recorded:
  assumes "commits env tk c db db' v" and "base_inv db"
  shows "loaded db' (mx_organization_id c) (mx_site_id c) (vw_id v) = Inr v
    \<and> (db' = db \<or> (\<exists>a o1. au_events (iv_audit db') = au_events (iv_audit db) @ [a]
        \<and> ae_organization_id a = mx_organization_id c \<and> ae_actor_id a = mx_actor_id c
        \<and> ae_resource_id a = Some (ie_uuid_str env (vw_id v)) \<and> ae_status a = ''succeeded''
        \<and> ae_after_state a = Some (sanitize_json (view_json env v))
        \<and> od_events (iv_outbox db') = od_events (iv_outbox db) @ [o1]
        \<and> ob_organization_id o1 = mx_organization_id c \<and> ob_status o1 = OutPending
        \<and> ob_aggregate_id o1 = ie_uuid_str env (vw_id v) \<and> ob_payload o1 = view_json env v))"
  using commits_mutation [OF assms]
proof (elim disjE exE conjE)
  fix dev action event_type before
  assume "mutation env tk c dev action event_type before v db db'"
  then have m: "recorded env tk c action event_type v before db db'"
    "loaded db' (mx_organization_id c) (mx_site_id c) dev = Inr v"
    by (simp_all add: mutation_def)
  let ?d = "mutation_draft env (tk_utc_ms tk) c action v before (Some (view_json env v))"
  have app: "audit_append (ie_audit_ops env) (tk_audit_id tk) ?d (iv_audit db)
      = Inr (iv_audit db', tk_audit_id tk)"
    and enq: "outbox_enqueue (tk_now tk) (mutation_event env (tk_outbox_id tk) c event_type v
      (Some (view_json env v))) (iv_outbox db) = Inr (iv_outbox db')"
    using m(1) by (simp_all add: recorded_def)
  obtain n prev payload where "au_events (iv_audit db') = au_events (iv_audit db)
      @ [row_of (tk_audit_id tk) n payload \<lparr>sl_event = sanitize ?d, sl_previous_hash = prev,
           sl_event_hash = hash_event (ie_audit_ops env) payload prev\<rparr>]"
    using append_effect [OF app] by metis
  moreover obtain o1 where "od_events (iv_outbox db') = od_events (iv_outbox db) @ [o1]"
    "ob_organization_id o1 = mx_organization_id c" "ob_status o1 = OutPending"
    "ob_aggregate_id o1 = ie_uuid_str env (vw_id v)" "ob_payload o1 = view_json env v"
    using enqueue_effect [OF enq] by (auto simp: mutation_event_def)
  ultimately show ?thesis
    using m(2) loaded_id [OF m(2)]
    by (auto simp: row_of_def sanitize_def mutation_draft_def Let_def)
qed simp

lemma demo_commits: "commits demo_env (demo_tick 0) staff_context demo_inventory demo_db switch_view"
  by (rule commit_create [OF demo_created])

lemma demo_base: "base_inv demo_inventory"
  using demo_inventory_inv by (simp add: inventory_inv_def)

theorem commit_is_recorded_witness:
  "loaded demo_db 2 20 10 = Inr switch_view \<and> length (au_events (iv_audit demo_db)) = 1
    \<and> length (od_events (iv_outbox demo_db)) = 1"
proof -
  have e: "au_events (iv_audit demo_inventory) = []" "od_events (iv_outbox demo_inventory) = []"
    "iv_devices demo_inventory = []"
    by (simp_all add: demo_inventory_def empty_outbox_def)
  have "demo_db \<noteq> demo_inventory" using demo_row e(3) by auto
  with commit_is_recorded [OF demo_commits demo_base] show ?thesis
    by (auto simp: staff_context_def switch_view_def e)
qed

lemma filter_other:
  assumes "filter (\<lambda>x. k x \<noteq> d) xs = filter (\<lambda>x. k x \<noteq> d) ys" and "d \<noteq> other"
  shows "filter (\<lambda>x. k x = other) xs = filter (\<lambda>x. k x = other) ys"
proof -
  have "(\<lambda>x. k x \<noteq> d \<and> k x = other) = (\<lambda>x. k x = other)" using assms(2) by auto
  then have "filter (\<lambda>x. k x = other) zs = filter (\<lambda>x. k x = other) (filter (\<lambda>x. k x \<noteq> d) zs)" for zs
    by (simp add: filter_filter)
  then show ?thesis using assms(1) by metis
qed

lemma commits_outcome:
  assumes "commits env tk c db db' v" and "base_inv db"
  shows "loaded db' (mx_organization_id c) (mx_site_id c) (vw_id v) = Inr v"
    and "elsewhere_same (vw_id v) db db'" and "base_inv db'"
proof -
  have "loaded db' (mx_organization_id c) (mx_site_id c) (vw_id v) = Inr v
      \<and> elsewhere_same (vw_id v) db db' \<and> base_inv db'"
    using commits_mutation [OF assms]
  proof (elim disjE exE conjE)
    fix dev action event_type before
    assume "mutation env tk c dev action event_type before v db db'"
    then have m: "loaded db' (mx_organization_id c) (mx_site_id c) dev = Inr v" "elsewhere_same dev db db'"
      "base_inv db'"
      by (simp_all add: mutation_def)
    with loaded_id [OF m(1)] show ?thesis by simp
  qed (use assms(2) elsewhere_refl in simp)
  then show "loaded db' (mx_organization_id c) (mx_site_id c) (vw_id v) = Inr v"
    "elsewhere_same (vw_id v) db db'" "base_inv db'" by blast+
qed

lemma elsewhereD:
  assumes "elsewhere_same dev db db'"
  shows "filter (\<lambda>r. dv_id r \<noteq> dev) (iv_devices db') = filter (\<lambda>r. dv_id r \<noteq> dev) (iv_devices db)"
    and "filter (\<lambda>q. ir_device_id q \<noteq> dev) (iv_identifiers db')
         = filter (\<lambda>q. ir_device_id q \<noteq> dev) (iv_identifiers db)"
    and "filter (\<lambda>f. fa_device_id f \<noteq> dev) (iv_facts db') = filter (\<lambda>f. fa_device_id f \<noteq> dev) (iv_facts db)"
    and "filter (\<lambda>e. le_device_id e \<noteq> dev) (iv_lifecycle_events db')
         = filter (\<lambda>e. le_device_id e \<noteq> dev) (iv_lifecycle_events db)"
  using assms unfolding elsewhere_same_def by blast+

text \<open>C32: Transactions are local. A committed transaction leaves every device, identifier, fact and log
  entry that does not belong to the device it returns exactly as it was; that device is in the
  organization and the site of the request, so nothing of another site or organization is touched.\<close>

theorem commit_is_local:
  assumes "commits env tk c db db' v" and "base_inv db" and "vw_id v \<noteq> other"
  shows "vw_organization_id v = mx_organization_id c \<and> vw_site_id v = mx_site_id c
    \<and> filter (\<lambda>r. dv_id r = other) (iv_devices db') = filter (\<lambda>r. dv_id r = other) (iv_devices db)
    \<and> filter (\<lambda>q. ir_device_id q = other) (iv_identifiers db')
        = filter (\<lambda>q. ir_device_id q = other) (iv_identifiers db)
    \<and> filter (\<lambda>f. fa_device_id f = other) (iv_facts db') = filter (\<lambda>f. fa_device_id f = other) (iv_facts db)
    \<and> device_log db' other = device_log db other"
proof -
  note load = commits_outcome(1) [OF assms(1,2)] and else_ = commits_outcome(2) [OF assms(1,2)]
  have "vw_organization_id v = mx_organization_id c \<and> vw_site_id v = mx_site_id c"
    using load by (rule loaded_Inr) (simp add: in_scope_def row_to_device_Inr)
  then show ?thesis
    using elsewhereD [OF else_, THEN filter_other, OF assms(3)] unfolding device_log_def by blast
qed

theorem commit_is_local_witness:
  "filter (\<lambda>r. dv_id r = 99) (iv_devices demo_db) = [] \<and> device_log demo_db 99 = []"
proof -
  have "vw_id switch_view \<noteq> 99" by (simp add: switch_view_def)
  from commit_is_local [OF demo_commits demo_base this] show ?thesis
    by (simp add: demo_inventory_def device_log_def)
qed

end
