(* ===== verification/Inventory_Observations.thy ===== *)
theory Inventory_Observations
  imports Inventory_History
begin

text \<open>
  Reconciliation of observations in \<open>crates/inventory-store/src/lib.rs\<close>: which device an observation
  is matched to, that a device once identified stays recognised, and that declared values win over
  observed ones.
\<close>

section \<open>Identifiers resolve to their owner\<close>

lemma sorted_wrt_pair:
  assumes "sorted_wrt R xs" and "p \<in> set xs" and "q \<in> set xs"
  shows "p = q \<or> R p q \<or> R q p"
  using assms by (induction xs) auto

lemma strong_clash_sym: "strong_clash p q \<Longrightarrow> strong_clash q p"
  by (auto simp: strong_clash_def same_identity_def)

lemma strong_unique:
  assumes "identifiers_ok db" and "p \<in> set (iv_identifiers db)" and "q \<in> set (iv_identifiers db)"
    and "strong_clash p q"
  shows "p = q"
  using sorted_wrt_pair [OF _ assms(2,3)] assms(1,4) strong_clash_sym
  unfolding identifiers_ok_def by blast

text \<open>The row that stands for an identifier of a request.\<close>

definition stands_for :: "uuid \<Rightarrow> uuid \<Rightarrow> new_identifier \<Rightarrow> identifier_row \<Rightarrow> bool" where
  "stands_for org site i q \<longleftrightarrow> ir_organization_id q = org \<and> ir_site_id q = site
     \<and> ir_kind q = kind_as_str (ni_kind i) \<and> normalized_identifier i = Inr (ir_normalized_value q)
     \<and> identity_namespace (ni_kind i) (ni_source i) = Inr (ir_identity_namespace q)"

lemma strong_owner_stands:
  assumes "identifiers_ok db" and "q \<in> set (iv_identifiers db)" and "stands_for org site i q"
    and "ir_strength q = ''strong''"
  shows "strong_owner db org site i = Inr (Some (ir_device_id q))"
proof -
  let ?P = "\<lambda>p. ir_organization_id p = org \<and> ir_site_id p = site \<and> ir_kind p = kind_as_str (ni_kind i)
    \<and> ir_identity_namespace p = ir_identity_namespace q \<and> ir_normalized_value p = ir_normalized_value q
    \<and> ir_strength p = ''strong''"
  have "?P q" using assms(3,4) by (simp add: stands_for_def)
  then obtain p where p: "List.find ?P (iv_identifiers db) = Some p"
    using assms(2) find_None_set [of ?P "iv_identifiers db"] by (cases "List.find ?P (iv_identifiers db)") blast+
  then have "p \<in> set (iv_identifiers db) \<and> ?P p" by (rule find_Some_set)
  then have "p = q"
    using assms by (intro strong_unique [OF assms(1) _ assms(2)])
      (simp_all add: strong_clash_def same_identity_def stands_for_def)
  with p assms(3) show ?thesis by (simp add: strong_owner_def stands_for_def)
qed

lemma strong_owner_Some:
  assumes "strong_owner db org site i = Inr (Some dev)"
  shows "\<exists>q \<in> set (iv_identifiers db). stands_for org site i q \<and> ir_strength q = ''strong''
    \<and> ir_device_id q = dev"
  using assms find_Some_set
  by (fastforce simp: strong_owner_def bindR_Inr_iff stands_for_def)

lemma strong_owner_total:
  assumes "new_identifier_validate i = Inr ()"
  shows "\<exists>m. strong_owner db org site i = Inr m"
  using assms by (auto simp: new_identifier_validate_def strong_owner_def bindR_Inr_iff split: if_splits)

lemma strong_matches_total:
  assumes "observation_validate x = Inr ()"
  shows "\<exists>ms. strong_matches db org site (dx_identifiers x) = Inr ms"
proof -
  have valid: "\<forall>i \<in> set (dx_identifiers x). new_identifier_validate i = Inr ()"
    using assms by (auto simp: observation_validate_def bindR_Inr_iff for_eachR_Inr_iff split: if_splits)
  have "\<exists>ms. foldR (\<lambda>i ms. bindR (strong_owner db org site i) (\<lambda>m.
      Inr (case m of None \<Rightarrow> ms | Some dev \<Rightarrow> ms @ [dev]))) is acc = Inr ms"
    if "set is \<subseteq> set (dx_identifiers x)" for "is" acc
    using that
  proof (induction "is" arbitrary: acc)
    case (Cons i "is")
    then obtain m where "strong_owner db org site i = Inr m" using strong_owner_total valid by fastforce
    with Cons show ?case by simp
  qed simp
  then obtain ms where "foldR (\<lambda>i ms. bindR (strong_owner db org site i) (\<lambda>m.
      Inr (case m of None \<Rightarrow> ms | Some dev \<Rightarrow> ms @ [dev])))
      (filter (\<lambda>i. kind_strength (ni_kind i) = Strong) (dx_identifiers x)) [] = Inr ms"
    by (meson filter_is_subset)
  then show ?thesis by (simp add: strong_matches_def)
qed

text \<open>After its upsert an identifier stands in the table for its device, and later steps keep it there.\<close>

definition owned :: "inventory_db \<Rightarrow> uuid \<Rightarrow> uuid \<Rightarrow> uuid \<Rightarrow> new_identifier \<Rightarrow> bool" where
  "owned db org site dev i \<longleftrightarrow> (\<exists>q \<in> set (iv_identifiers db). stands_for org site i q
     \<and> ir_device_id q = dev \<and> ir_strength q = strength_as_str (kind_strength (ni_kind i)))"

lemma owned_kept:
  assumes "owned db org site dev i" and "kept db db'"
  shows "owned db' org site dev i"
proof -
  from assms obtain q q' where "stands_for org site i q" "ir_device_id q = dev"
    "ir_strength q = strength_as_str (kind_strength (ni_kind i))"
    "q' \<in> set (iv_identifiers db')" "same_owner q q'"
    unfolding owned_def kept_def by blast
  then show ?thesis
    unfolding owned_def
    by (intro bexI [of _ q']) (simp_all add: stands_for_def same_owner_def same_identity_def)
qed

lemma upsert_identifier_owned:
  assumes "upsert_identifier env org site dev t i db = Inr db'" and "base_inv db"
  shows "owned db' org site dev i"
  using assms(1)
proof (cases rule: upsert_identifier_cases)
  case (refresh n ns new)
  then obtain q where q: "q \<in> set (iv_identifiers db)" "identifier_hit new q" by blast
  have new: "ir_kind new = kind_as_str (ni_kind i)" "ir_normalized_value new = n"
    "ir_identity_namespace new = ns" "ir_device_id new = dev" "ir_organization_id new = org"
    "ir_site_id new = site"
    by (simp_all add: refresh(1) identifier_row_of_def)
  have "identifier_ok q" using assms(2) q(1) by (simp add: base_inv_def identifiers_ok_def)
  then obtain k where k: "ir_kind q = kind_as_str k" "ir_strength q = strength_as_str (kind_strength k)"
    by (auto simp: identifier_ok_def)
  moreover have "k = ni_kind i"
    using q(2) k(1) new(1) by (simp add: identifier_hit_def device_clash_def same_identity_def kind_as_str_inj)
  moreover have "refreshed new q \<in> set (iv_identifiers db')"
    using q imageI [OF q(1), of "\<lambda>r. if identifier_hit new r then refreshed new r else r"]
    by (simp add: refresh(5) set_upd_where del: image_eqI)
  ultimately show ?thesis
    using q(2) refresh(2,3) new unfolding owned_def
    by (intro bexI [of _ "refreshed new q"])
      (simp_all add: stands_for_def identifier_hit_def device_clash_def same_identity_def)
next
  case (insert n ns new)
  then show ?thesis
    unfolding owned_def by (intro bexI [of _ new]) (simp_all add: stands_for_def identifier_row_of_def)
qed

lemma identifiers_owned:
  assumes "foldR (upsert_identifier env org site dev t) is db = Inr db'" and "base_inv db"
    and "i \<in> set is"
  shows "owned db' org site dev i"
  using assms
proof (induction "is" arbitrary: db)
  case (Cons j "is")
  then obtain db1 where s: "upsert_identifier env org site dev t j db = Inr db1"
    "foldR (upsert_identifier env org site dev t) is db1 = Inr db'"
    by (auto simp: bindR_Inr_iff)
  have b1: "base_inv db1" by (rule upsert_identifier_keeps(1) [OF s(1) Cons.prems(2)])
  show ?case
  proof (cases "i = j")
    case True
    have "kept db1 db'" using identifiers_keep [OF s(2) b1] by (simp add: data_only_def)
    with True show ?thesis using owned_kept [OF upsert_identifier_owned [OF s(1) Cons.prems(2)]] by simp
  next
    case False
    with Cons show ?thesis using s(2) b1 by simp
  qed
qed simp

lemma records_kept:
  assumes "write_mutation_records env tk c action event_type v before (Some (view_json env v)) db = Inr db'"
  shows "kept db db'"
  using write_mutation_records_effect(2) [OF assms] by (auto intro: kept_subset)

lemma reconcile_known_owned:
  assumes "reconcile_known env tk c x t dev db = Inr (db', v)" and base: "base_inv db"
    and i: "i \<in> set (dx_identifiers x)"
  shows "owned db' (mx_organization_id c) (mx_site_id c) dev i"
  using assms(1)
proof (rule reconcile_known_steps)
  fix db1 db2 db3 current
  assume s: "foldR (upsert_identifier env (mx_organization_id c) (mx_site_id c) dev (Some t))
       (dx_identifiers x) db = Inr db1"
    "persist_observed_facts (tk_now tk) (mx_organization_id c) (mx_site_id c) dev t x db1 = Inr db2"
    "apply_observed_canonical_fields (tk_now tk) dev x t db2 = Inr db3"
    "write_mutation_records env tk c ''inventory.device.reconcile'' ''inventory.device.observed'' v
       (Some (view_json env current)) (Some (view_json env v)) db3 = Inr db'"
  have b1: "base_inv db1" using identifiers_keep [OF s(1) base] by blast
  have "kept db1 db2"
    using facts_keep [OF disjI2 [OF s(2) [unfolded persist_observed_facts_def]] b1] by (simp add: data_only_def)
  moreover have "kept db2 db3"
    using update_devices_effect(1) [OF s(3) [unfolded apply_observed_canonical_fields_def]]
    by (simp add: kept_subset)
  ultimately have "kept db1 db'" using records_kept [OF s(4)] kept_trans by blast
  then show ?thesis by (rule owned_kept [OF identifiers_owned [OF s(1) base i]])
qed

lemma reconcile_new_owned:
  assumes "reconcile_new env tk c x t db = Inr (db', v)" and base: "base_inv db"
    and i: "i \<in> set (dx_identifiers x)"
  shows "owned db' (mx_organization_id c) (mx_site_id c) (tk_device_id tk) i"
  using assms(1)
proof (rule reconcile_new_steps)
  let ?dev = "tk_device_id tk"
  fix db1 db2 db3 db4
  assume s: "insert_device (observed_row tk c x t) db = Inr db1"
    "foldR (upsert_identifier env (mx_organization_id c) (mx_site_id c) ?dev (Some t)) (dx_identifiers x) db1
       = Inr db2"
    "persist_observed_facts (tk_now tk) (mx_organization_id c) (mx_site_id c) ?dev t x db2 = Inr db3"
    "append_lifecycle_event (tk_now tk) c ?dev None Discovered (Some ''discovery'') db3 = Inr db4"
    "write_mutation_records env tk c ''inventory.device.discovery.create''
       ''inventory.device.discovered'' v None (Some (view_json env v)) db4 = Inr db'"
  have b1: "base_inv db1" by (rule insert_device_base [OF s(1) base observed_row_ok])
  have b2: "base_inv db2" using identifiers_keep [OF s(2) b1] by blast
  have "kept db2 db3"
    using facts_keep [OF disjI2 [OF s(3) [unfolded persist_observed_facts_def]] b2] by (simp add: data_only_def)
  moreover have "kept db3 db4"
    using s(4) by (rule append_lifecycle_event_effect) (simp add: kept_subset)
  ultimately have "kept db2 db'" using records_kept [OF s(5)] kept_trans by blast
  then show ?thesis by (rule owned_kept [OF identifiers_owned [OF s(2) b1 i]])
qed

lemma reconcile_owned:
  assumes obs: "reconcile_observation env tk c x db = Inr (db', res)" and base: "base_inv db"
    and i: "i \<in> set (dx_identifiers x)" and v: "res = Created v \<or> res = Updated v"
  shows "owned db' (mx_organization_id c) (mx_site_id c) (vw_id v) i"
  using obs
proof (cases rule: reconcile_steps)
  case (known dev w)
  have "vw_id w = dev"
    using reconcile_known_mutation [OF known(4) base] loaded_id by (auto simp: mutation_def)
  then show ?thesis using reconcile_known_owned [OF known(4) base i] known(5) v by auto
next
  case (fresh w)
  have "vw_id w = tk_device_id tk"
    using reconcile_new_mutation [OF fresh(4) base] loaded_id by (auto simp: mutation_def)
  then show ?thesis using reconcile_new_owned [OF fresh(4) base i] fresh(5) v by auto
qed

lemma owned_strong_match:
  assumes own: "owned db org site dev i" and ids: "identifiers_ok db"
    and strong: "kind_strength (ni_kind i) = Strong" and i: "i \<in> set is"
    and ms: "strong_matches db org site is = Inr ms"
  shows "dev \<in> set ms"
proof -
  obtain q where "q \<in> set (iv_identifiers db)" "stands_for org site i q" "ir_device_id q = dev"
    "ir_strength q = ''strong''"
    using own strong by (auto simp: owned_def)
  then have "strong_owner db org site i = Inr (Some dev)" using strong_owner_stands [OF ids] by blast
  then show ?thesis using strong_matches_spec(1) [OF ms] strong i by blast
qed

text \<open>Observed facts declare nothing, and identifiers touch no facts.\<close>

lemma observed_fact_declared:
  assumes "upsert_observed_fact now org site dev t fv db = Inr db'"
  shows "declared db' d f = declared db d f"
  using assms unfolding upsert_observed_fact_def
proof (cases rule: upsert_fact_cases)
  case rewrite
  have "list_ex (\<lambda>q. fa_device_id q = d \<and> fa_field_name q = f \<and> fa_provenance q = ''declared'')
        (upd_where p (rewritten g) rows)
      = list_ex (\<lambda>q. fa_device_id q = d \<and> fa_field_name q = f \<and> fa_provenance q = ''declared'') rows"
    for p g rows
    by (induction rows) (simp_all add: upd_where_def)
  then show ?thesis by (simp add: rewrite(1) declared_def)
qed (simp add: declared_def)

lemma observed_facts_declared:
  assumes "persist_observed_facts now org site dev t x db = Inr db'"
  shows "declared db' d f = declared db d f"
  by (rule foldR_invariant [OF assms [unfolded persist_observed_facts_def],
        where P = "\<lambda>s. declared s d f = declared db d f"])
    (simp_all add: observed_fact_declared)

lemma identifiers_facts:
  assumes "foldR (upsert_identifier env org site dev t) is db = Inr db'" and "base_inv db"
  shows "iv_facts db' = iv_facts db"
proof -
  have "base_inv db' \<and> iv_facts db' = iv_facts db"
    by (rule foldR_invariant [OF assms(1), where P = "\<lambda>s. base_inv s \<and> iv_facts s = iv_facts db"])
      (use assms(2) upsert_identifier_keeps(1,4) in auto)
  then show ?thesis ..
qed

text \<open>The view an observation returns, and the row it was made from.\<close>

lemma reconcile_known_row:
  assumes "reconcile_known env tk c x t dev db = Inr (db', v)" and base: "base_inv db"
  shows "\<exists>u r db2. loaded db (mx_organization_id c) (mx_site_id c) dev = Inr u
    \<and> vw_lifecycle u \<notin> {Retired, Archived} \<and> row_to_device r = Inr u
    \<and> row_to_device (bumped (tk_now tk) (observe_row db2 x t) r) = Inr v \<and> dv_id r = dev
    \<and> (\<forall>f. declared db2 dev f = declared db dev f)"
  using assms(1)
proof (rule reconcile_known_steps)
  let ?org = "mx_organization_id c" and ?site = "mx_site_id c"
  fix db1 db2 db3 u
  assume s: "loaded db ?org ?site dev = Inr u" "vw_lifecycle u \<noteq> Retired" "vw_lifecycle u \<noteq> Archived"
    "foldR (upsert_identifier env ?org ?site dev (Some t)) (dx_identifiers x) db = Inr db1"
    "persist_observed_facts (tk_now tk) ?org ?site dev t x db1 = Inr db2"
    "apply_observed_canonical_fields (tk_now tk) dev x t db2 = Inr db3"
    "loaded db3 ?org ?site dev = Inr v"
  note k1 = identifiers_keep [OF s(4) base]
  have k2: "base_inv db2 \<and> data_only db1 db2"
    using facts_keep [OF disjI2 [OF s(5) [unfolded persist_observed_facts_def]]] k1 by blast
  have decl: "declared db2 dev f = declared db dev f" for f
    using observed_facts_declared [OF s(5)] identifiers_facts [OF s(4) base] by (simp add: declared_def)
  obtain q where q: "q \<in> set (iv_devices db3)" "in_scope ?org ?site dev q" "row_to_device q = Inr v"
    using s(7) by (rule loaded_Inr)
  have dev: "iv_devices db3 = upd_where (\<lambda>r. dv_id r = dev) (bumped (tk_now tk) (observe_row db2 x t)) (iv_devices db)"
    using update_devices_effect(1) [OF s(6) [unfolded apply_observed_canonical_fields_def]] k1 k2
    by (simp add: data_only_def)
  obtain r where r: "r \<in> set (iv_devices db)"
    "q = (if dv_id r = dev then bumped (tk_now tk) (observe_row db2 x t) r else r)"
    using q(1) by (auto simp: dev table_simps)
  have "dv_id r = dev" using q(2) r(2) by (auto simp: in_scope_def split: if_splits)
  then have q_r: "q = bumped (tk_now tk) (observe_row db2 x t) r" using r(2) by simp
  then have "in_scope ?org ?site dev r" using q(2) bumped_scope(4) [OF observe_row_keeps] by simp
  then have "row_to_device r = Inr u" by (rule loaded_hit [OF s(1) base r(1)])
  with s(1-3) q(3) q_r decl \<open>dv_id r = dev\<close> show ?thesis by blast
qed

lemma reconcile_known_view:
  assumes "reconcile_known env tk c x t dev db = Inr (db', v)" and "base_inv db"
  shows "vw_id v = dev \<and> (\<exists>u. loaded db (mx_organization_id c) (mx_site_id c) dev = Inr u
    \<and> vw_lifecycle u \<notin> {Retired, Archived} \<and> vw_lifecycle v = vw_lifecycle u
    \<and> vw_version v = vw_version u + 1)"
proof -
  obtain u r db2 where h: "loaded db (mx_organization_id c) (mx_site_id c) dev = Inr u"
    "vw_lifecycle u \<notin> {Retired, Archived}" "row_to_device r = Inr u"
    "row_to_device (bumped (tk_now tk) (observe_row db2 x t) r) = Inr v" "dv_id r = dev"
    using reconcile_known_row [OF assms] by blast
  have "lifecycle_as_str (vw_lifecycle v) = lifecycle_as_str (vw_lifecycle u)"
    using row_to_device_Inr(1) [OF h(3)] row_to_device_Inr(1) [OF h(4)]
    by (simp add: bumped_state observe_row_state)
  then have "vw_lifecycle v = vw_lifecycle u" by (simp add: lifecycle_codec.as_str_inj)
  moreover have "vw_version v = vw_version u + 1"
    using row_to_device_Inr(4) [OF h(3)] row_to_device_Inr(4) [OF h(4)] by (simp add: bumped_def)
  moreover have "vw_id v = dev"
    using row_to_device_Inr(3) [OF h(4)] bumped_scope(1) [OF observe_row_keeps] h(5) by simp
  ultimately show ?thesis using h(1,2) by blast
qed

lemma reconcile_new_view:
  assumes "reconcile_new env tk c x t db = Inr (db', v)" and base: "base_inv db"
  shows "vw_lifecycle v = Discovered \<and> vw_version v = 1"
  using assms(1)
proof (rule reconcile_new_steps)
  let ?org = "mx_organization_id c" and ?site = "mx_site_id c" and ?dev = "tk_device_id tk"
  let ?r = "observed_row tk c x t"
  fix db1 db2 db3 db4
  assume s: "insert_device ?r db = Inr db1"
    "foldR (upsert_identifier env ?org ?site ?dev (Some t)) (dx_identifiers x) db1 = Inr db2"
    "persist_observed_facts (tk_now tk) ?org ?site ?dev t x db2 = Inr db3"
    "append_lifecycle_event (tk_now tk) c ?dev None Discovered (Some ''discovery'') db3 = Inr db4"
    "loaded db4 ?org ?site ?dev = Inr v"
  note i = insert_device_effect [OF s(1)]
  have b1: "base_inv db1" by (rule insert_device_base [OF s(1) base observed_row_ok])
  note k2 = identifiers_keep [OF s(2) b1]
  have k3: "base_inv db3 \<and> data_only db2 db3"
    using facts_keep [OF disjI2 [OF s(3) [unfolded persist_observed_facts_def]]] k2 by blast
  have "iv_devices db4 = iv_devices db3" using s(4) by (rule append_lifecycle_event_effect) simp
  then have dev: "iv_devices db4 = iv_devices db @ [?r]" using k2 k3 i(1) by (simp add: data_only_def)
  have row: "dv_id ?r = ?dev" "dv_lifecycle_state ?r = ''discovered''" "dv_version ?r = 1"
    by (simp_all add: observed_row_def)
  obtain q where q: "q \<in> set (iv_devices db4)" "in_scope ?org ?site ?dev q" "row_to_device q = Inr v"
    using s(5) by (rule loaded_Inr)
  then have "q = ?r" using i(2) row(1) by (auto simp: dev in_scope_def image_iff)
  then have "lifecycle_as_str (vw_lifecycle v) = lifecycle_as_str Discovered" "vw_version v = 1"
    using row_to_device_Inr [OF q(3)] row by simp_all
  then show ?thesis by (simp only: lifecycle_codec.as_str_inj)
qed

section \<open>Properties\<close>

text \<open>C16: A device once identified is recognised. After an observation with a strong identifier has been
  reconciled to a device, no later observation in that site that carries the identifier creates another
  device or updates a different one, whatever transactions happened in between: if it is accepted, it
  updates that device.\<close>

theorem identified_device_recognised:
  assumes laws: "audit_laws (ie_audit_ops env)" and inv: "inventory_inv env db" and ms: "in_i64 (tk_utc_ms tk)"
    and obs: "reconcile_observation env tk c x db = Inr (db1, res)" "res = Created v \<or> res = Updated v"
    and i: "i \<in> set (dx_identifiers x)" "kind_strength (ni_kind i) = Strong"
    and later: "(inventory_step env)\<^sup>*\<^sup>* db1 db2"
    and again: "reconcile_observation env tk' c' x' db2 = Inr (db3, res')" "i \<in> set (dx_identifiers x')"
      "mx_organization_id c' = mx_organization_id c" "mx_site_id c' = mx_site_id c"
  shows "\<exists>w. res' = Updated w \<and> vw_id w = vw_id v"
proof -
  have base: "base_inv db" using inv by (simp add: inventory_inv_def)
  have own: "owned db1 (mx_organization_id c) (mx_site_id c) (vw_id v) i"
    by (rule reconcile_owned [OF obs(1) base i(1) obs(2)])
  have "commits env tk c db db1 v"
    using obs by (auto intro: commits.intros)
  then have "inventory_inv env db1" using inventory_step_keeps [OF laws step_commit [OF ms] inv] by blast
  note r = inventory_reach [OF laws later this]
  have b2: "base_inv db2" and "kept db1 db2"
    using r by (simp_all add: inventory_inv_def inventory_forward_def)
  then have own2: "owned db2 (mx_organization_id c') (mx_site_id c') (vw_id v) i"
    using owned_kept [OF own] again(3,4) by simp
  have ids: "identifiers_ok db2" using b2 by (simp add: base_inv_def)
  from again(1) show ?thesis
  proof (cases rule: reconcile_steps)
    case (known dev w)
    have "vw_id v = dev" using owned_strong_match [OF own2 ids i(2) again(2) known(3)] by simp
    moreover have "vw_id w = dev"
      using reconcile_known_mutation [OF known(4) b2] loaded_id by (auto simp: mutation_def)
    ultimately show ?thesis using known(5) by simp
  next
    case (fresh w)
    then show ?thesis using owned_strong_match [OF own2 ids i(2) again(2) fresh(3)] by simp
  qed
qed

text \<open>C27: What becomes of an observation. A valid observation collects, without repetition, the devices of
  its site that hold one of its strong identifiers. Several of them are a conflict that names them all;
  a single retired or archived one is refused for review; a single other one is updated and keeps its
  lifecycle state; with none a device in state \<open>Discovered\<close> is created.\<close>

theorem reconcile_outcome:
  assumes "context_validate c = Inr ()" and "observation_validate x = Inr ()" and base: "base_inv db"
  shows "\<exists>ms. distinct ms
    \<and> set ms = {ir_device_id q | q i. q \<in> set (iv_identifiers db) \<and> ir_strength q = ''strong''
        \<and> i \<in> set (dx_identifiers x) \<and> kind_strength (ni_kind i) = Strong
        \<and> stands_for (mx_organization_id c) (mx_site_id c) i q}
    \<and> (1 < length ms \<longrightarrow> reconcile_observation env tk c x db = Inl (InvReconciliationConflict ms))
    \<and> (\<forall>d u. ms = [d] \<and> loaded db (mx_organization_id c) (mx_site_id c) d = Inr u
         \<and> (vw_lifecycle u = Retired \<or> vw_lifecycle u = Archived)
         \<longrightarrow> reconcile_observation env tk c x db = Inl (InvReactivationRequiresReview d))
    \<and> (\<forall>db' v. reconcile_observation env tk c x db = Inr (db', Updated v) \<longrightarrow> ms = [vw_id v]
         \<and> (\<exists>u. loaded db (mx_organization_id c) (mx_site_id c) (vw_id v) = Inr u
              \<and> vw_lifecycle u \<notin> {Retired, Archived} \<and> vw_lifecycle v = vw_lifecycle u
              \<and> vw_version v = vw_version u + 1))
    \<and> (\<forall>db' v. reconcile_observation env tk c x db = Inr (db', Created v) \<longrightarrow> ms = []
         \<and> vw_lifecycle v = Discovered \<and> vw_version v = 1)"
proof -
  let ?org = "mx_organization_id c" and ?site = "mx_site_id c"
  obtain ms where ms: "strong_matches db ?org ?site (dx_identifiers x) = Inr ms"
    using strong_matches_total [OF assms(2)] by blast
  have ids: "identifiers_ok db" using base by (simp add: base_inv_def)
  have set_ms: "set ms = {ir_device_id q | q i. q \<in> set (iv_identifiers db) \<and> ir_strength q = ''strong''
        \<and> i \<in> set (dx_identifiers x) \<and> kind_strength (ni_kind i) = Strong \<and> stands_for ?org ?site i q}"
    unfolding strong_matches_spec(1) [OF ms]
    using strong_owner_stands [OF ids] strong_owner_Some [of db ?org ?site] by blast
  have conflict: "1 < length ms \<longrightarrow> reconcile_observation env tk c x db = Inl (InvReconciliationConflict ms)"
    by (simp add: reconcile_observation_def assms ms)
  have review: "\<forall>d u. ms = [d] \<and> loaded db ?org ?site d = Inr u
      \<and> (vw_lifecycle u = Retired \<or> vw_lifecycle u = Archived)
      \<longrightarrow> reconcile_observation env tk c x db = Inl (InvReactivationRequiresReview d)"
    by (auto simp: reconcile_observation_def assms ms reconcile_known_def Let_def)
  have updated: "\<forall>db' v. reconcile_observation env tk c x db = Inr (db', Updated v) \<longrightarrow> ms = [vw_id v]
      \<and> (\<exists>u. loaded db ?org ?site (vw_id v) = Inr u \<and> vw_lifecycle u \<notin> {Retired, Archived}
           \<and> vw_lifecycle v = vw_lifecycle u \<and> vw_version v = vw_version u + 1)"
  proof (intro allI impI)
    fix db' v assume "reconcile_observation env tk c x db = Inr (db', Updated v)"
    then show "ms = [vw_id v] \<and> (\<exists>u. loaded db ?org ?site (vw_id v) = Inr u
        \<and> vw_lifecycle u \<notin> {Retired, Archived} \<and> vw_lifecycle v = vw_lifecycle u
        \<and> vw_version v = vw_version u + 1)"
    proof (cases rule: reconcile_steps)
      case (known dev w)
      then show ?thesis using reconcile_known_view [OF known(4) base] ms by auto
    qed simp
  qed
  have created: "\<forall>db' v. reconcile_observation env tk c x db = Inr (db', Created v) \<longrightarrow> ms = []
      \<and> vw_lifecycle v = Discovered \<and> vw_version v = 1"
  proof (intro allI impI)
    fix db' v assume "reconcile_observation env tk c x db = Inr (db', Created v)"
    then show "ms = [] \<and> vw_lifecycle v = Discovered \<and> vw_version v = 1"
    proof (cases rule: reconcile_steps)
      case (fresh w)
      then show ?thesis using reconcile_new_view [OF fresh(4) base] ms by auto
    qed simp
  qed
  show ?thesis
    by (rule exI [of _ ms]) (intro conjI strong_matches_spec(2) [OF ms] set_ms conflict review updated created)
qed

lemma row_to_device_columns:
  assumes "row_to_device r = Inr v"
  shows "vw_display_name v = dv_display_name r \<and> vw_hostname v = dv_hostname r \<and> vw_vendor v = dv_vendor r
    \<and> vw_model v = dv_model r \<and> vw_serial_number v = dv_serial_number r \<and> vw_os_name v = dv_os_name r
    \<and> vw_os_version v = dv_os_version r \<and> vw_firmware_version v = dv_firmware_version r
    \<and> vw_description v = dv_description r \<and> vw_operational_owner v = dv_operational_owner r
    \<and> vw_capabilities v = dv_capabilities r"
  using assms by (auto simp: row_to_device_def bindR_Inr_iff)

lemma observe_columns:
  defines "q \<equiv> \<lambda>now db x t r. bumped now (observe_row db x t) r"
  shows "dv_display_name (q now db x t r) = observed_value db (dv_id r) ''display_name''
      (clean_optional (dx_display_name x)) (dv_display_name r)"
    and "dv_hostname (q now db x t r) = observed_value db (dv_id r) ''hostname''
      (clean_optional (dx_hostname x)) (dv_hostname r)"
    and "dv_vendor (q now db x t r) = observed_value db (dv_id r) ''vendor''
      (clean_optional (dx_vendor x)) (dv_vendor r)"
    and "dv_model (q now db x t r) = observed_value db (dv_id r) ''model''
      (clean_optional (dx_model x)) (dv_model r)"
    and "dv_os_name (q now db x t r) = observed_value db (dv_id r) ''os_name''
      (clean_optional (dx_os_name x)) (dv_os_name r)"
    and "dv_os_version (q now db x t r) = observed_value db (dv_id r) ''os_version''
      (clean_optional (dx_os_version x)) (dv_os_version r)"
    and "dv_firmware_version (q now db x t r) = observed_value db (dv_id r) ''firmware_version''
      (clean_optional (dx_firmware_version x)) (dv_firmware_version r)"
    and "dv_device_type (q now db x t r) = (if \<not> declared db (dv_id r) ''device_type''
      then device_type_as_str (dx_device_type x) else dv_device_type r)"
    and "dv_capabilities (q now db x t r) = (if dx_capabilities x \<noteq> [] \<and> \<not> declared db (dv_id r) ''capabilities''
      then dx_capabilities x else dv_capabilities r)"
    and "dv_description (q now db x t r) = dv_description r"
    and "dv_operational_owner (q now db x t r) = dv_operational_owner r"
    and "dv_serial_number (q now db x t r) = dv_serial_number r"
  by (simp_all add: q_def bumped_def observe_row_def Let_def)

definition observed_texts ::
  "(string \<times> (device_view \<Rightarrow> string option) \<times> (device_observation \<Rightarrow> string option)) list" where
  "observed_texts = [(''display_name'', vw_display_name, dx_display_name),
     (''hostname'', vw_hostname, dx_hostname), (''vendor'', vw_vendor, dx_vendor),
     (''model'', vw_model, dx_model), (''os_name'', vw_os_name, dx_os_name),
     (''os_version'', vw_os_version, dx_os_version),
     (''firmware_version'', vw_firmware_version, dx_firmware_version)]"

text \<open>C33: Declared values win. When an observation updates a device, each of its text fields takes the
  observed value exactly when the observation has one and nobody has declared the field, and otherwise
  stays; the same holds of the device type and of the capabilities; the description, the owner and the
  serial number never change.\<close>

theorem declared_values_stay:
  assumes "reconcile_observation env tk c x db = Inr (db', Updated v)" and base: "base_inv db"
    and "loaded db (mx_organization_id c) (mx_site_id c) (vw_id v) = Inr u"
  shows "(\<forall>(field, get, seen) \<in> set observed_texts. get v =
       (if clean_optional (seen x) \<noteq> None \<and> \<not> declared db (vw_id v) field
        then clean_optional (seen x) else get u))
    \<and> vw_device_type v = (if declared db (vw_id v) ''device_type'' then vw_device_type u else dx_device_type x)
    \<and> vw_capabilities v = (if dx_capabilities x \<noteq> [] \<and> \<not> declared db (vw_id v) ''capabilities''
        then dx_capabilities x else vw_capabilities u)
    \<and> vw_description v = vw_description u \<and> vw_operational_owner v = vw_operational_owner u
    \<and> vw_serial_number v = vw_serial_number u"
  using assms(1)
proof (cases rule: reconcile_steps)
  case (known dev w)
  let ?t = "patched (dx_observed_at x) (tk_utc tk)"
  obtain u' r db2 where h: "loaded db (mx_organization_id c) (mx_site_id c) dev = Inr u'"
    "row_to_device r = Inr u'" "row_to_device (bumped (tk_now tk) (observe_row db2 x ?t) r) = Inr w"
    "dv_id r = dev" "\<forall>f. declared db2 dev f = declared db dev f"
    using reconcile_known_row [OF known(4) base] by blast
  have vw: "v = w" "vw_id v = dev" using known(5) reconcile_known_view [OF known(4) base] by simp_all
  then have u: "u' = u" using h(1) assms(3) by simp
  have decl: "declared db2 (dv_id r) = declared db (vw_id v)" using h(4,5) vw(2) by (simp add: fun_eq_iff)
  then have val: "observed_value db2 (dv_id r) = observed_value db (vw_id v)"
    by (simp add: observed_value_def fun_eq_iff)
  have "device_type_as_str (vw_device_type v) = device_type_as_str
      (if declared db (vw_id v) ''device_type'' then vw_device_type u else dx_device_type x)"
    using row_to_device_Inr(2) [OF h(2)] row_to_device_Inr(2) [OF h(3)]
    by (simp add: observe_columns decl vw(1) u)
  then have type: "vw_device_type v
      = (if declared db (vw_id v) ''device_type'' then vw_device_type u else dx_device_type x)"
    by (simp only: device_type_codec.as_str_inj)
  have texts: "get v = observed_value db (vw_id v) field (clean_optional (seen x)) (get u)"
    if "(field, get, seen) \<in> set observed_texts" for field get seen
    using that row_to_device_columns [OF h(2)] row_to_device_columns [OF h(3)]
    unfolding observed_texts_def observe_columns val vw(1) u by auto
  have caps: "vw_capabilities v = (if dx_capabilities x \<noteq> [] \<and> \<not> declared db (vw_id v) ''capabilities''
        then dx_capabilities x else vw_capabilities u)
      \<and> vw_description v = vw_description u \<and> vw_operational_owner v = vw_operational_owner u
      \<and> vw_serial_number v = vw_serial_number u"
    using row_to_device_columns [OF h(2)] row_to_device_columns [OF h(3)]
    unfolding observe_columns decl vw(1) u by simp
  show ?thesis
    using type texts caps unfolding observed_value_def by blast
qed simp

section \<open>An example\<close>

definition demo_observation :: "string option \<Rightarrow> device_observation" where
  "demo_observation vendor = \<lparr>dx_device_type = Switch, dx_display_name = None, dx_hostname = None,
     dx_vendor = vendor, dx_model = None, dx_os_name = None, dx_os_version = None,
     dx_firmware_version = None, dx_capabilities = [], dx_identifiers = [\<lparr>ni_kind = Serial,
       ni_value = ''S1'', ni_source = ''d'', ni_confidence = None\<rparr>], dx_observed_at = Some 50\<rparr>"

definition seen_view :: device_view where
  "seen_view = \<lparr>vw_id = 10, vw_organization_id = 2, vw_site_id = 20, vw_lifecycle = Discovered,
     vw_device_type = Switch, vw_display_name = None, vw_hostname = None, vw_vendor = None,
     vw_model = None, vw_serial_number = Some ''S1'', vw_os_name = None, vw_os_version = None,
     vw_firmware_version = None, vw_description = None, vw_operational_owner = None,
     vw_capabilities = [], vw_version = 1, vw_last_seen_at = Some 50, vw_last_changed_at = 100,
     vw_onboarded_at = None, vw_retired_at = None, vw_retirement_reason = None\<rparr>"

definition seen_view2 :: device_view where
  "seen_view2 = seen_view\<lparr>vw_vendor := Some ''V'', vw_version := 2, vw_last_changed_at := 101\<rparr>"

definition seen_env :: inventory_env where
  "seen_env = plain_env\<lparr>ie_audit_ops := listed_ops [
     null_to_none (sanitize (mutation_draft plain_env 0 staff_context
       ''inventory.device.discovery.create'' seen_view None (Some (view_json plain_env seen_view)))),
     null_to_none (sanitize (mutation_draft plain_env 1 staff_context ''inventory.device.reconcile''
       seen_view2 (Some (view_json plain_env seen_view)) (Some (view_json plain_env seen_view2))))]\<rparr>"

definition seen_first :: "inventory_error + (inventory_db \<times> reconciliation_result)" where
  "seen_first = reconcile_observation seen_env (demo_tick 0) staff_context (demo_observation None)
     demo_inventory"

definition seen_db :: inventory_db where
  "seen_db = (case seen_first of Inr (db, _) \<Rightarrow> db | Inl _ \<Rightarrow> demo_inventory)"

definition seen_second :: "inventory_error + (inventory_db \<times> reconciliation_result)" where
  "seen_second = reconcile_observation seen_env (demo_tick 1) staff_context
     (demo_observation (Some ''V'')) seen_db"

definition seen_db2 :: inventory_db where
  "seen_db2 = (case seen_second of Inr (db, _) \<Rightarrow> db | Inl _ \<Rightarrow> demo_inventory)"

lemma seen_first: "reconcile_observation seen_env (demo_tick 0) staff_context (demo_observation None)
    demo_inventory = Inr (seen_db, Created seen_view)"
proof -
  have "(case seen_first of Inr (_, Created v) \<Rightarrow> v = seen_view | _ \<Rightarrow> False)" by code_simp
  then show ?thesis
    by (cases seen_first) (auto simp: seen_first_def seen_db_def split: reconciliation_result.splits)
qed

lemma seen_second: "reconcile_observation seen_env (demo_tick 1) staff_context
    (demo_observation (Some ''V'')) seen_db = Inr (seen_db2, Updated seen_view2)"
proof -
  have "(case seen_second of Inr (_, Updated v) \<Rightarrow> v = seen_view2 | _ \<Rightarrow> False)" by code_simp
  then show ?thesis
    by (cases seen_second) (auto simp: seen_second_def seen_db2_def split: reconciliation_result.splits)
qed

lemma seen_laws: "audit_laws (ie_audit_ops seen_env)"
  by (simp add: seen_env_def plain_env_def listed_ops_laws)

lemma empty_inv: "inventory_inv env demo_inventory"
  using demo_inventory_inv by (simp add: inventory_inv_def all_chained_def demo_inventory_def sealed_rows_def)

lemma seen_base: "base_inv seen_db"
  by (rule commits_outcome(3) [OF commit_new [OF seen_first] demo_base])

theorem identified_device_recognised_witness:
  "\<exists>w. Updated seen_view2 = Updated w \<and> vw_id w = vw_id seen_view"
proof -
  let ?i = "\<lparr>ni_kind = Serial, ni_value = ''S1'', ni_source = ''d'', ni_confidence = None\<rparr>"
  have i: "?i \<in> set (dx_identifiers (demo_observation y))" for y by (simp add: demo_observation_def)
  have k: "kind_strength (ni_kind ?i) = Strong" by (simp add: kind_strength_def)
  have ms: "in_i64 (tk_utc_ms (demo_tick 0))" by code_simp
  show ?thesis
    by (rule identified_device_recognised [OF seen_laws empty_inv ms seen_first disjI1 [OF refl] i k
          rtranclp.rtrancl_refl seen_second i refl refl])
qed

theorem reconcile_outcome_witness:
  "vw_lifecycle seen_view = Discovered \<and> vw_version seen_view = 1"
proof -
  have v: "context_validate staff_context = Inr ()"
    "observation_validate (demo_observation None) = Inr ()" by code_simp+
  show ?thesis using reconcile_outcome [OF v demo_base, of seen_env "demo_tick 0"] seen_first by blast
qed

theorem declared_values_stay_witness:
  "vw_vendor seen_view2 = Some ''V'' \<and> vw_serial_number seen_view2 = Some ''S1''"
proof -
  have "vw_id seen_view2 = vw_id seen_view" by (simp add: seen_view2_def)
  then have l: "loaded seen_db (mx_organization_id staff_context) (mx_site_id staff_context)
      (vw_id seen_view2) = Inr seen_view"
    using commits_outcome(1) [OF commit_new [OF seen_first] demo_base] by simp
  have "\<not> declared seen_db 10 ''vendor''" by code_simp
  moreover have "clean_optional (Some ''V'') = Some ''V''" by code_simp
  ultimately show ?thesis
    using declared_values_stay [OF seen_second seen_base l]
    by (simp add: observed_texts_def demo_observation_def seen_view2_def seen_view_def)
qed

section \<open>Two remarks\<close>

text \<open>A host name that a manual creation takes from an identifier is not declared, so the next observation
  with a host name replaces it.\<close>

lemma identifier_hostname_not_declared:
  "nd_hostname d = None \<Longrightarrow> ''hostname'' \<notin> fst ` set (declared_fields d)"
proof -
  have "''hostname'' \<notin> fst ` set (present [(''vendor'', nd_vendor d), (''model'', nd_model d),
      (''os_name'', nd_os_name d), (''os_version'', nd_os_version d),
      (''firmware_version'', nd_firmware_version d), (''description'', nd_description d),
      (''operational_owner'', nd_operational_owner d)])"
    by (cases "nd_vendor d"; cases "nd_model d"; cases "nd_os_name d"; cases "nd_os_version d";
        cases "nd_firmware_version d"; cases "nd_description d"; cases "nd_operational_owner d") simp_all
  moreover assume "nd_hostname d = None"
  ultimately show ?thesis
    by (cases "nd_display_name d") (force simp: declared_fields_def)+
qed

text \<open>An older observation sets back the time an identifier was last seen.\<close>

lemma identifier_seen_goes_back:
  "ir_last_seen_at new = Some t \<Longrightarrow> ir_last_seen_at (refreshed new q) = Some t"
  by (simp add: refreshed_def)

end
