(* ===== verification/Utf8.thy ===== *)
theory Utf8
  imports SNM_Prelude
begin

text \<open>
  Texts are strings of bytes; where the source or the database works on characters, the bytes of a
  text are grouped into them, and \<open>str::from_utf8\<close> says which bytes are a text at all.
\<close>

text \<open>A byte that continues a character lies between 128 and 191.\<close>

definition continuation :: "char \<Rightarrow> bool" where
  "continuation c \<longleftrightarrow> 128 \<le> code_of c \<and> code_of c \<le> 191"

fun utf8_chars :: "string \<Rightarrow> string list" where
  "utf8_chars [] = []"
| "utf8_chars (c # s) = (case utf8_chars s of
     [] \<Rightarrow> [[c]]
   | d # ds \<Rightarrow> if continuation (hd d) then (c # d) # ds else [c] # d # ds)"

text \<open>Well-formed UTF-8: no overlong forms, no surrogates, nothing above U+10FFFF.\<close>

fun utf8_valid :: "bytes \<Rightarrow> bool" where
  "utf8_valid [] = True"
| "utf8_valid (c # s) = (let b = code_of c in
     if b < 128 then utf8_valid s
     else if 194 \<le> b \<and> b \<le> 223 then
       (case s of c1 # t \<Rightarrow> continuation c1 \<and> utf8_valid t | [] \<Rightarrow> False)
     else if 224 \<le> b \<and> b \<le> 239 then
       (case s of c1 # c2 # t \<Rightarrow> continuation c1 \<and> continuation c2
          \<and> (b = 224 \<longrightarrow> 160 \<le> code_of c1) \<and> (b = 237 \<longrightarrow> code_of c1 \<le> 159) \<and> utf8_valid t
        | _ \<Rightarrow> False)
     else if 240 \<le> b \<and> b \<le> 244 then
       (case s of c1 # c2 # c3 # t \<Rightarrow> continuation c1 \<and> continuation c2 \<and> continuation c3
          \<and> (b = 240 \<longrightarrow> 144 \<le> code_of c1) \<and> (b = 244 \<longrightarrow> code_of c1 \<le> 143) \<and> utf8_valid t
        | _ \<Rightarrow> False)
     else False)"

lemma utf8_chars_ascii: "list_all (\<lambda>c. code_of c < 128) s \<Longrightarrow> utf8_chars s = map (\<lambda>c. [c]) s"
proof (induction s)
  case (Cons c s)
  then show ?case by (cases s) (auto simp: continuation_def)
qed simp

lemma utf8_valid_ascii: "list_all (\<lambda>c. code_of c < 128) s \<Longrightarrow> utf8_valid s"
  by (induction s) (simp_all add: Let_def)

lemma concat_utf8_chars: "concat (utf8_chars s) = s"
  by (induction s) (auto split: list.splits)

end
