(* ===== verification/Inventory_Query.thy ===== *)
theory Inventory_Query
  imports Inventory_Invariant Utf8
begin

text \<open>
  Listing devices: \<open>InventoryStore::list\<close> of \<open>crates/inventory-store/src/lib.rs\<close>. The query is built
  from the filters that are given; a search compares the lower-case text of the columns, of the
  identifiers and of the addresses with \<open>LIKE\<close>. The database's \<open>lower\<close> depends on its locale and is
  a parameter; \<open>LIKE\<close> works on characters, so the bytes of a text are grouped into them first.
\<close>

record inventory_query =
  iq_search :: "string option"
  iq_lifecycle :: "device_lifecycle option"
  iq_device_type :: "device_type option"
  iq_limit :: i64
  iq_offset :: i64

text \<open>The columns of \<open>interfaces\<close> and \<open>ip_addresses\<close> the query reads; \<open>ip_host\<close> is \<open>host(address)\<close>.\<close>

record interface_row =
  if_id :: uuid
  if_organization_id :: uuid
  if_site_id :: uuid
  if_device_id :: uuid

record ip_row =
  ip_interface_id :: uuid
  ip_host :: string

record network_db =
  nw_interfaces :: "interface_row list"
  nw_addresses :: "ip_row list"

definition query_validate :: "inventory_query \<Rightarrow> inventory_error + unit" where
  "query_validate q =
     (if \<not> (1 \<le> iq_limit q \<and> iq_limit q \<le> 200) \<or> iq_offset q < 0
      then Inl (InvInvalidInput ''pagination is invalid'')
      else if (case iq_search q of None \<Rightarrow> False | Some value \<Rightarrow> length value > 256)
      then Inl (InvInvalidInput ''search is too long'')
      else Inr ())"

section \<open>LIKE\<close>

fun like :: "string list \<Rightarrow> string list \<Rightarrow> bool" where
  "like [] t \<longleftrightarrow> t = []"
| "like (p # ps) [] \<longleftrightarrow> p = ''%'' \<and> like ps []"
| "like (p # ps) (c # t) \<longleftrightarrow>
     (if p = ''%'' then like ps (c # t) \<or> like (p # ps) t
      else if p = [CHR 0x5C] then (case ps of [] \<Rightarrow> False | q # qs \<Rightarrow> q = c \<and> like qs t)
      else if p = ''_'' then like ps t
      else p = c \<and> like ps t)"

definition sql_like :: "string \<Rightarrow> string \<Rightarrow> bool" where
  "sql_like text pattern \<longleftrightarrow> like (utf8_chars pattern) (utf8_chars text)"

section \<open>The query\<close>

definition search_normalized :: "string \<Rightarrow> string" where
  "search_normalized s = map lower_char (filter is_ascii_alphanumeric s)"

definition alphanumeric_part :: "string \<Rightarrow> string" where
  "alphanumeric_part s = filter (\<lambda>c. is_ascii_lowercase c \<or> is_ascii_digit c) s"

definition coalesce_empty :: "string option \<Rightarrow> string" where
  "coalesce_empty x = (case x of None \<Rightarrow> [] | Some s \<Rightarrow> s)"

definition device_matches ::
  "(string \<Rightarrow> string) \<Rightarrow> inventory_db \<Rightarrow> network_db \<Rightarrow> string \<Rightarrow> device_row \<Rightarrow> bool" where
  "device_matches lower db net search r =
     (let contains = ''%'' @ to_ascii_lowercase search @ ''%'';
          normalized = search_normalized search in
      sql_like (lower (coalesce_empty (dv_display_name r))) contains
      \<or> sql_like (lower (coalesce_empty (dv_hostname r))) contains
      \<or> sql_like (lower (coalesce_empty (dv_serial_number r))) contains
      \<or> list_ex (\<lambda>i. ir_device_id i = dv_id r \<and> ir_organization_id i = dv_organization_id r
           \<and> ir_site_id i = dv_site_id r
           \<and> (sql_like (lower (ir_value i)) contains
              \<or> (if normalized = [] then False
                 else sql_like (alphanumeric_part (ir_normalized_value i)) (''%'' @ normalized @ ''%''))))
         (iv_identifiers db)
      \<or> list_ex (\<lambda>i. if_device_id i = dv_id r \<and> if_organization_id i = dv_organization_id r
           \<and> if_site_id i = dv_site_id r
           \<and> list_ex (\<lambda>ip. ip_interface_id ip = if_id i \<and> sql_like (lower (ip_host ip)) contains)
               (nw_addresses net)) (nw_interfaces net))"

definition effective_search :: "inventory_query \<Rightarrow> string option" where
  "effective_search q = (case iq_search q of None \<Rightarrow> None
     | Some s \<Rightarrow> if trim s = [] then None else Some (trim s))"

definition selected ::
  "(string \<Rightarrow> string) \<Rightarrow> inventory_db \<Rightarrow> network_db \<Rightarrow> uuid \<Rightarrow> uuid \<Rightarrow> inventory_query \<Rightarrow> device_row \<Rightarrow> bool"
  where
  "selected lower db net org site q r \<longleftrightarrow> dv_organization_id r = org \<and> dv_site_id r = site
     \<and> (case iq_lifecycle q of None \<Rightarrow> True | Some l \<Rightarrow> dv_lifecycle_state r = lifecycle_as_str l)
     \<and> (case iq_device_type q of None \<Rightarrow> True | Some t \<Rightarrow> dv_device_type r = device_type_as_str t)
     \<and> (case effective_search q of None \<Rightarrow> True | Some s \<Rightarrow> device_matches lower db net s r)"

text \<open>\<open>ORDER BY last_changed_at DESC, id DESC\<close>.\<close>

definition list_order :: "device_row \<Rightarrow> timestamp \<times> int" where
  "list_order r = (- dv_last_changed_at r, - uint (dv_id r))"

definition list_rows ::
  "(string \<Rightarrow> string) \<Rightarrow> inventory_db \<Rightarrow> network_db \<Rightarrow> uuid \<Rightarrow> uuid \<Rightarrow> inventory_query \<Rightarrow> device_row list" where
  "list_rows lower db net org site q =
     take (nat (iq_limit q)) (drop (nat (iq_offset q))
       (sort_key list_order (filter (selected lower db net org site q) (iv_devices db))))"

fun collect_views :: "device_row list \<Rightarrow> inventory_error + device_view list" where
  "collect_views [] = Inr []"
| "collect_views (r # rs) =
     bindR (row_to_device r) (\<lambda>v. bindR (collect_views rs) (\<lambda>vs. Inr (v # vs)))"

definition list_devices ::
  "(string \<Rightarrow> string) \<Rightarrow> inventory_db \<Rightarrow> network_db \<Rightarrow> uuid \<Rightarrow> uuid \<Rightarrow> inventory_query
     \<Rightarrow> inventory_error + device_view list" where
  "list_devices lower db net org site q =
     bindR (query_validate q) (\<lambda>_. collect_views (list_rows lower db net org site q))"

section \<open>Matching\<close>

lemma like_percent: "like (''%'' # ps) t \<longleftrightarrow> (\<exists>n. like ps (drop n t))"
proof (induction t)
  case (Cons c t)
  have "(\<exists>n. like ps (drop n (c # t))) \<longleftrightarrow> like ps (c # t) \<or> (\<exists>n. like ps (drop n t))"
    by (metis drop0 drop_Suc_Cons not0_implies_Suc)
  with Cons show ?case by simp
qed simp

definition plain_pattern :: "string list \<Rightarrow> bool" where
  "plain_pattern ps \<longleftrightarrow> ''%'' \<notin> set ps \<and> ''_'' \<notin> set ps \<and> [CHR 0x5C] \<notin> set ps"

lemma like_plain: "plain_pattern ps \<Longrightarrow> like (ps @ [''%'']) t \<longleftrightarrow> (\<exists>u. t = ps @ u)"
proof (induction ps arbitrary: t)
  case Nil
  show ?case using like_percent [of "[]" t] by (auto intro: exI [of _ "length t"])
next
  case (Cons p ps)
  then show ?case by (cases t) (auto simp: plain_pattern_def)
qed

text \<open>Without the characters \<open>LIKE\<close> treats specially, the pattern finds exactly the texts that contain the
  characters in a row.\<close>

lemma like_contains:
  assumes "plain_pattern ps"
  shows "like (''%'' # ps @ [''%'']) t \<longleftrightarrow> (\<exists>a b. t = a @ ps @ b)"
proof -
  have "(\<exists>n u. drop n t = ps @ u) \<longleftrightarrow> (\<exists>a b. t = a @ ps @ b)"
    by (metis append_eq_conv_conj append_take_drop_id)
  then show ?thesis by (simp add: like_percent like_plain [OF assms])
qed

text \<open>A search for a percent sign or an underscore is not taken literally: the first finds every device,
  the second every text with a character.\<close>

lemma percent_finds_everything: "device_matches lower db net ''%'' r"
proof -
  have "like [''%'', ''%'', ''%''] t" for t by (induction t) simp_all
  moreover have "to_ascii_lowercase ''%'' = ''%''" "utf8_chars ''%%%'' = [''%'', ''%'', ''%'']" by code_simp+
  ultimately show ?thesis by (simp add: device_matches_def Let_def sql_like_def)
qed

text \<open>Only the ASCII letters of a search are lowered, the text by the database entirely: a search with
  another capital letter does not find the text it was copied from.\<close>

lemma capital_umlaut_is_not_found:
  "\<not> sql_like [CHR 0xC3, CHR 0xA4] (''%'' @ to_ascii_lowercase [CHR 0xC3, CHR 0x84] @ ''%'')"
  by code_simp

section \<open>Pages\<close>

lemma collect_views_iff:
  "collect_views rs = Inr vs \<longleftrightarrow> list_all2 (\<lambda>r v. row_to_device r = Inr v) rs vs"
  by (induction rs arbitrary: vs) (auto simp: bindR_Inr_iff list_all2_Cons1)

lemma collect_views_total:
  assumes "\<forall>r \<in> set rs. \<exists>v. row_to_device r = Inr v"
  shows "\<exists>vs. collect_views rs = Inr vs"
  using assms by (induction rs) auto

lemma row_ok_view: "device_row_ok r \<Longrightarrow> \<exists>v. row_to_device r = Inr v"
  by (auto simp: device_row_ok_def row_to_device_def lifecycle_codec.parse_as_str
      device_type_codec.parse_as_str)

lemma list_rows_sub: "r \<in> set (list_rows lower db net org site q) \<Longrightarrow> r \<in> set (iv_devices db)
    \<and> selected lower db net org site q r"
  by (auto simp: list_rows_def dest!: in_set_takeD in_set_dropD)

lemma row_changed_at: "row_to_device r = Inr v \<Longrightarrow> vw_last_changed_at v = dv_last_changed_at r"
  by (auto simp: row_to_device_def bindR_Inr_iff)

lemma list_all2_set2: "list_all2 P xs ys \<Longrightarrow> y \<in> set ys \<Longrightarrow> \<exists>x \<in> set xs. P x y"
  by (induction rule: list_all2_induct) auto

definition page :: "inventory_query \<Rightarrow> i64 \<Rightarrow> i64 \<Rightarrow> inventory_query" where
  "page q offset limit = q\<lparr>iq_offset := offset, iq_limit := limit\<rparr>"

lemma selected_page: "selected lower db net org site (page q a b) = selected lower db net org site q"
  by (simp add: selected_def page_def effective_search_def fun_eq_iff)


definition demo_query :: inventory_query where
  "demo_query = \<lparr>iq_search = None, iq_lifecycle = None, iq_device_type = None, iq_limit = 1, iq_offset = 0\<rparr>"


section \<open>Search by identifier\<close>

definition lower_alnum :: "char \<Rightarrow> bool" where
  "lower_alnum c \<longleftrightarrow> is_ascii_lowercase c \<or> is_ascii_digit c"

lemma lower_alnum_ascii: "lower_alnum c \<Longrightarrow> code_of c < 128"
  by (auto simp: lower_alnum_def is_ascii_lowercase_def is_ascii_digit_def)

lemma lower_alnum_plain: "list_all lower_alnum s \<Longrightarrow> plain_pattern (map (\<lambda>c. [c]) s)"
proof -
  have "\<not> lower_alnum (CHR ''%'')" "\<not> lower_alnum (CHR ''_'')" "\<not> lower_alnum (CHR 0x5C)"
    by code_simp+
  then show "list_all lower_alnum s \<Longrightarrow> plain_pattern (map (\<lambda>c. [c]) s)"
    by (auto simp: plain_pattern_def list_all_iff)
qed

lemma infix_map:
  assumes "inj f"
  shows "(\<exists>a b. map f t = a @ map f s @ b) \<longleftrightarrow> (\<exists>a b. t = a @ s @ b)"
proof
  assume "\<exists>a b. map f t = a @ map f s @ b"
  then obtain a b where "map f t = a @ map f s @ b" by blast
  then obtain a' w where w: "t = a' @ w" "map f s @ b = map f w" unfolding map_eq_append_conv by blast
  from w(2) [symmetric] obtain u v where "w = u @ v" "map f s = map f u" unfolding map_eq_append_conv by blast
  with w(1) have "t = a' @ u @ v" "map f u = map f s" by simp_all
  then show "\<exists>a b. t = a @ s @ b" using inj_map_eq_map [OF assms] by blast
next
  assume "\<exists>a b. t = a @ s @ b"
  then obtain a b where "t = a @ s @ b" by blast
  then have "map f t = map f a @ map f s @ map f b" by simp
  then show "\<exists>a b. map f t = a @ map f s @ b" by blast
qed

lemma sql_like_alnum:
  assumes "list_all lower_alnum s" and "list_all lower_alnum t"
  shows "sql_like t (''%'' @ s @ ''%'') \<longleftrightarrow> (\<exists>a b. t = a @ s @ b)"
proof -
  have "list_all (\<lambda>c. code_of c < 128) (''%'' @ s @ ''%'')" "list_all (\<lambda>c. code_of c < 128) t"
    using assms lower_alnum_ascii by (auto simp: list_all_iff code_of_def)
  then have "sql_like t (''%'' @ s @ ''%'') = like (''%'' # map (\<lambda>c. [c]) s @ [''%'']) (map (\<lambda>c. [c]) t)"
    unfolding sql_like_def by (simp only: utf8_chars_ascii) simp
  also have "\<dots> \<longleftrightarrow> (\<exists>a b. map (\<lambda>c. [c]) t = a @ map (\<lambda>c. [c]) s @ b)"
    by (rule like_contains [OF lower_alnum_plain [OF assms(1)]])
  also have "\<dots> \<longleftrightarrow> (\<exists>a b. t = a @ s @ b)"
    by (rule infix_map) (simp add: inj_def)
  finally show ?thesis .
qed

lemma search_normalized_alnum: "list_all lower_alnum (search_normalized s)"
proof -
  have "lower_alnum (lower_char c)" if "is_ascii_alphanumeric c" for c
    using that by (auto simp: lower_alnum_def lower_char_def is_ascii_alphanumeric_def is_ascii_uppercase_def
        is_ascii_lowercase_def str_simps)
  then show ?thesis by (simp add: search_normalized_def list_all_iff)
qed

text \<open>A device is found by every search whose letters and digits, in either case
  and however separated, occur in a row in those of one of its identifiers: a MAC address or a serial
  number is found in any of its spellings.\<close>

lemma identifier_search_finds:
  assumes "r \<in> set (iv_devices db)" and "i \<in> set (iv_identifiers db)"
    and "ir_device_id i = dv_id r" "ir_organization_id i = dv_organization_id r" "ir_site_id i = dv_site_id r"
    and "alphanumeric_part (ir_normalized_value i) = a @ search_normalized s @ b" and "search_normalized s \<noteq> []"
  shows "device_matches lower db net s r"
proof -
  have "list_all lower_alnum (alphanumeric_part (ir_normalized_value i))"
    by (simp add: alphanumeric_part_def lower_alnum_def list_all_iff)
  then have "sql_like (alphanumeric_part (ir_normalized_value i)) (''%'' @ search_normalized s @ ''%'')"
    using sql_like_alnum [OF search_normalized_alnum] assms(6) by blast
  then show ?thesis
    using assms(2-5,7) by (auto simp: device_matches_def Let_def list_ex_iff)
qed

end
