(* ===== verification/Telemetry.thy ===== *)
theory Telemetry
  imports Startup
begin

text \<open>
  The configuration, correlation and metric parts of \<open>crates/observability/src/lib.rs\<close>, and the
  correlation middleware of \<open>apps/backend/src/main.rs\<close>. The text form of a UUID and its parser belong
  to the \<open>uuid\<close> crate and are the parameter \<open>uuid_text\<close>; what the middleware relies on is that the
  parser reads back what the formatter writes. The redactor of the crate is in the theory
  \<open>Redaction\<close>; the exporters are I/O.
\<close>

section \<open>Configuration\<close>

record telemetry_config =
  tc_service_name :: string
  tc_service_version :: string
  tc_service_instance_id :: string
  tc_deployment_environment :: string
  tc_otlp_enabled :: bool
  tc_export_timeout_ms :: int

definition otel_env_flag :: "environment \<Rightarrow> string \<Rightarrow> bool" where
  "otel_env_flag env name = (case env name of None \<Rightarrow> False
     | Some value \<Rightarrow> to_ascii_lowercase value \<in> {''1'', ''true'', ''yes'', ''on''})"

definition non_blank :: "string option \<Rightarrow> string option" where
  "non_blank value = (case value of None \<Rightarrow> None | Some v \<Rightarrow> if trim v = [] then None else Some v)"

text \<open>\<open>fresh\<close> is the text of a new UUID.\<close>

definition telemetry_from_env :: "environment \<Rightarrow> string \<Rightarrow> string \<Rightarrow> string \<Rightarrow> telemetry_config" where
  "telemetry_from_env env fresh service_name service_version =
     \<lparr>tc_service_name = service_name, tc_service_version = service_version,
      tc_service_instance_id = unwrap_or fresh (non_blank (env ''SNM_INSTANCE_ID'')),
      tc_deployment_environment = unwrap_or ''development'' (non_blank (env ''SNM_DEPLOYMENT_ENV'')),
      tc_otlp_enabled = otel_env_flag env ''SNM_OTEL_ENABLED'',
      tc_export_timeout_ms = clampi 100 30000 (unwrap_or 5000
        (Option.bind (env ''SNM_OTEL_EXPORT_TIMEOUT_MS'') (parse_unsigned u64_max)))\<rparr>"

section \<open>Correlation\<close>

record uuid_text =
  ut_format :: "uuid \<Rightarrow> string"
  ut_parse :: "string \<Rightarrow> uuid option"

definition uuid_text_laws :: "uuid_text \<Rightarrow> bool" where
  "uuid_text_laws u \<longleftrightarrow> (\<forall>x. ut_parse u (ut_format u x) = Some x
     \<and> trim (ut_format u x) = ut_format u x \<and> ut_format u x \<noteq> [])"

record correlation_context =
  co_request_id :: uuid
  co_correlation_id :: uuid

definition parse_uuid :: "uuid_text \<Rightarrow> string option \<Rightarrow> uuid option" where
  "parse_uuid u value = (case value of None \<Rightarrow> None
     | Some v \<Rightarrow> if trim v = [] then None else ut_parse u (trim v))"

definition correlation_new ::
  "uuid_text \<Rightarrow> uuid \<Rightarrow> uuid \<Rightarrow> string option \<Rightarrow> string option \<Rightarrow> correlation_context" where
  "correlation_new u fresh1 fresh2 request_id correlation_id =
     \<lparr>co_request_id = unwrap_or fresh1 (parse_uuid u request_id),
      co_correlation_id = unwrap_or fresh2 (parse_uuid u correlation_id)\<rparr>"

definition header_text :: "headers \<Rightarrow> string \<Rightarrow> string option" where
  "header_text hs name = (case hs name of Some (Some value) \<Rightarrow> Some value | _ \<Rightarrow> None)"

text \<open>The middleware: the context is made from the request's headers, written back into them, given to
  the handler, and written into the headers of the response. \<open>next\<close> is the rest of the service.\<close>

definition correlation_middleware ::
  "uuid_text \<Rightarrow> uuid \<Rightarrow> uuid \<Rightarrow> headers \<Rightarrow> (correlation_context \<Rightarrow> headers \<Rightarrow> 'r \<times> headers)
     \<Rightarrow> 'r \<times> headers" where
  "correlation_middleware u fresh1 fresh2 hs next =
     (let request_id = header_text hs ''x-request-id'';
          correlation_id = header_text hs ''x-correlation-id'';
          context = correlation_new u fresh1 fresh2 request_id correlation_id;
          request_header = ut_format u (co_request_id context);
          correlation_header = ut_format u (co_correlation_id context);
          hs = hs(''x-request-id'' \<mapsto> Some request_header, ''x-correlation-id'' \<mapsto> Some correlation_header);
          (response, rhs) = next context hs
      in (response, rhs(''x-request-id'' \<mapsto> Some request_header,
            ''x-correlation-id'' \<mapsto> Some correlation_header)))"

section \<open>Metric dimensions\<close>

datatype telemetry_error = TelSubscriber string | TelExporter string | HighCardinalityMetricDimension

record metric_dimensions =
  md_capability :: "string option"
  md_provider :: "string option"
  md_transport :: "string option"
  md_outcome :: string

definition validate_dimension :: "uuid_text \<Rightarrow> string option \<Rightarrow> telemetry_error + unit" where
  "validate_dimension u value = (case value of None \<Rightarrow> Inr ()
     | Some v \<Rightarrow> if v = [] \<or> length v > 80 \<or> ut_parse u v \<noteq> None \<or> parse_ip v \<noteq> None
         then Inl HighCardinalityMetricDimension else Inr ())"

definition dimensions_validate :: "uuid_text \<Rightarrow> metric_dimensions \<Rightarrow> telemetry_error + unit" where
  "dimensions_validate u d =
     bindR (validate_dimension u (md_capability d)) (\<lambda>_.
     bindR (validate_dimension u (md_provider d)) (\<lambda>_.
     bindR (validate_dimension u (md_transport d)) (\<lambda>_.
     bindR (validate_dimension u (Some (md_outcome d))) (\<lambda>_. Inr ()))))"

section \<open>Lemmas\<close>

lemma export_timeout_bounds:
  "100 \<le> tc_export_timeout_ms (telemetry_from_env env fresh n v)
   \<and> tc_export_timeout_ms (telemetry_from_env env fresh n v) \<le> 30000"
  by (simp add: telemetry_from_env_def clampi_def)

lemma parse_uuid_format: "uuid_text_laws u \<Longrightarrow> parse_uuid u (Some (ut_format u x)) = Some x"
  by (simp add: parse_uuid_def uuid_text_laws_def)

text \<open>The identifiers of a response name the context of the request: a client, or a service behind this
  one, that sends them back is given the same context, whatever fresh identifiers are at hand.\<close>

lemma correlation_survives:
  assumes "uuid_text_laws u"
    and "correlation_middleware u a b hs (\<lambda>c h. (c, f c h)) = (context, response_headers)"
  shows "correlation_new u a' b' (header_text response_headers ''x-request-id'')
      (header_text response_headers ''x-correlation-id'') = context"
proof -
  have "header_text response_headers ''x-request-id'' = Some (ut_format u (co_request_id context))"
    "header_text response_headers ''x-correlation-id'' = Some (ut_format u (co_correlation_id context))"
    using assms(2) by (auto simp: correlation_middleware_def Let_def header_text_def)
  then show ?thesis by (simp add: correlation_new_def parse_uuid_format [OF assms(1)] unwrap_or_def)
qed

text \<open>Nothing a resource or an address is named by becomes a metric dimension.\<close>

lemma dimensions_low_cardinality:
  assumes "dimensions_validate u d = Inr ()"
    and "v \<in> set_option (md_capability d) \<union> set_option (md_provider d) \<union> set_option (md_transport d)
      \<union> {md_outcome d}"
  shows "v \<noteq> [] \<and> length v \<le> 80 \<and> ut_parse u v = None \<and> parse_ip v = None"
proof -
  have "validate_dimension u (Some v) = Inr ()"
    using assms by (auto simp: dimensions_validate_def bindR_Inr_iff)
  then show ?thesis by (simp add: validate_dimension_def split: if_splits)
qed

end
