(* ===== verification/Inventory_Api.thy ===== *)
theory Inventory_Api
  imports Authorization Inventory_History Inventory_Query Telemetry
begin

text \<open>
  The device routes of the backend (\<open>apps/backend/src/inventory_api.rs\<close>): each authenticates the
  caller, asks for a permission on the site of the path, and calls the inventory store; a denial is
  written to the audit trail. Here the authorization service, the inventory store and the audit
  store meet, so the properties are about their composition.

  A handler is a function of the state of the application, of what is particular to the call, of
  the path and the body, and of the tables; it returns the tables and the response. Extractors have
  already parsed the path, the query and the body. The rows that authentication, the permission
  query and the store read may belong to different moments: a call carries the identity tables as
  each query saw them.
\<close>

section \<open>State, requests and responses\<close>

record app_state =
  st_authorization :: authorization_service
  st_inventory :: inventory_env
  st_lower :: "string \<Rightarrow> string"
  st_inventory_require_approval :: bool

record api_call =
  ca_now :: timestamp
  ca_headers :: headers
  ca_correlation :: correlation_context
  ca_tick :: tick
  ca_sessions :: identity_db
  ca_grants :: identity_db
  ca_network :: network_db

datatype api_body =
    DevicesBody "device_view list"
  | DeviceBody device_view
  | ApiErrorBody string string "json option"

record api_response =
  re_status :: status_code
  re_body :: api_body

definition default_limit :: i64 where
  "default_limit = 50"

text \<open>The query string: absent parameters take their defaults.\<close>

definition device_list_query ::
  "string option \<Rightarrow> device_lifecycle option \<Rightarrow> device_type option \<Rightarrow> i64 option \<Rightarrow> i64 option
     \<Rightarrow> inventory_query" where
  "device_list_query search lifecycle type limit offset =
     \<lparr>iq_search = search, iq_lifecycle = lifecycle, iq_device_type = type,
      iq_limit = unwrap_or default_limit limit, iq_offset = unwrap_or 0 offset\<rparr>"

definition api_error :: "status_code \<Rightarrow> string \<Rightarrow> string \<Rightarrow> json option \<Rightarrow> api_response" where
  "api_error status code message details = \<lparr>re_status = status, re_body = ApiErrorBody code message details\<rparr>"

fun authorization_error_response :: "authorization_error \<Rightarrow> api_response" where
  "authorization_error_response AzInvalidSession =
     api_error UNAUTHORIZED_401 ''invalid_session'' ''invalid or expired session'' None"
| "authorization_error_response AzPermissionDenied =
     api_error FORBIDDEN_403 ''permission_denied'' ''permission denied'' None"
| "authorization_error_response AzUnavailable =
     api_error SERVICE_UNAVAILABLE_503 ''authorization_unavailable''
       ''authorization subsystem is temporarily unavailable'' None"

text \<open>The JSON objects of the details, with their keys in the order of the map.\<close>

fun inventory_error_response :: "inventory_env \<Rightarrow> inventory_error \<Rightarrow> api_response" where
  "inventory_error_response env (InvInvalidInput message) =
     api_error UNPROCESSABLE_ENTITY_422 ''invalid_inventory_request'' message None"
| "inventory_error_response env InvDeviceNotFound =
     api_error NOT_FOUND_404 ''device_not_found'' ''device was not found in the requested scope'' None"
| "inventory_error_response env (InvVersionConflict expected actual) =
     api_error CONFLICT_409 ''device_version_conflict'' ''device changed since it was read''
       (Some (JObject [(''actualVersion'', JNumber (decimal actual)),
                       (''expectedVersion'', JNumber (decimal expected))]))"
| "inventory_error_response env (InvLifecycleBlocksMutation lifecycle) =
     api_error CONFLICT_409 ''device_lifecycle_blocks_mutation'' ''device lifecycle blocks this mutation''
       (Some (JObject [(''lifecycle'', JString (lifecycle_as_str lifecycle))]))"
| "inventory_error_response env (InvInvalidLifecycleTransition from to) =
     api_error CONFLICT_409 ''invalid_device_lifecycle_transition''
       ''the requested lifecycle transition is not allowed''
       (Some (JObject [(''from'', JString (lifecycle_as_str from)), (''to'', JString (lifecycle_as_str to))]))"
| "inventory_error_response env InvLifecycleReasonRequired =
     api_error UNPROCESSABLE_ENTITY_422 ''lifecycle_reason_required''
       ''retire or archive operations require a reason'' None"
| "inventory_error_response env InvDuplicateIdentifier =
     api_error CONFLICT_409 ''duplicate_strong_identifier''
       ''a strong identifier already belongs to another device'' None"
| "inventory_error_response env (InvReconciliationConflict device_ids) =
     api_error CONFLICT_409 ''inventory_reconciliation_conflict''
       ''the observation matches multiple devices and requires manual review''
       (Some (JObject [(''deviceIds'', JArray (map (JString \<circ> ie_uuid_str env) device_ids))]))"
| "inventory_error_response env (InvReactivationRequiresReview device_id) =
     api_error CONFLICT_409 ''device_reactivation_requires_review''
       ''retired or archived devices require explicit review before reactivation''
       (Some (JObject [(''deviceId'', JString (ie_uuid_str env device_id))]))"
| "inventory_error_response env (InvCorruptStoredValue column) =
     api_error INTERNAL_SERVER_ERROR_500 ''inventory_internal_error'' ''inventory data could not be processed'' None"
| "inventory_error_response env InvJson =
     api_error INTERNAL_SERVER_ERROR_500 ''inventory_internal_error'' ''inventory data could not be processed'' None"
| "inventory_error_response env (InvAudit e) =
     api_error SERVICE_UNAVAILABLE_503 ''inventory_unavailable''
       ''inventory persistence is temporarily unavailable'' None"
| "inventory_error_response env (InvOutbox e) =
     api_error SERVICE_UNAVAILABLE_503 ''inventory_unavailable''
       ''inventory persistence is temporarily unavailable'' None"
| "inventory_error_response env InvDatabase =
     api_error SERVICE_UNAVAILABLE_503 ''inventory_unavailable''
       ''inventory persistence is temporarily unavailable'' None"

section \<open>Authorization of a call\<close>

definition denial_draft ::
  "inventory_env \<Rightarrow> i64 \<Rightarrow> principal \<Rightarrow> uuid \<Rightarrow> correlation_context \<Rightarrow> string \<Rightarrow> uuid option \<Rightarrow> string
     \<Rightarrow> audit_draft" where
  "denial_draft env occurred_at pr site_id correlation action resource_id permission =
     \<lparr>ad_organization_id = pr_organization_id pr, ad_site_id = Some site_id,
      ad_actor_type = UserActor, ad_actor_id = Some (pr_user_id pr),
      ad_session_id = Some (pr_session_id pr), ad_source_ip = None,
      ad_request_id = ie_uuid_str env (co_request_id correlation),
      ad_correlation_id = co_correlation_id correlation,
      ad_action = action, ad_resource_type = ''device'',
      ad_resource_id = map_option (ie_uuid_str env) resource_id, ad_provider = None,
      ad_occurred_at_unix_ms = occurred_at, ad_duration_ms = None, ad_status = AuditDenied,
      ad_reason_code = Some ''permission_denied'', ad_before = None, ad_after = None,
      ad_result = Some (JObject [(''allowed'', JBool False), (''requiredPermission'', JString permission)])\<rparr>"

text \<open>A failure to write the event is only logged.\<close>

definition audit_denial ::
  "app_state \<Rightarrow> api_call \<Rightarrow> principal \<Rightarrow> uuid \<Rightarrow> string \<Rightarrow> uuid option \<Rightarrow> string \<Rightarrow> inventory_db
     \<Rightarrow> inventory_db" where
  "audit_denial st ca pr site_id action resource_id permission db =
     (let env = st_inventory st in
      case audit_append (ie_audit_ops env) (tk_audit_id (ca_tick ca))
          (denial_draft env (tk_utc_ms (ca_tick ca)) pr site_id (ca_correlation ca) action resource_id permission)
          (iv_audit db) of
        Inr (audit, _) \<Rightarrow> db\<lparr>iv_audit := audit\<rparr>
      | Inl _ \<Rightarrow> db)"

definition api_authorize ::
  "app_state \<Rightarrow> api_call \<Rightarrow> uuid \<Rightarrow> string \<Rightarrow> string \<Rightarrow> uuid option \<Rightarrow> inventory_db
     \<Rightarrow> inventory_db \<times> (api_response + principal)" where
  "api_authorize st ca site_id permission action resource_id db =
     (case authenticate (st_authorization st) (ca_now ca) (ca_headers ca) (ca_sessions ca) of
        Inl error \<Rightarrow> (db, Inl (authorization_error_response error))
      | Inr pr \<Rightarrow> (case require_site_permission (ca_grants ca) pr site_id permission of
          Inr _ \<Rightarrow> (db, Inr pr)
        | Inl AzPermissionDenied \<Rightarrow>
            (audit_denial st ca pr site_id action resource_id permission db,
             Inl (api_error FORBIDDEN_403 ''permission_denied''
               ''the authenticated principal is not allowed to perform this action'' None))
        | Inl error \<Rightarrow> (db, Inl (authorization_error_response error))))"

definition api_mutation_context ::
  "inventory_env \<Rightarrow> principal \<Rightarrow> uuid \<Rightarrow> correlation_context \<Rightarrow> mutation_context" where
  "api_mutation_context env pr site_id correlation =
     \<lparr>mx_organization_id = pr_organization_id pr, mx_site_id = site_id, mx_actor_type = UserActor,
      mx_actor_id = Some (pr_user_id pr), mx_session_id = Some (pr_session_id pr), mx_source_ip = None,
      mx_request_id = ie_uuid_str env (co_request_id correlation),
      mx_correlation_id = co_correlation_id correlation\<rparr>"

text \<open>The tail of the handlers that change a device: a transaction that failed was rolled back.\<close>

definition answer_mutation ::
  "inventory_env \<Rightarrow> status_code \<Rightarrow> inventory_db \<Rightarrow> inventory_error + (inventory_db \<times> device_view)
     \<Rightarrow> inventory_db \<times> api_response" where
  "answer_mutation env success db result =
     (case result of
        Inr (db', device) \<Rightarrow> (db', \<lparr>re_status = success, re_body = DeviceBody device\<rparr>)
      | Inl error \<Rightarrow> (db, inventory_error_response env error))"

section \<open>Handlers\<close>

definition api_list_devices ::
  "app_state \<Rightarrow> api_call \<Rightarrow> uuid \<Rightarrow> inventory_query \<Rightarrow> inventory_db \<Rightarrow> inventory_db \<times> api_response" where
  "api_list_devices st ca site_id query db =
     (case api_authorize st ca site_id ''devices.view'' ''inventory.device.list'' None db of
        (db, Inl response) \<Rightarrow> (db, response)
      | (db, Inr pr) \<Rightarrow>
         (db, case list_devices (st_lower st) db (ca_network ca) (pr_organization_id pr) site_id query of
            Inr devices \<Rightarrow> \<lparr>re_status = OK_200, re_body = DevicesBody devices\<rparr>
          | Inl error \<Rightarrow> inventory_error_response (st_inventory st) error))"

definition api_get_device ::
  "app_state \<Rightarrow> api_call \<Rightarrow> uuid \<Rightarrow> uuid \<Rightarrow> inventory_db \<Rightarrow> inventory_db \<times> api_response" where
  "api_get_device st ca site_id device_id db =
     (case api_authorize st ca site_id ''devices.view'' ''inventory.device.get'' (Some device_id) db of
        (db, Inl response) \<Rightarrow> (db, response)
      | (db, Inr pr) \<Rightarrow>
         (db, case load_device db (pr_organization_id pr) site_id device_id of
            Inr (Some device) \<Rightarrow> \<lparr>re_status = OK_200, re_body = DeviceBody device\<rparr>
          | Inr None \<Rightarrow> api_error NOT_FOUND_404 ''device_not_found''
              ''device was not found in the requested scope'' None
          | Inl error \<Rightarrow> inventory_error_response (st_inventory st) error))"

definition api_create_device ::
  "app_state \<Rightarrow> api_call \<Rightarrow> uuid \<Rightarrow> new_device \<Rightarrow> inventory_db \<Rightarrow> inventory_db \<times> api_response" where
  "api_create_device st ca site_id input db =
     (case api_authorize st ca site_id ''devices.create'' ''inventory.device.create'' None db of
        (db, Inl response) \<Rightarrow> (db, response)
      | (db, Inr pr) \<Rightarrow>
         let env = st_inventory st; mutation = api_mutation_context env pr site_id (ca_correlation ca) in
         answer_mutation env CREATED_201 db
           (create_manual env (ca_tick ca) mutation input (st_inventory_require_approval st) db))"

definition api_update_device ::
  "app_state \<Rightarrow> api_call \<Rightarrow> uuid \<Rightarrow> uuid \<Rightarrow> i64 \<Rightarrow> metadata_patch \<Rightarrow> inventory_db
     \<Rightarrow> inventory_db \<times> api_response" where
  "api_update_device st ca site_id device_id expected_version patch db =
     (case api_authorize st ca site_id ''devices.update'' ''inventory.device.update'' (Some device_id) db of
        (db, Inl response) \<Rightarrow> (db, response)
      | (db, Inr pr) \<Rightarrow>
         let env = st_inventory st; mutation = api_mutation_context env pr site_id (ca_correlation ca) in
         answer_mutation env OK_200 db
           (update_metadata env (ca_tick ca) mutation device_id expected_version patch db))"

definition lifecycle_permission :: "device_lifecycle \<Rightarrow> string" where
  "lifecycle_permission next = (case next of
     Managed \<Rightarrow> ''devices.approve''
   | Retired \<Rightarrow> ''devices.delete'' | Archived \<Rightarrow> ''devices.delete''
   | _ \<Rightarrow> ''devices.update'')"

definition api_transition_lifecycle ::
  "app_state \<Rightarrow> api_call \<Rightarrow> uuid \<Rightarrow> uuid \<Rightarrow> i64 \<Rightarrow> device_lifecycle \<Rightarrow> string option \<Rightarrow> inventory_db
     \<Rightarrow> inventory_db \<times> api_response" where
  "api_transition_lifecycle st ca site_id device_id expected_version next reason db =
     (case api_authorize st ca site_id (lifecycle_permission next) ''inventory.device.lifecycle.transition''
          (Some device_id) db of
        (db, Inl response) \<Rightarrow> (db, response)
      | (db, Inr pr) \<Rightarrow>
         let env = st_inventory st; mutation = api_mutation_context env pr site_id (ca_correlation ca) in
         answer_mutation env OK_200 db
           (transition_lifecycle env (ca_tick ca) mutation device_id expected_version next reason db))"

text \<open>The routes under \<open>/api/v1/sites/{site_id}/devices\<close>.\<close>

datatype device_request =
    ListRequest inventory_query
  | GetRequest uuid
  | CreateRequest new_device
  | UpdateRequest uuid i64 metadata_patch
  | LifecycleRequest uuid i64 device_lifecycle "string option"

fun serve ::
  "app_state \<Rightarrow> api_call \<Rightarrow> uuid \<Rightarrow> device_request \<Rightarrow> inventory_db \<Rightarrow> inventory_db \<times> api_response" where
  "serve st ca site (ListRequest query) db = api_list_devices st ca site query db"
| "serve st ca site (GetRequest dev) db = api_get_device st ca site dev db"
| "serve st ca site (CreateRequest input) db = api_create_device st ca site input db"
| "serve st ca site (UpdateRequest dev expected patch) db = api_update_device st ca site dev expected patch db"
| "serve st ca site (LifecycleRequest dev expected next reason) db =
     api_transition_lifecycle st ca site dev expected next reason db"

section \<open>What a call can do\<close>

fun request_permission :: "device_request \<Rightarrow> string" where
  "request_permission (ListRequest _) = ''devices.view''"
| "request_permission (GetRequest _) = ''devices.view''"
| "request_permission (CreateRequest _) = ''devices.create''"
| "request_permission (UpdateRequest _ _ _) = ''devices.update''"
| "request_permission (LifecycleRequest _ _ next _) = lifecycle_permission next"

fun request_action :: "device_request \<Rightarrow> string" where
  "request_action (ListRequest _) = ''inventory.device.list''"
| "request_action (GetRequest _) = ''inventory.device.get''"
| "request_action (CreateRequest _) = ''inventory.device.create''"
| "request_action (UpdateRequest _ _ _) = ''inventory.device.update''"
| "request_action (LifecycleRequest _ _ _ _) = ''inventory.device.lifecycle.transition''"

fun request_device :: "device_request \<Rightarrow> uuid option" where
  "request_device (GetRequest dev) = Some dev"
| "request_device (UpdateRequest dev _ _) = Some dev"
| "request_device (LifecycleRequest dev _ _ _) = Some dev"
| "request_device _ = None"

text \<open>The call of an authenticated caller who has the permission, what is left of a handler then.\<close>

fun permitted ::
  "app_state \<Rightarrow> api_call \<Rightarrow> uuid \<Rightarrow> principal \<Rightarrow> device_request \<Rightarrow> inventory_db \<Rightarrow> inventory_db \<times> api_response" where
  "permitted st ca site pr (ListRequest query) db =
     (db, case list_devices (st_lower st) db (ca_network ca) (pr_organization_id pr) site query of
        Inr devices \<Rightarrow> \<lparr>re_status = OK_200, re_body = DevicesBody devices\<rparr>
      | Inl error \<Rightarrow> inventory_error_response (st_inventory st) error)"
| "permitted st ca site pr (GetRequest dev) db =
     (db, case load_device db (pr_organization_id pr) site dev of
        Inr (Some device) \<Rightarrow> \<lparr>re_status = OK_200, re_body = DeviceBody device\<rparr>
      | Inr None \<Rightarrow> api_error NOT_FOUND_404 ''device_not_found''
          ''device was not found in the requested scope'' None
      | Inl error \<Rightarrow> inventory_error_response (st_inventory st) error)"
| "permitted st ca site pr (CreateRequest input) db =
     answer_mutation (st_inventory st) CREATED_201 db (create_manual (st_inventory st) (ca_tick ca)
       (api_mutation_context (st_inventory st) pr site (ca_correlation ca)) input
       (st_inventory_require_approval st) db)"
| "permitted st ca site pr (UpdateRequest dev expected patch) db =
     answer_mutation (st_inventory st) OK_200 db (update_metadata (st_inventory st) (ca_tick ca)
       (api_mutation_context (st_inventory st) pr site (ca_correlation ca)) dev expected patch db)"
| "permitted st ca site pr (LifecycleRequest dev expected next reason) db =
     answer_mutation (st_inventory st) OK_200 db (transition_lifecycle (st_inventory st) (ca_tick ca)
       (api_mutation_context (st_inventory st) pr site (ca_correlation ca)) dev expected next reason db)"

lemma serve_permitted:
  "serve st ca site req db =
     (case api_authorize st ca site (request_permission req) (request_action req) (request_device req) db of
        (db, Inl response) \<Rightarrow> (db, response) | (db, Inr pr) \<Rightarrow> permitted st ca site pr req db)"
  by (cases req) (simp_all add: api_list_devices_def api_get_device_def api_create_device_def
      api_update_device_def api_transition_lifecycle_def Let_def split: prod.split sum.split)

lemma serve_cases:
  assumes "serve st ca site req db = (db', resp)"
  obtains (unauthenticated) e where "authenticate (st_authorization st) (ca_now ca) (ca_headers ca) (ca_sessions ca) = Inl e"
      "db' = db" "resp = authorization_error_response e"
    | (denied) pr where "authenticate (st_authorization st) (ca_now ca) (ca_headers ca) (ca_sessions ca) = Inr pr"
      "require_site_permission (ca_grants ca) pr site (request_permission req) = Inl AzPermissionDenied"
      "db' = audit_denial st ca pr site (request_action req) (request_device req) (request_permission req) db"
      "re_status resp = FORBIDDEN_403"
    | (allowed) pr where "authenticate (st_authorization st) (ca_now ca) (ca_headers ca) (ca_sessions ca) = Inr pr"
      "require_site_permission (ca_grants ca) pr site (request_permission req) = Inr ()"
      "permitted st ca site pr req db = (db', resp)"
proof (cases "authenticate (st_authorization st) (ca_now ca) (ca_headers ca) (ca_sessions ca)")
  case (Inl e)
  then show ?thesis using assms unauthenticated by (simp add: serve_permitted api_authorize_def)
next
  case (Inr pr)
  have "require_site_permission (ca_grants ca) pr site (request_permission req) \<in> {Inl AzPermissionDenied, Inr ()}"
    by (simp add: require_site_permission_def)
  then show ?thesis
    using Inr assms denied [OF Inr] allowed [OF Inr] by (auto simp: serve_permitted api_authorize_def api_error_def)
qed

lemma error_not_success:
  "re_status (inventory_error_response env e) \<notin> {OK_200, CREATED_201, FORBIDDEN_403, UNAUTHORIZED_401}"
  by (cases e) (simp_all add: api_error_def)

lemma permitted_cases:
  assumes "permitted st ca site pr req db = (db', resp)"
  obtains (unchanged) "db' = db"
    | (committed) v where "commits (st_inventory st) (ca_tick ca)
        (api_mutation_context (st_inventory st) pr site (ca_correlation ca)) db db' v"
      "re_status resp \<in> {OK_200, CREATED_201}" "re_body resp = DeviceBody v"
proof (cases req)
  case (CreateRequest input)
  then show ?thesis using assms that commit_create
    by (fastforce simp: answer_mutation_def split: sum.splits prod.splits)
next
  case (UpdateRequest dev n p)
  then show ?thesis using assms that commit_update
    by (fastforce simp: answer_mutation_def split: sum.splits prod.splits)
next
  case (LifecycleRequest dev n l reason)
  then show ?thesis using assms that commit_transition
    by (fastforce simp: answer_mutation_def split: sum.splits prod.splits)
qed (use assms that in auto)

lemma audit_denial_cases:
  obtains (lost) "audit_denial st ca pr site action dev permission db = db"
    | (written) a e where "audit_denial st ca pr site action dev permission db = db\<lparr>iv_audit := a\<rparr>"
      "audit_append (ie_audit_ops (st_inventory st)) (tk_audit_id (ca_tick ca))
         (denial_draft (st_inventory st) (tk_utc_ms (ca_tick ca)) pr site (ca_correlation ca) action dev permission)
         (iv_audit db) = Inr (a, tk_audit_id (ca_tick ca))"
      "au_events a = au_events (iv_audit db) @ [e]" "ae_status e = ''denied''"
      "ae_organization_id e = pr_organization_id pr" "ae_actor_id e = Some (pr_user_id pr)" "ae_action e = action"
proof (cases "audit_append (ie_audit_ops (st_inventory st)) (tk_audit_id (ca_tick ca))
         (denial_draft (st_inventory st) (tk_utc_ms (ca_tick ca)) pr site (ca_correlation ca) action dev permission)
         (iv_audit db)")
  case (Inl e)
  then show ?thesis using lost by (simp add: audit_denial_def Let_def)
next
  case (Inr x)
  obtain a i where x: "x = (a, i)" by (cases x)
  have app: "audit_append (ie_audit_ops (st_inventory st)) (tk_audit_id (ca_tick ca))
         (denial_draft (st_inventory st) (tk_utc_ms (ca_tick ca)) pr site (ca_correlation ca) action dev permission)
         (iv_audit db) = Inr (a, tk_audit_id (ca_tick ca))"
    using Inr x audit_append_id by metis
  have "audit_denial st ca pr site action dev permission db = db\<lparr>iv_audit := a\<rparr>"
    using Inr x by (simp add: audit_denial_def Let_def)
  moreover obtain n prev payload where "au_events a = au_events (iv_audit db)
      @ [row_of (tk_audit_id (ca_tick ca)) n payload
          \<lparr>sl_event = sanitize (denial_draft (st_inventory st) (tk_utc_ms (ca_tick ca)) pr site
             (ca_correlation ca) action dev permission), sl_previous_hash = prev,
           sl_event_hash = hash_event (ie_audit_ops (st_inventory st)) payload prev\<rparr>]"
    using append_effect [OF app] by metis
  ultimately show ?thesis
    by (rule written [OF _ app]) (simp_all add: row_of_def sanitize_def denial_draft_def Let_def)
qed

text \<open>The trail refers to known sites only, so a denial on a site that does not exist leaves no record.\<close>

lemma unknown_site_denial_unrecorded:
  assumes "site \<notin> au_sites (iv_audit db)"
  shows "audit_denial st ca pr site action dev permission db = db"
proof -
  have "ae_site_id (row_of i n b \<lparr>sl_event = sanitize (denial_draft env ms pr site co action dev permission),
      sl_previous_hash = h, sl_event_hash = k\<rparr>) = Some site" for env i n b ms co h k
    by (simp add: row_of_def sanitize_def denial_draft_def Let_def)
  then have "audit_append ops i (denial_draft env ms pr site co action dev permission) (iv_audit db) \<noteq> Inr x"
    for ops i env ms co x
    using assms by (auto simp: audit_append_def seal_def insert_event_def Let_def bindR_Inr_iff result_simps
        split: if_splits)
  then show ?thesis by (auto simp: audit_denial_def Let_def split: sum.splits)
qed

section \<open>Served requests and the inventory machine\<close>

lemma denial_plain:
  "in_i64 ms \<Longrightarrow> draft_plain (denial_draft env ms pr site co action dev permission)"
  by (simp add: draft_plain_def denial_draft_def)

lemma serve_is_step:
  assumes "serve st ca site req db = (db', resp)" and "in_i64 (tk_utc_ms (ca_tick ca))"
  shows "(inventory_step (st_inventory st))\<^sup>*\<^sup>* db db'"
  using assms(1)
proof (cases rule: serve_cases)
  case (denied pr)
  show ?thesis
  proof (cases rule: audit_denial_cases [of st ca pr site "request_action req" "request_device req"
        "request_permission req" db])
    case (written a e)
    have "audit_step (ie_audit_ops (st_inventory st)) (iv_audit db) a"
      by (rule audit_stepI [OF denial_plain [OF assms(2)] written(2)])
    then show ?thesis unfolding denied(3) written(1) by (intro r_into_rtranclp step_audit)
  qed (simp add: denied(3))
next
  case (allowed pr)
  from allowed(3) show ?thesis
  proof (cases rule: permitted_cases)
    case (committed v)
    from step_commit [OF assms(2) committed(1)] show ?thesis by (rule r_into_rtranclp)
  qed simp
qed simp

text \<open>Requests served one after the other, between transactions of others.\<close>

inductive api_step :: "app_state \<Rightarrow> inventory_db \<Rightarrow> inventory_db \<Rightarrow> bool" for st where
  step_served: "in_i64 (tk_utc_ms (ca_tick ca)) \<Longrightarrow> serve st ca site req db = (db', resp) \<Longrightarrow> api_step st db db'"
| step_other: "inventory_step (st_inventory st) db db' \<Longrightarrow> api_step st db db'"

lemma api_reach:
  assumes "(api_step st)\<^sup>*\<^sup>* db db'"
  shows "(inventory_step (st_inventory st))\<^sup>*\<^sup>* db db'"
  using assms
proof (induction rule: rtranclp_induct)
  case (step b c)
  from step(2) have "(inventory_step (st_inventory st))\<^sup>*\<^sup>* b c"
    by cases (auto intro: serve_is_step)
  with step(3) show ?case by (rule rtranclp_trans)
qed simp

section \<open>Properties\<close>

text \<open>C2: Who may change the inventory. A request changes the tables only when the caller is authenticated
  by the authorization service. If the permission of the route on that site is missing, the answer is
  403 and all that changed is one new event of the audit trail, denied, with the caller as the actor
  and the action of the route. Otherwise the caller holds the permission, the answer is a success, and
  the change is one committed transaction on behalf of the caller in the caller's organization on
  that site, whose device is the one in the answer.\<close>

theorem changes_are_authorized:
  assumes "serve st ca site req db = (db', resp)" and "db' \<noteq> db"
  shows "\<exists>pr. authenticate (st_authorization st) (ca_now ca) (ca_headers ca) (ca_sessions ca) = Inr pr
    \<and> (re_status resp = FORBIDDEN_403
         \<and> require_site_permission (ca_grants ca) pr site (request_permission req) = Inl AzPermissionDenied
         \<and> db' = db\<lparr>iv_audit := iv_audit db'\<rparr>
         \<and> (\<exists>e. au_events (iv_audit db') = au_events (iv_audit db) @ [e] \<and> ae_status e = ''denied''
              \<and> ae_organization_id e = pr_organization_id pr \<and> ae_actor_id e = Some (pr_user_id pr)
              \<and> ae_action e = request_action req)
       \<or> re_status resp \<in> {OK_200, CREATED_201}
         \<and> require_site_permission (ca_grants ca) pr site (request_permission req) = Inr ()
         \<and> (\<exists>v. re_body resp = DeviceBody v \<and> commits (st_inventory st) (ca_tick ca)
              (api_mutation_context (st_inventory st) pr site (ca_correlation ca)) db db' v))"
  using assms(1)
proof (cases rule: serve_cases)
  case (denied pr)
  show ?thesis
  proof (cases rule: audit_denial_cases [of st ca pr site "request_action req" "request_device req"
        "request_permission req" db])
    case (written a e)
    then show ?thesis
      using denied by (intro exI [of _ pr] conjI disjI1) (simp_all add: exI [of _ e])
  qed (use assms(2) denied in simp)
next
  case (allowed pr)
  from allowed(3) show ?thesis
  proof (cases rule: permitted_cases)
    case (committed v)
    then show ?thesis using allowed by (intro exI [of _ pr]) blast
  qed (use assms(2) in simp)
qed (use assms(2) in simp)


fun body_devices :: "api_body \<Rightarrow> device_view set" where
  "body_devices (DevicesBody vs) = set vs"
| "body_devices (DeviceBody v) = {v}"
| "body_devices (ApiErrorBody _ _ _) = {}"

lemma error_has_no_devices:
  "body_devices (re_body (inventory_error_response env e)) = {}"
  "body_devices (re_body (authorization_error_response a)) = {}"
  by (cases e; simp add: api_error_def) (cases a; simp add: api_error_def)

lemma listed_loaded:
  assumes "base_inv db" and "list_devices lower db net org site q = Inr vs" and "v \<in> set vs"
  shows "loaded db org site (vw_id v) = Inr v"
proof -
  have "list_all2 (\<lambda>r v. row_to_device r = Inr v) (list_rows lower db net org site q) vs"
    using assms(2) by (simp add: list_devices_def bindR_Inr_iff collect_views_iff)
  then obtain r where r: "r \<in> set (list_rows lower db net org site q)" "row_to_device r = Inr v"
    using list_all2_set2 [OF _ assms(3)] by blast
  have "r \<in> set (iv_devices db)" "dv_organization_id r = org" "dv_site_id r = site"
    using list_rows_sub [OF r(1)] by (simp_all add: selected_def)
  with stored_load_ok [OF assms(1), of r] r(2) row_to_device_Inr [OF r(2)] show ?thesis by auto
qed

lemma permitted_devices:
  assumes "permitted st ca site pr req db = (db', resp)" and "base_inv db" and "v \<in> body_devices (re_body resp)"
  shows "loaded db' (pr_organization_id pr) site (vw_id v) = Inr v"
proof -
  have c: "loaded db' (pr_organization_id pr) site (vw_id v) = Inr v"
    if "commits (st_inventory st) (ca_tick ca) (api_mutation_context (st_inventory st) pr site (ca_correlation ca)) db db' v"
    using commits_outcome(1) [OF that assms(2)] by (simp add: api_mutation_context_def)
  show ?thesis
  proof (cases req)
    case (ListRequest q)
    then show ?thesis
      using assms listed_loaded [OF assms(2)] by (auto simp: error_has_no_devices split: sum.splits)
  next
    case (GetRequest dev)
    then have "load_device db (pr_organization_id pr) site dev = Inr (Some v)" "db' = db"
      using assms by (auto simp: error_has_no_devices api_error_def split: sum.splits option.splits)
    then have "loaded db' (pr_organization_id pr) site dev = Inr v" by (simp add: loaded_def)
    with loaded_id [OF this] show ?thesis by simp
  next
    case (CreateRequest input)
    then show ?thesis using assms c commit_create
      by (fastforce simp: answer_mutation_def error_has_no_devices split: sum.splits prod.splits)
  next
    case (UpdateRequest dev n p)
    then show ?thesis using assms c commit_update
      by (fastforce simp: answer_mutation_def error_has_no_devices split: sum.splits prod.splits)
  next
    case (LifecycleRequest dev n l reason)
    then show ?thesis using assms c commit_transition
      by (fastforce simp: answer_mutation_def error_has_no_devices split: sum.splits prod.splits)
  qed
qed

lemma reached_base:
  assumes "audit_laws (ie_audit_ops (st_inventory st))" and "inventory_inv (st_inventory st) db"
    and "(api_step st)\<^sup>*\<^sup>* db db'"
  shows "base_inv db'"
  using inventory_reach(1) [OF assms(1) api_reach [OF assms(3)] assms(2)] by (simp add: inventory_inv_def)

text \<open>C7: What a response shows. Whatever was served before, every device in the answer to a request is
  stored exactly so at that moment, under the organization of the caller and the site of the path, and
  the caller is authenticated and holds the permission of the route on that site: nothing is shown
  across sites or organizations, and nothing to a caller who was refused.\<close>

theorem shown_devices_in_scope:
  assumes "audit_laws (ie_audit_ops (st_inventory st))" and "inventory_inv (st_inventory st) db0"
    and "(api_step st)\<^sup>*\<^sup>* db0 db"
    and "serve st ca site req db = (db', resp)" and "v \<in> body_devices (re_body resp)"
  shows "\<exists>pr. authenticate (st_authorization st) (ca_now ca) (ca_headers ca) (ca_sessions ca) = Inr pr
    \<and> require_site_permission (ca_grants ca) pr site (request_permission req) = Inr ()
    \<and> vw_organization_id v = pr_organization_id pr \<and> vw_site_id v = site
    \<and> loaded db' (pr_organization_id pr) site (vw_id v) = Inr v"
  using assms(4)
proof (cases rule: serve_cases)
  case (denied pr)
  then have "body_devices (re_body resp) = {}"
    using assms(4) by (auto simp: serve_permitted api_authorize_def api_error_def)
  then show ?thesis using assms(5) by simp
next
  case (allowed pr)
  have load: "loaded db' (pr_organization_id pr) site (vw_id v) = Inr v"
    by (rule permitted_devices [OF allowed(3) reached_base [OF assms(1-3)] assms(5)])
  then have "vw_organization_id v = pr_organization_id pr \<and> vw_site_id v = site"
    by (rule loaded_Inr) (simp add: in_scope_def row_to_device_Inr)
  with allowed load show ?thesis by blast
qed (use assms(5) error_has_no_devices in auto)

lemma load_total:
  assumes "base_inv db"
  shows "\<exists>v. load_device db org site dev = Inr v"
proof (cases "List.find (in_scope org site dev) (iv_devices db)")
  case (Some r)
  then have r: "r \<in> set (iv_devices db)" by (auto dest: find_Some_set)
  then obtain v where "row_to_device r = Inr v" using stored_load_ok [OF assms] by blast
  with Some show ?thesis by (simp add: load_device_def)
qed (simp add: load_device_def)



text \<open>The text of an identifier is a valid request id: 36 characters, none of them white space.\<close>

definition uuid_text_ok :: "inventory_env \<Rightarrow> bool" where
  "uuid_text_ok env \<longleftrightarrow> (\<forall>u. trim (ie_uuid_str env u) \<noteq> [] \<and> length (ie_uuid_str env u) \<le> 200)"


section \<open>An example\<close>

text \<open>The inventory of the example of the theory \<open>Inventory_History\<close>, over HTTP.\<close>

definition demo_grants :: identity_db where
  "demo_grants = demo_sites_db\<lparr>
     db_permissions := [\<lparr>pe_id = 6, pe_code = ''devices.view''\<rparr>, \<lparr>pe_id = 7, pe_code = ''devices.create''\<rparr>,
       \<lparr>pe_id = 8, pe_code = ''devices.update''\<rparr>],
     db_role_permissions := [(5, 6), (5, 7), (5, 8)]\<rparr>"

definition demo_call :: "nat \<Rightarrow> api_call" where
  "demo_call n = \<lparr>ca_now = 1100000000, ca_headers = demo_bearer,
     ca_correlation = \<lparr>co_request_id = 61, co_correlation_id = 62\<rparr>,
     ca_tick = demo_tick n, ca_sessions = fst demo_login, ca_grants = demo_grants,
     ca_network = \<lparr>nw_interfaces = [], nw_addresses = []\<rparr>\<rparr>"

definition demo_state :: app_state where
  "demo_state = \<lparr>st_authorization = demo_az, st_inventory = demo_env,
     st_lower = to_ascii_lowercase, st_inventory_require_approval = False\<rparr>"

lemma demo_permissions:
  "require_site_permission demo_grants demo_principal 20 ''devices.create'' = Inr ()"
  "require_site_permission demo_grants demo_principal 20 ''devices.update'' = Inr ()"
  "require_site_permission demo_grants demo_principal 20 ''devices.view'' = Inr ()"
  by code_simp+

lemma demo_auth_call: "authenticate (st_authorization demo_state) (ca_now (demo_call n)) (ca_headers (demo_call n))
    (ca_sessions (demo_call n)) = Inr demo_principal"
  using demo_authenticates by (simp add: demo_state_def demo_call_def)

lemma demo_permitted:
  assumes "require_site_permission demo_grants demo_principal site (request_permission req) = Inr ()"
  shows "serve demo_state (demo_call n) site req db = permitted demo_state (demo_call n) site demo_principal req db"
  using demo_auth_call assms by (simp add: serve_permitted api_authorize_def) (simp add: demo_call_def)

lemma demo_api_context: "api_mutation_context (st_inventory demo_state) demo_principal 20
    (ca_correlation (demo_call n)) = staff_context"
  by (simp add: api_mutation_context_def demo_state_def demo_env_def plain_env_def demo_principal_def
      demo_call_def staff_context_def)

lemma demo_served_create: "serve demo_state (demo_call 0) 20 (CreateRequest demo_device) demo_inventory
    = (demo_db, \<lparr>re_status = CREATED_201, re_body = DeviceBody switch_view\<rparr>)"
proof -
  have "serve demo_state (demo_call 0) 20 (CreateRequest demo_device) demo_inventory
      = permitted demo_state (demo_call 0) 20 demo_principal (CreateRequest demo_device) demo_inventory"
    by (rule demo_permitted) (simp add: demo_permissions)
  then show ?thesis
    by (simp only: permitted.simps demo_api_context) (simp add: demo_state_def demo_call_def answer_mutation_def demo_created)
qed

lemma demo_served_update: "serve demo_state (demo_call 1) 20 (UpdateRequest 10 1 demo_patch) demo_db
    = (demo_db2, \<lparr>re_status = OK_200, re_body = DeviceBody switch_view2\<rparr>)"
proof -
  have "serve demo_state (demo_call 1) 20 (UpdateRequest 10 1 demo_patch) demo_db
      = permitted demo_state (demo_call 1) 20 demo_principal (UpdateRequest 10 1 demo_patch) demo_db"
    by (rule demo_permitted) (simp add: demo_permissions)
  then show ?thesis
    by (simp only: permitted.simps demo_api_context)
      (simp add: demo_state_def demo_call_def answer_mutation_def demo_updated [simplified])
qed

lemma demo_api_laws: "audit_laws (ie_audit_ops (st_inventory demo_state))"
  "inventory_inv (st_inventory demo_state) demo_inventory" "inventory_inv (st_inventory demo_state) demo_db"
  by (simp_all add: demo_state_def demo_laws demo_inventory_inv demo_db_inv)

lemma demo_call_ms: "in_i64 (tk_utc_ms (ca_tick (demo_call 0)))" "in_i64 (tk_utc_ms (ca_tick (demo_call 1)))"
  by (simp_all add: demo_call_def demo_tick_def in_i64_def i64_min_def i64_max_def)

lemma demo_api_reach: "(api_step demo_state)\<^sup>*\<^sup>* demo_inventory demo_db"
  using step_served [OF demo_call_ms(1) demo_served_create] by blast

theorem changes_are_authorized_witness:
  "\<exists>pr v. authenticate demo_az 1100000000 demo_bearer (fst demo_login) = Inr pr
    \<and> require_site_permission demo_grants pr 20 ''devices.create'' = Inr ()
    \<and> commits demo_env (demo_tick 0) (api_mutation_context demo_env pr 20
        \<lparr>co_request_id = 61, co_correlation_id = 62\<rparr>) demo_inventory demo_db v"
proof -
  have "iv_devices demo_inventory = []" by (simp add: demo_inventory_def)
  then have "demo_db \<noteq> demo_inventory" using demo_row by auto
  from changes_are_authorized [OF demo_served_create this] show ?thesis
    by (auto simp: demo_state_def demo_call_def)
qed

theorem shown_devices_in_scope_witness: "loaded demo_db2 2 20 10 = Inr switch_view2"
proof -
  have "switch_view2 \<in> body_devices (re_body \<lparr>re_status = OK_200, re_body = DeviceBody switch_view2\<rparr>)"
    by simp
  from shown_devices_in_scope [OF demo_api_laws(1,2) demo_api_reach demo_served_update this] show ?thesis
    by (auto simp: switch_view2_def switch_view_def)
qed



end
