(* ===== verification/Service_Accounts.thy ===== *)
theory Service_Accounts
  imports Startup Utf8
begin

text \<open>
  Service accounts (\<open>crates/identity-store/src/lib.rs\<close>): accounts with their credentials, the
  authentication of a service token, and the binding of roles, which the trigger
  \<open>validate_role_binding_scope\<close> of the database checks.

  The cast of a text to \<open>cidr\<close> is the database's and a parameter: the code relies on it to read the
  address and the length the text names. \<open>inet <<= cidr\<close> compares the bits of the prefix.
\<close>

section \<open>The store\<close>

record identity_ops = token_ops +
  id_cidr :: "string \<Rightarrow> (ip_addr \<times> nat) option"

datatype identity_store_error =
    IdInvalidInput | IdNotFoundOrDisabled | IdInvalidToken | IdInvalidStoredCredential
  | IdTokenGeneration | IdDatabase

record service_account_summary =
  su_id :: uuid
  su_organization_id :: uuid
  su_name :: string
  su_status :: string

record new_credential =
  nc_scopes :: "string list"
  nc_allowed_cidrs :: "string list"
  nc_expires_at_unix_seconds :: "i64 option"

record issued_credential =
  ic_credential_id :: uuid
  ic_token :: issued_opaque_token

record service_principal =
  sp_service_account_id :: uuid
  sp_credential_id :: uuid
  sp_organization_id :: uuid
  sp_effective_permissions :: "string list"

definition service_token_prefix :: string where
  "service_token_prefix = ''snm_sa''"

definition visible_prefix_length :: nat where
  "visible_prefix_length = length service_token_prefix + 9"

definition scope_byte :: "char \<Rightarrow> bool" where
  "scope_byte b \<longleftrightarrow> is_ascii_lowercase b \<or> is_ascii_digit b \<or> b = CHR ''.'' \<or> b = CHR ''_'' \<or> b = CHR ''-''"

definition validate_scope :: "string \<Rightarrow> identity_store_error + unit" where
  "validate_scope scope =
     (if scope = [] \<or> length scope > 128 \<or> CHR ''.'' \<notin> set scope \<or> \<not> list_all scope_byte scope
      then Inl IdInvalidInput else Inr ())"

definition validate_scopes :: "string list \<Rightarrow> identity_store_error + unit" where
  "validate_scopes scopes =
     (if scopes = [] \<or> length scopes > 128 then Inl IdInvalidInput else for_eachR validate_scope scopes)"

fun prefix_valid :: "ip_addr \<Rightarrow> int \<Rightarrow> bool" where
  "prefix_valid (V4 a) n = (n \<le> 32)"
| "prefix_valid (V6 a) n = (n \<le> 128)"

definition validate_cidr :: "string \<Rightarrow> identity_store_error + unit" where
  "validate_cidr cidr =
     bindR (ok_or IdInvalidInput (split_once (CHR ''/'') cidr)) (\<lambda>(address, prefix).
     bindR (ok_or IdInvalidInput (parse_ip address)) (\<lambda>address.
     bindR (ok_or IdInvalidInput (parse_unsigned 255 prefix)) (\<lambda>prefix.
     if prefix_valid address prefix then Inr () else Inl IdInvalidInput)))"

definition validate_cidrs :: "string list \<Rightarrow> identity_store_error + unit" where
  "validate_cidrs cidrs = (if length cidrs > 128 then Inl IdInvalidInput else for_eachR validate_cidr cidrs)"

text \<open>\<open>BTreeSet\<close>: in order, without repetition.\<close>

definition intersect_permissions :: "string list \<Rightarrow> string list \<Rightarrow> string list" where
  "intersect_permissions token_scopes rbac_permissions =
     sort (remdups (filter (\<lambda>s. s \<in> set rbac_permissions) token_scopes))"

definition row_to_account :: "service_account_row \<Rightarrow> service_account_summary" where
  "row_to_account r = \<lparr>su_id = sa_id r, su_organization_id = sa_organization_id r,
     su_name = sa_name r, su_status = sa_status r\<rparr>"

definition create_account ::
  "uuid \<Rightarrow> uuid \<Rightarrow> string \<Rightarrow> identity_db \<Rightarrow> identity_store_error + (identity_db \<times> service_account_summary)" where
  "create_account new_id org name db =
     (let name = trim name in
      if name = [] \<or> length name > 160 then Inl IdInvalidInput
      else if \<not> list_ex (\<lambda>g. og_id g = org) (db_organizations db) then Inl IdDatabase
      else let row = \<lparr>sa_id = new_id, sa_organization_id = org, sa_name = name, sa_status = ''active''\<rparr> in
        bindR (insert_unless IdDatabase (\<lambda>q. sa_id q = new_id \<or> sa_organization_id q = org \<and> sa_name q = name)
          row (db_service_accounts db)) (\<lambda>rows.
        Inr (db\<lparr>db_service_accounts := rows\<rparr>, row_to_account row)))"

definition revoke_row :: "timestamp \<Rightarrow> service_credential_row \<Rightarrow> service_credential_row" where
  "revoke_row now c = c\<lparr>sc_revoked_at := (case sc_revoked_at c of None \<Rightarrow> Some now | Some t \<Rightarrow> Some t)\<rparr>"

definition disable_account :: "timestamp \<Rightarrow> uuid \<Rightarrow> uuid \<Rightarrow> identity_db \<Rightarrow> identity_db \<times> bool" where
  "disable_account now org account db =
     (let hit = (\<lambda>r. sa_id r = account \<and> sa_organization_id r = org \<and> sa_status r \<noteq> ''disabled'');
          updated = rows_affected hit (db_service_accounts db);
          db = db\<lparr>db_service_accounts := upd_where hit (\<lambda>r. r\<lparr>sa_status := ''disabled''\<rparr>) (db_service_accounts db)\<rparr>
      in if updated = 1
         then (db\<lparr>db_service_credentials :=
             upd_where (\<lambda>c. sc_service_account_id c = account) (revoke_row now) (db_service_credentials db)\<rparr>, True)
         else (db, False))"

text \<open>\<open>to_timestamp\<close> covers the years 4713 BC to 294276 AD.\<close>

definition sql_to_timestamp :: "i64 \<Rightarrow> timestamp option" where
  "sql_to_timestamp s = (if -210866803200 \<le> s \<and> s < 9224318016000 then Some (s * 1000000) else None)"

definition expiry_of :: "i64 option \<Rightarrow> timestamp option option" where
  "expiry_of s = (case s of None \<Rightarrow> Some None | Some s \<Rightarrow> map_option Some (sql_to_timestamp s))"

text \<open>The casts are evaluated for the account that is found, so a disabled account is reported first.\<close>

definition insert_credential ::
  "('z identity_ops_scheme) \<Rightarrow> uuid \<Rightarrow> uuid \<Rightarrow> uuid \<Rightarrow> new_credential \<Rightarrow> issued_opaque_token \<Rightarrow> identity_db
     \<Rightarrow> identity_store_error + identity_db" where
  "insert_credential ops new_id org account input token db =
     (if \<not> list_ex (\<lambda>r. sa_id r = account \<and> sa_organization_id r = org \<and> sa_status r = ''active'')
           (db_service_accounts db)
      then Inl IdNotFoundOrDisabled
      else bindR (ok_or IdDatabase (those (map (id_cidr ops) (nc_allowed_cidrs input)))) (\<lambda>cidrs.
        bindR (ok_or IdDatabase (expiry_of (nc_expires_at_unix_seconds input))) (\<lambda>expires_at.
        if length (io_hash token) \<noteq> 32 then Inl IdDatabase else
        bindR (insert_unless IdDatabase
            (\<lambda>q. sc_id q = new_id \<or> sc_service_account_id q = account \<and> sc_token_prefix q = io_prefix token)
            \<lparr>sc_id = new_id, sc_service_account_id = account, sc_token_prefix = io_prefix token,
             sc_token_hash = io_hash token, sc_scopes = nc_scopes input, sc_allowed_cidrs = cidrs,
             sc_expires_at = expires_at, sc_revoked_at = None, sc_last_used_at = None\<rparr>
            (db_service_credentials db)) (\<lambda>rows.
        Inr (db\<lparr>db_service_credentials := rows\<rparr>)))))"

definition issue_credential ::
  "('z identity_ops_scheme) \<Rightarrow> bytes \<Rightarrow> uuid \<Rightarrow> uuid \<Rightarrow> uuid \<Rightarrow> new_credential \<Rightarrow> identity_db
     \<Rightarrow> identity_store_error + (identity_db \<times> issued_credential)" where
  "issue_credential ops random new_id org account input db =
     bindR (validate_scopes (nc_scopes input)) (\<lambda>_.
     bindR (validate_cidrs (nc_allowed_cidrs input)) (\<lambda>_.
     bindR (map_err (\<lambda>_. IdTokenGeneration) (issue_opaque_token ops random service_token_prefix)) (\<lambda>token.
     bindR (insert_credential ops new_id org account input token db) (\<lambda>db.
     Inr (db, \<lparr>ic_credential_id = new_id, ic_token = token\<rparr>)))))"

definition revoke_credential ::
  "timestamp \<Rightarrow> uuid \<Rightarrow> uuid \<Rightarrow> uuid \<Rightarrow> identity_db \<Rightarrow> identity_db \<times> bool" where
  "revoke_credential now org account credential db =
     (let hit = (\<lambda>c. sc_id c = credential \<and> sc_service_account_id c = account
            \<and> list_ex (\<lambda>r. sa_id r = sc_service_account_id c \<and> sa_organization_id r = org) (db_service_accounts db)
            \<and> sc_revoked_at c = None)
      in (db\<lparr>db_service_credentials := upd_where hit (revoke_row now) (db_service_credentials db)\<rparr>,
          rows_affected hit (db_service_credentials db) = 1))"

section \<open>Authentication of a service token\<close>

definition ip_within :: "ip_addr \<Rightarrow> ip_addr \<times> nat \<Rightarrow> bool" where
  "ip_within ip = (\<lambda>(network, n). prefix_bits n ip = prefix_bits n network)"

definition credential_usable :: "timestamp \<Rightarrow> string \<Rightarrow> ip_addr \<Rightarrow> service_credential_row \<Rightarrow> bool" where
  "credential_usable now token_prefix source_ip c \<longleftrightarrow> sc_token_prefix c = token_prefix \<and> sc_revoked_at c = None
     \<and> (case sc_expires_at c of None \<Rightarrow> True | Some t \<Rightarrow> t > now)
     \<and> (sc_allowed_cidrs c = [] \<or> list_ex (ip_within source_ip) (sc_allowed_cidrs c))"

definition service_candidates ::
  "timestamp \<Rightarrow> string \<Rightarrow> ip_addr \<Rightarrow> identity_db \<Rightarrow> (service_credential_row \<times> service_account_row) list" where
  "service_candidates now token_prefix source_ip db =
     concat (map (\<lambda>c. map (Pair c) (filter (\<lambda>sa. sa_id sa = sc_service_account_id c \<and> sa_status sa = ''active'')
         (db_service_accounts db)))
       (filter (credential_usable now token_prefix source_ip) (db_service_credentials db)))"

definition rbac_permissions :: "identity_db \<Rightarrow> service_account_row \<Rightarrow> string list" where
  "rbac_permissions db sa = codes_where db (\<lambda>rb. rb_organization_id rb = sa_organization_id sa
     \<and> rb_service_account_id rb = Some (sa_id sa))"

text \<open>The first row whose hash is that of the token; \<open>None\<close> is the panic on the comparison key.\<close>

fun matching_row ::
  "('z token_ops_scheme) \<Rightarrow> bytes \<Rightarrow> (service_credential_row \<times> service_account_row) list
     \<Rightarrow> (identity_store_error + service_credential_row \<times> service_account_row) option" where
  "matching_row ops token [] = Some (Inl IdInvalidToken)"
| "matching_row ops token ((c, sa) # rows) =
     (if length (sc_token_hash c) \<noteq> 32 then Some (Inl IdInvalidStoredCredential)
      else Option.bind (opaque_token_matches ops token (sc_token_hash c)) (\<lambda>matches.
        if \<not> matches then matching_row ops token rows else Some (Inr (c, sa))))"

definition service_principal_of ::
  "identity_db \<Rightarrow> service_credential_row \<Rightarrow> service_account_row \<Rightarrow> service_principal" where
  "service_principal_of db c sa =
     \<lparr>sp_service_account_id = sc_service_account_id c, sp_credential_id = sc_id c,
      sp_organization_id = sa_organization_id sa,
      sp_effective_permissions = intersect_permissions (sc_scopes c) (rbac_permissions db sa)\<rparr>"

definition service_authenticate ::
  "('z token_ops_scheme) \<Rightarrow> timestamp \<Rightarrow> bytes \<Rightarrow> ip_addr \<Rightarrow> identity_db
     \<Rightarrow> (identity_db \<times> (identity_store_error + service_principal)) option" where
  "service_authenticate ops now token source_ip db =
     (if \<not> utf8_valid token \<or> \<not> starts_with ''snm_sa_'' token \<or> length token > 256
      then Some (db, Inl IdInvalidToken)
      else let visible_prefix = concat (take visible_prefix_length (utf8_chars token)) in
      if length visible_prefix \<noteq> visible_prefix_length then Some (db, Inl IdInvalidToken)
      else map_option (\<lambda>result. case result of
          Inl error \<Rightarrow> (db, Inl error)
        | Inr (c, sa) \<Rightarrow>
            (db\<lparr>db_service_credentials := upd_where (\<lambda>q. sc_id q = sc_id c)
               (\<lambda>q. q\<lparr>sc_last_used_at := Some now\<rparr>) (db_service_credentials db)\<rparr>,
             Inr (service_principal_of db c sa)))
        (matching_row ops token (service_candidates now visible_prefix source_ip db)))"

section \<open>Role bindings\<close>

text \<open>The trigger; a \<open>SELECT INTO\<close> that finds no row leaves the variable null.\<close>

definition binding_scope_ok :: "identity_db \<Rightarrow> binding_row \<Rightarrow> bool" where
  "binding_scope_ok db rb =
     (let bound_org = rb_organization_id rb;
          role_org = Option.bind (List.find (\<lambda>r. ro_id r = rb_role_id rb) (db_roles db)) ro_organization_id
      in (case role_org of None \<Rightarrow> True | Some r \<Rightarrow> r = bound_org)
       \<and> (case rb_site_id rb of None \<Rightarrow> True
          | Some s \<Rightarrow> (case List.find (\<lambda>x. si_id x = s) (db_sites db) of
              None \<Rightarrow> False | Some x \<Rightarrow> si_organization_id x = bound_org))
       \<and> (case rb_user_id rb of None \<Rightarrow> True
          | Some u \<Rightarrow> list_ex (\<lambda>x. us_id x = u \<and> us_organization_id x = bound_org) (db_users db))
       \<and> (case rb_service_account_id rb of None \<Rightarrow> True
          | Some sa \<Rightarrow> list_ex (\<lambda>x. sa_id x = sa \<and> sa_organization_id x = bound_org) (db_service_accounts db)))"

definition bind_role ::
  "uuid \<Rightarrow> uuid \<Rightarrow> uuid \<Rightarrow> uuid \<Rightarrow> uuid option \<Rightarrow> identity_db \<Rightarrow> identity_store_error + identity_db" where
  "bind_role new_id org account role site db =
     (let rb = \<lparr>rb_id = new_id, rb_organization_id = org, rb_role_id = role, rb_user_id = None,
            rb_service_account_id = Some account, rb_site_id = site\<rparr>
      in if \<not> binding_scope_ok db rb
            \<or> \<not> list_ex (\<lambda>r. ro_id r = role) (db_roles db)
            \<or> \<not> list_ex (\<lambda>g. og_id g = org) (db_organizations db)
         then Inl IdDatabase
         else bindR (insert_unless IdDatabase (\<lambda>q. rb_id q = new_id) rb (db_role_bindings db)) (\<lambda>rows.
           Inr (db\<lparr>db_role_bindings := rows\<rparr>)))"

end
