(* ===== verification/Service_History.thy ===== *)
theory Service_History
  imports Service_Accounts
begin

text \<open>
  What the store of service accounts promises. Its operations are the steps of a machine that keeps
  \<open>service_inv\<close> and only moves forward: accounts and credentials keep what identifies them, a disabled
  account stays disabled and a revoked credential revoked.
\<close>

section \<open>What authentication establishes\<close>

lemma in_upd_where: "r \<in> set rows \<Longrightarrow> (if p r then f r else r) \<in> set (upd_where p f rows)"
  unfolding set_upd_where by (rule imageI)

lemma service_candidates_iff:
  "(c, sa) \<in> set (service_candidates now p ip db) \<longleftrightarrow>
     c \<in> set (db_service_credentials db) \<and> credential_usable now p ip c
     \<and> sa \<in> set (db_service_accounts db) \<and> sa_id sa = sc_service_account_id c \<and> sa_status sa = ''active''"
  by (auto simp: service_candidates_def)

lemma matching_row_found:
  assumes "matching_row ops token rows = Some (Inr (c, sa))"
  shows "(c, sa) \<in> set rows \<and> opaque_token_matches ops token (sc_token_hash c) = Some True"
  using assms
proof (induction rows)
  case (Cons x rows)
  obtain d sb where x: "x = (d, sb)" by (cases x)
  with Cons.prems obtain b where b: "opaque_token_matches ops token (sc_token_hash d) = Some b"
    by (auto simp: bind_eq_Some_conv split: if_splits)
  show ?case
  proof (cases b)
    case True
    then show ?thesis using Cons.prems x b by (simp split: if_splits)
  next
    case False
    then have "matching_row ops token rows = Some (Inr (c, sa))"
      using Cons.prems x b by (simp split: if_splits)
    from Cons.IH [OF this] show ?thesis by simp
  qed
qed simp

lemma matching_row_total:
  assumes "\<And>c sa. (c, sa) \<in> set rows \<Longrightarrow> length (sc_token_hash c) = 32"
    and "\<And>h. \<exists>b. opaque_token_matches ops token h = Some b"
  shows "(\<exists>c sa. matching_row ops token rows = Some (Inr (c, sa)))
    \<or> matching_row ops token rows = Some (Inl IdInvalidToken)
      \<and> (\<forall>(c, sa) \<in> set rows. opaque_token_matches ops token (sc_token_hash c) \<noteq> Some True)"
  using assms(1)
proof (induction rows)
  case (Cons x rows)
  obtain c sa where x: "x = (c, sa)" by (cases x)
  obtain b where "opaque_token_matches ops token (sc_token_hash c) = Some b" using assms(2) by blast
  with Cons x show ?case by (cases b) auto
qed simp

lemma intersect_permissions_set:
  "set (intersect_permissions scopes rbac) = set scopes \<inter> set rbac"
  "distinct (intersect_permissions scopes rbac)" "sorted (intersect_permissions scopes rbac)"
  by (auto simp: intersect_permissions_def)

lemma service_authenticate_cases:
  assumes "service_authenticate ops now token ip db = Some (db', result)"
  obtains (refused) e where "result = Inl e" "db' = db"
    | (accepted) c sa p where "matching_row ops token (service_candidates now p ip db) = Some (Inr (c, sa))"
        "result = Inr (service_principal_of db c sa)"
        "db' = db\<lparr>db_service_credentials := upd_where (\<lambda>q. sc_id q = sc_id c)
           (\<lambda>q. q\<lparr>sc_last_used_at := Some now\<rparr>) (db_service_credentials db)\<rparr>"
proof -
  let ?p = "concat (take visible_prefix_length (utf8_chars token))"
  let ?m = "matching_row ops token (service_candidates now ?p ip db)"
  have "result = Inl IdInvalidToken \<and> db' = db \<or> (\<exists>r. ?m = Some r \<and> (db', result) = (case r of
      Inl error \<Rightarrow> (db, Inl error)
    | Inr (c, sa) \<Rightarrow> (db\<lparr>db_service_credentials := upd_where (\<lambda>q. sc_id q = sc_id c)
           (\<lambda>q. q\<lparr>sc_last_used_at := Some now\<rparr>) (db_service_credentials db)\<rparr>, Inr (service_principal_of db c sa))))"
    using assms unfolding service_authenticate_def Let_def by (auto simp only: split: if_splits)
  then show ?thesis
  proof (elim disjE exE conjE)
    fix r assume "?m = Some r" "(db', result) = (case r of
      Inl error \<Rightarrow> (db, Inl error)
    | Inr (c, sa) \<Rightarrow> (db\<lparr>db_service_credentials := upd_where (\<lambda>q. sc_id q = sc_id c)
           (\<lambda>q. q\<lparr>sc_last_used_at := Some now\<rparr>) (db_service_credentials db)\<rparr>, Inr (service_principal_of db c sa)))"
    then show ?thesis using refused accepted by (cases r) auto
  qed (rule refused)
qed

text \<open>C14: What a service principal stands for. A token is accepted only when it matches the stored hash of a
  credential that is neither revoked nor expired, that allows the source address, and whose account is
  active; the principal names that credential, that account and its organization, and its permissions are
  exactly the scopes of the credential that the roles bound to the account grant in its organization:
  a token can only reduce them. The only column that changes is the time of the last use.\<close>

theorem service_principal_is_current:
  assumes "service_authenticate ops now token ip db = Some (db', Inr pr)"
  shows "\<exists>c \<in> set (db_service_credentials db). \<exists>sa \<in> set (db_service_accounts db).
      sc_id c = sp_credential_id pr \<and> sa_id sa = sp_service_account_id pr \<and> sc_service_account_id c = sa_id sa
      \<and> sa_organization_id sa = sp_organization_id pr \<and> sa_status sa = ''active''
      \<and> sc_revoked_at c = None \<and> (\<forall>t. sc_expires_at c = Some t \<longrightarrow> now < t)
      \<and> (sc_allowed_cidrs c = [] \<or> (\<exists>(a, n) \<in> set (sc_allowed_cidrs c). prefix_bits n ip = prefix_bits n a))
      \<and> opaque_token_matches ops token (sc_token_hash c) = Some True
      \<and> set (sp_effective_permissions pr) = set (sc_scopes c) \<inter> {p. \<exists>rb \<in> set (db_role_bindings db).
          rb_organization_id rb = sp_organization_id pr \<and> rb_service_account_id rb = Some (sa_id sa)
          \<and> p \<in> set (codes_of_role db (rb_role_id rb))}
      \<and> db' = db\<lparr>db_service_credentials := map (\<lambda>q. if sc_id q = sc_id c then q\<lparr>sc_last_used_at := Some now\<rparr>
          else q) (db_service_credentials db)\<rparr>"
  using assms
proof (cases rule: service_authenticate_cases)
  case (accepted c sa p)
  have row: "(c, sa) \<in> set (service_candidates now p ip db)"
    "opaque_token_matches ops token (sc_token_hash c) = Some True"
    using matching_row_found [OF accepted(1)] by blast+
  then have c: "c \<in> set (db_service_credentials db)" "credential_usable now p ip c"
    and sa: "sa \<in> set (db_service_accounts db)" "sa_id sa = sc_service_account_id c" "sa_status sa = ''active''"
    by (simp_all add: service_candidates_iff)
  have "list_ex (ip_within ip) (sc_allowed_cidrs c) \<longleftrightarrow>
      (\<exists>(a, n) \<in> set (sc_allowed_cidrs c). prefix_bits n ip = prefix_bits n a)"
    by (auto simp: list_ex_iff ip_within_def)
  then show ?thesis
    using c(2) sa(2,3) row(2) accepted(2,3)
    by (intro bexI [OF _ c(1)] bexI [OF _ sa(1)])
      (auto simp: credential_usable_def service_principal_of_def intersect_permissions_set rbac_permissions_def
        codes_where_iff upd_where_def split: option.splits)
qed simp

section \<open>The store as a machine\<close>

definition service_inv :: "identity_db \<Rightarrow> bool" where
  "service_inv db \<longleftrightarrow> distinct (map sa_id (db_service_accounts db))
     \<and> distinct (map sc_id (db_service_credentials db))
     \<and> (\<forall>sa \<in> set (db_service_accounts db). sa_status sa = ''active'' \<or> sa_status sa = ''disabled'')
     \<and> (\<forall>c \<in> set (db_service_credentials db). length (sc_token_hash c) = 32
          \<and> (\<exists>sa \<in> set (db_service_accounts db). sa_id sa = sc_service_account_id c
               \<and> (sa_status sa = ''disabled'' \<longrightarrow> sc_revoked_at c \<noteq> None)))"

definition account_forward :: "service_account_row \<Rightarrow> service_account_row \<Rightarrow> bool" where
  "account_forward a b \<longleftrightarrow> sa_id b = sa_id a \<and> sa_organization_id b = sa_organization_id a
     \<and> sa_name b = sa_name a \<and> (sa_status a = ''disabled'' \<longrightarrow> sa_status b = ''disabled'')"

definition credential_forward :: "service_credential_row \<Rightarrow> service_credential_row \<Rightarrow> bool" where
  "credential_forward c d \<longleftrightarrow> sc_id d = sc_id c \<and> sc_service_account_id d = sc_service_account_id c
     \<and> sc_token_prefix d = sc_token_prefix c \<and> sc_token_hash d = sc_token_hash c \<and> sc_scopes d = sc_scopes c
     \<and> sc_allowed_cidrs d = sc_allowed_cidrs c \<and> sc_expires_at d = sc_expires_at c
     \<and> (sc_revoked_at c \<noteq> None \<longrightarrow> sc_revoked_at d = sc_revoked_at c)"

definition service_forward :: "identity_db \<Rightarrow> identity_db \<Rightarrow> bool" where
  "service_forward db db' \<longleftrightarrow>
     (\<forall>a \<in> set (db_service_accounts db). \<exists>b \<in> set (db_service_accounts db'). account_forward a b)
     \<and> (\<forall>c \<in> set (db_service_credentials db). \<exists>d \<in> set (db_service_credentials db'). credential_forward c d)"

text \<open>Other components write to other tables.\<close>

inductive service_step :: "'z identity_ops_scheme \<Rightarrow> identity_db \<Rightarrow> identity_db \<Rightarrow> bool" for ops where
  step_create: "create_account i org name db = Inr (db', s) \<Longrightarrow> service_step ops db db'"
| step_disable: "disable_account now org account db = (db', b) \<Longrightarrow> service_step ops db db'"
| step_issue: "issue_credential ops random i org account input db = Inr (db', ic) \<Longrightarrow> service_step ops db db'"
| step_revoke: "revoke_credential now org account credential db = (db', b) \<Longrightarrow> service_step ops db db'"
| step_authenticate: "service_authenticate ops now token ip db = Some (db', r) \<Longrightarrow> service_step ops db db'"
| step_bind: "bind_role i org account role site db = Inr db' \<Longrightarrow> service_step ops db db'"
| step_elsewhere: "db_service_accounts db' = db_service_accounts db
     \<Longrightarrow> db_service_credentials db' = db_service_credentials db \<Longrightarrow> service_step ops db db'"

lemma account_forward_refl: "account_forward a a" by (simp add: account_forward_def)
lemma credential_forward_refl: "credential_forward c c" by (simp add: credential_forward_def)

lemma service_forward_refl: "service_forward db db"
  using account_forward_refl credential_forward_refl by (auto simp: service_forward_def)

lemma service_forward_trans: "service_forward a b \<Longrightarrow> service_forward b c \<Longrightarrow> service_forward a c"
proof -
  have "account_forward x y \<Longrightarrow> account_forward y z \<Longrightarrow> account_forward x z" for x y z
    by (simp add: account_forward_def)
  moreover have "credential_forward x y \<Longrightarrow> credential_forward y z \<Longrightarrow> credential_forward x z" for x y z
    by (auto simp: credential_forward_def)
  ultimately show "service_forward a b \<Longrightarrow> service_forward b c \<Longrightarrow> service_forward a c"
    unfolding service_forward_def by meson
qed

text \<open>A step that changes rows of the credentials without touching what identifies them.\<close>

lemma credentials_updated:
  assumes inv: "service_inv db" and acc: "db_service_accounts db' = db_service_accounts db"
    and cred: "db_service_credentials db' = upd_where p f (db_service_credentials db)"
    and f: "\<And>c. credential_forward c (f c)"
  shows "service_inv db' \<and> service_forward db db'"
proof -
  have ids: "sc_id (f c) = sc_id c" "sc_service_account_id (f c) = sc_service_account_id c"
    "sc_token_hash (f c) = sc_token_hash c" "sc_revoked_at c \<noteq> None \<Longrightarrow> sc_revoked_at (f c) \<noteq> None" for c
    using f [of c] by (auto simp: credential_forward_def)
  have dist: "distinct (map sc_id (db_service_credentials db'))"
    using inv by (simp add: cred map_upd_where ids service_inv_def)
  have rows: "length (sc_token_hash d) = 32 \<and> (\<exists>sa \<in> set (db_service_accounts db).
      sa_id sa = sc_service_account_id d \<and> (sa_status sa = ''disabled'' \<longrightarrow> sc_revoked_at d \<noteq> None))"
    if d: "d \<in> set (db_service_credentials db')" for d
  proof -
    obtain c where c: "c \<in> set (db_service_credentials db)" "d = (if p c then f c else c)"
      using d by (auto simp: cred set_upd_where)
    then have d: "sc_token_hash d = sc_token_hash c" "sc_service_account_id d = sc_service_account_id c"
      "sc_revoked_at c \<noteq> None \<Longrightarrow> sc_revoked_at d \<noteq> None"
      using ids by (auto split: if_splits)
    obtain sa where "sa \<in> set (db_service_accounts db)" "sa_id sa = sc_service_account_id c"
      "sa_status sa = ''disabled'' \<longrightarrow> sc_revoked_at c \<noteq> None" "length (sc_token_hash c) = 32"
      using inv c(1) unfolding service_inv_def by blast
    then show ?thesis using d by auto
  qed
  have "service_forward db db'"
  proof -
    have "\<exists>d \<in> set (db_service_credentials db'). credential_forward c d"
      if "c \<in> set (db_service_credentials db)" for c
      using f credential_forward_refl that by (cases "p c") (force simp: cred set_upd_where)+
    then show ?thesis using account_forward_refl by (auto simp: service_forward_def acc)
  qed
  then show ?thesis using inv dist rows by (simp add: service_inv_def acc)
qed

lemma revoke_row_forward: "credential_forward c (revoke_row now c)"
  by (auto simp: credential_forward_def revoke_row_def split: option.splits)

lemma revoke_row_revoked: "sc_revoked_at (revoke_row now c) \<noteq> None"
  by (simp add: revoke_row_def split: option.splits)

definition disabled_rows :: "uuid \<Rightarrow> uuid \<Rightarrow> timestamp \<Rightarrow> identity_db \<Rightarrow> identity_db \<Rightarrow> bool" where
  "disabled_rows org account now db db' \<longleftrightarrow>
     db_service_accounts db' = upd_where (\<lambda>r. sa_id r = account \<and> sa_organization_id r = org
       \<and> sa_status r \<noteq> ''disabled'') (\<lambda>r. r\<lparr>sa_status := ''disabled''\<rparr>) (db_service_accounts db)
     \<and> db_service_credentials db' = upd_where (\<lambda>c. sc_service_account_id c = account) (revoke_row now)
         (db_service_credentials db)"

lemma disable_effect:
  assumes "disable_account now org account db = (db', b)" and "distinct (map sa_id (db_service_accounts db))"
  shows "db' = db \<or> disabled_rows org account now db db'"
proof -
  let ?hit = "\<lambda>r. sa_id r = account \<and> sa_organization_id r = org \<and> sa_status r \<noteq> ''disabled''"
  let ?dis = "\<lambda>r. r\<lparr>sa_status := ''disabled''\<rparr>"
  have "rows_affected ?hit (db_service_accounts db) = (if \<exists>r \<in> set (db_service_accounts db). ?hit r then 1 else 0)"
    using rows_affected_key [OF assms(2), of account "\<lambda>r. sa_organization_id r = org \<and> sa_status r \<noteq> ''disabled''"] by simp
  moreover have "upd_where ?hit ?dis (db_service_accounts db) = db_service_accounts db"
    if "\<not> (\<exists>r \<in> set (db_service_accounts db). ?hit r)"
    by (rule upd_where_none) (use that in blast)
  ultimately show ?thesis
    using assms(1) by (auto simp: disable_account_def disabled_rows_def Let_def split: if_splits)
qed

lemma disabled_account:
  assumes "disabled_rows org account now db db'" and "a \<in> set (db_service_accounts db)"
  shows "\<exists>a' \<in> set (db_service_accounts db'). account_forward a a'
    \<and> (sa_status a' = ''disabled'' \<longrightarrow> sa_status a = ''disabled'' \<or> sa_id a = account)"
proof (rule bexI)
  let ?hit = "\<lambda>r. sa_id r = account \<and> sa_organization_id r = org \<and> sa_status r \<noteq> ''disabled''"
  show "(if ?hit a then a\<lparr>sa_status := ''disabled''\<rparr> else a) \<in> set (db_service_accounts db')"
    using in_upd_where [OF assms(2), of ?hit] assms(1) by (simp add: disabled_rows_def)
qed (simp add: account_forward_def)

lemma disabled_credential:
  assumes "disabled_rows org account now db db'" and "d \<in> set (db_service_credentials db')"
  shows "\<exists>c \<in> set (db_service_credentials db). credential_forward c d
    \<and> (sc_service_account_id c = account \<longrightarrow> sc_revoked_at d \<noteq> None)"
proof -
  obtain c where c: "c \<in> set (db_service_credentials db)"
    "d = (if sc_service_account_id c = account then revoke_row now c else c)"
    using assms by (auto simp: disabled_rows_def set_upd_where)
  show ?thesis using c(2) revoke_row_forward credential_forward_refl revoke_row_revoked
    by (intro bexI [OF _ c(1)]) auto
qed

lemma disabled_rows_keep:
  assumes inv: "service_inv db" and dis: "disabled_rows org account now db db'"
  shows "service_inv db' \<and> service_forward db db'"
proof -
  have ids: "map sa_id (db_service_accounts db') = map sa_id (db_service_accounts db)"
    "map sc_id (db_service_credentials db') = map sc_id (db_service_credentials db)"
    using dis by (simp_all add: disabled_rows_def map_upd_where revoke_row_def)
  have rows: "length (sc_token_hash d) = 32 \<and> (\<exists>sa \<in> set (db_service_accounts db').
      sa_id sa = sc_service_account_id d \<and> (sa_status sa = ''disabled'' \<longrightarrow> sc_revoked_at d \<noteq> None))"
    if d: "d \<in> set (db_service_credentials db')" for d
  proof -
    obtain c where c: "c \<in> set (db_service_credentials db)" "credential_forward c d"
      "sc_service_account_id c = account \<longrightarrow> sc_revoked_at d \<noteq> None" using disabled_credential [OF dis d] by blast
    obtain a where a: "a \<in> set (db_service_accounts db)" "sa_id a = sc_service_account_id c"
      "sa_status a = ''disabled'' \<longrightarrow> sc_revoked_at c \<noteq> None" "length (sc_token_hash c) = 32"
      using inv c(1) unfolding service_inv_def by blast
    obtain a' where "a' \<in> set (db_service_accounts db')" "account_forward a a'"
      "sa_status a' = ''disabled'' \<longrightarrow> sa_status a = ''disabled'' \<or> sa_id a = account"
      using disabled_account [OF dis a(1)] by blast
    with a c show ?thesis by (intro conjI bexI [of _ a']) (auto simp: credential_forward_def account_forward_def)
  qed
  have "\<exists>d \<in> set (db_service_credentials db'). credential_forward c d"
    if "c \<in> set (db_service_credentials db)" for c
    using in_upd_where [OF that, of "\<lambda>c. sc_service_account_id c = account" "revoke_row now"] dis
      revoke_row_forward credential_forward_refl by (fastforce simp: disabled_rows_def split: if_splits)
  then have "service_forward db db'" using disabled_account [OF dis] unfolding service_forward_def by blast
  moreover have "sa_status a = ''active'' \<or> sa_status a = ''disabled''" if "a \<in> set (db_service_accounts db')" for a
    using that inv dis by (auto simp: disabled_rows_def set_upd_where service_inv_def)
  ultimately show ?thesis using inv rows by (simp add: service_inv_def ids)
qed

lemma disable_keeps:
  assumes inv: "service_inv db" and "disable_account now org account db = (db', b)"
  shows "service_inv db' \<and> service_forward db db'"
proof -
  have "distinct (map sa_id (db_service_accounts db))" using inv by (simp add: service_inv_def)
  from disable_effect [OF assms(2) this] show ?thesis
    using inv service_forward_refl disabled_rows_keep [OF inv] by blast
qed

lemma issue_credential_effect:
  assumes "issue_credential ops random i org account input db = Inr (db', ic)"
  obtains sa cidrs expires where "validate_scopes (nc_scopes input) = Inr ()"
    and "validate_cidrs (nc_allowed_cidrs input) = Inr ()"
    and "issue_opaque_token ops random service_token_prefix = Inr (ic_token ic)" and "ic_credential_id ic = i"
    and "sa \<in> set (db_service_accounts db)" "sa_id sa = account" "sa_organization_id sa = org" "sa_status sa = ''active''"
    and "those (map (id_cidr ops) (nc_allowed_cidrs input)) = Some cidrs"
    and "expiry_of (nc_expires_at_unix_seconds input) = Some expires" and "length (io_hash (ic_token ic)) = 32"
    and "\<forall>q \<in> set (db_service_credentials db). sc_id q \<noteq> i
      \<and> (sc_service_account_id q = account \<longrightarrow> sc_token_prefix q \<noteq> io_prefix (ic_token ic))"
    and "db' = db\<lparr>db_service_credentials := db_service_credentials db @
      [\<lparr>sc_id = i, sc_service_account_id = account, sc_token_prefix = io_prefix (ic_token ic),
        sc_token_hash = io_hash (ic_token ic), sc_scopes = nc_scopes input, sc_allowed_cidrs = cidrs,
        sc_expires_at = expires, sc_revoked_at = None, sc_last_used_at = None\<rparr>]\<rparr>"
  using assms
  by (auto simp: issue_credential_def insert_credential_def bindR_Inr_iff map_err_Inr_iff ok_or_Inr_iff
      insert_unless_Inr_iff list_ex_iff split: if_splits)

lemma service_step_keeps:
  assumes "service_step ops db db'" and inv: "service_inv db"
  shows "service_inv db' \<and> service_forward db db'"
  using assms(1)
proof cases
  case (step_create i org name s)
  then have db': "\<exists>a. sa_status a = ''active'' \<and> (\<forall>q \<in> set (db_service_accounts db). sa_id q \<noteq> sa_id a)
      \<and> db' = db\<lparr>db_service_accounts := db_service_accounts db @ [a]\<rparr>"
    by (intro exI [of _ "\<lparr>sa_id = i, sa_organization_id = org, sa_name = trim name, sa_status = ''active''\<rparr>"])
      (auto simp: create_account_def Let_def bindR_Inr_iff insert_unless_Inr_iff split: if_splits)
  then show ?thesis
    using inv account_forward_refl credential_forward_refl by (fastforce simp: service_inv_def service_forward_def)
next
  case (step_issue random i org account input ic)
  then show ?thesis
  proof (rule issue_credential_effect)
    fix sa cidrs expires
    assume sa: "sa \<in> set (db_service_accounts db)" "sa_id sa = account" "sa_status sa = ''active''"
      and h: "length (io_hash (ic_token ic)) = 32"
      and fresh: "\<forall>q \<in> set (db_service_credentials db). sc_id q \<noteq> i
        \<and> (sc_service_account_id q = account \<longrightarrow> sc_token_prefix q \<noteq> io_prefix (ic_token ic))"
      and db': "db' = db\<lparr>db_service_credentials := db_service_credentials db @
        [\<lparr>sc_id = i, sc_service_account_id = account, sc_token_prefix = io_prefix (ic_token ic),
          sc_token_hash = io_hash (ic_token ic), sc_scopes = nc_scopes input, sc_allowed_cidrs = cidrs,
          sc_expires_at = expires, sc_revoked_at = None, sc_last_used_at = None\<rparr>]\<rparr>"
    have "service_forward db db'"
      using account_forward_refl credential_forward_refl by (auto simp: service_forward_def db')
    then show ?thesis using inv sa h fresh by (auto simp: service_inv_def db')
  qed
next
  case (step_revoke now org account credential b)
  have acc: "db_service_accounts db' = db_service_accounts db"
    and cred: "db_service_credentials db' = upd_where (\<lambda>c. sc_id c = credential \<and> sc_service_account_id c = account
            \<and> list_ex (\<lambda>r. sa_id r = sc_service_account_id c \<and> sa_organization_id r = org) (db_service_accounts db)
            \<and> sc_revoked_at c = None) (revoke_row now) (db_service_credentials db)"
    using step_revoke by (auto simp: revoke_credential_def Let_def)
  show ?thesis by (rule credentials_updated [OF inv acc cred revoke_row_forward])
next
  case (step_authenticate now token ip r)
  then show ?thesis
  proof (cases rule: service_authenticate_cases)
    case (accepted c sa p)
    have acc: "db_service_accounts db' = db_service_accounts db"
      and cred: "db_service_credentials db' = upd_where (\<lambda>q. sc_id q = sc_id c)
         (\<lambda>q. q\<lparr>sc_last_used_at := Some now\<rparr>) (db_service_credentials db)"
      using accepted(3) by simp_all
    show ?thesis by (rule credentials_updated [OF inv acc cred]) (simp add: credential_forward_def)
  qed (use inv service_forward_refl in simp)
next
  case (step_bind i org account role site)
  then have "db_service_accounts db' = db_service_accounts db"
    "db_service_credentials db' = db_service_credentials db"
    by (auto simp: bind_role_def Let_def bindR_Inr_iff split: if_splits)
  then show ?thesis using inv service_forward_refl [of db] by (simp add: service_inv_def service_forward_def)
next
  case step_elsewhere
  then show ?thesis using inv service_forward_refl [of db] by (simp add: service_inv_def service_forward_def)
qed (rule disable_keeps [OF inv])

interpretation service: forward_machine "service_step ops" service_inv service_forward for ops
  by unfold_locales (use service_step_keeps service_forward_refl service_forward_trans in blast)+

section \<open>Properties\<close>

lemma principal_rows:
  assumes "service_authenticate ops now token ip db = Some (db', Inr pr)"
  obtains c sa where "c \<in> set (db_service_credentials db)" "sa \<in> set (db_service_accounts db)"
    and "sc_id c = sp_credential_id pr" "sa_id sa = sp_service_account_id pr" "sa_status sa = ''active''"
    and "sc_service_account_id c = sa_id sa" "sc_revoked_at c = None"
  using assms
proof (cases rule: service_authenticate_cases)
  case (accepted c sa p)
  then have "(c, sa) \<in> set (service_candidates now p ip db)" using matching_row_found by blast
  then have row: "c \<in> set (db_service_credentials db)" "sc_revoked_at c = None"
    "sa \<in> set (db_service_accounts db)" "sa_id sa = sc_service_account_id c" "sa_status sa = ''active''"
    by (simp_all add: service_candidates_iff credential_usable_def)
  have "pr = service_principal_of db c sa" using accepted(2) by simp
  then show ?thesis
    using row by (intro that [of c sa]) (simp_all add: service_principal_of_def)
qed simp

lemma disabled_after:
  assumes "disable_account now org account db = (db', b)"
    and "sa \<in> set (db_service_accounts db)" "sa_id sa = account" "sa_organization_id sa = org"
  shows "\<exists>a \<in> set (db_service_accounts db'). sa_id a = account \<and> sa_status a = ''disabled''"
proof -
  let ?hit = "\<lambda>r. sa_id r = account \<and> sa_organization_id r = org \<and> sa_status r \<noteq> ''disabled''"
  have "db_service_accounts db' = upd_where ?hit (\<lambda>r. r\<lparr>sa_status := ''disabled''\<rparr>) (db_service_accounts db)"
    using assms(1) by (auto simp: disable_account_def Let_def split: if_splits)
  then have "(if ?hit sa then sa\<lparr>sa_status := ''disabled''\<rparr> else sa) \<in> set (db_service_accounts db')"
    using in_upd_where [OF assms(2), of ?hit] by simp
  moreover have "sa_status (if ?hit sa then sa\<lparr>sa_status := ''disabled''\<rparr> else sa) = ''disabled''"
    using assms(3,4) by simp
  ultimately show ?thesis using assms(3) by (intro bexI) auto
qed

lemma revoked_after:
  assumes "revoke_credential now org account credential db = (db', b)"
    and "c \<in> set (db_service_credentials db)" "sc_id c = credential" "sc_service_account_id c = account"
    and "sa \<in> set (db_service_accounts db)" "sa_id sa = account" "sa_organization_id sa = org"
  shows "\<exists>d \<in> set (db_service_credentials db'). sc_id d = credential \<and> sc_revoked_at d \<noteq> None"
proof -
  let ?hit = "\<lambda>c. sc_id c = credential \<and> sc_service_account_id c = account
            \<and> list_ex (\<lambda>r. sa_id r = sc_service_account_id c \<and> sa_organization_id r = org) (db_service_accounts db)
            \<and> sc_revoked_at c = None"
  have "db_service_credentials db' = upd_where ?hit (revoke_row now) (db_service_credentials db)"
    using assms(1) by (auto simp: revoke_credential_def Let_def)
  then have "(if ?hit c then revoke_row now c else c) \<in> set (db_service_credentials db')"
    using in_upd_where [OF assms(2), of ?hit] by simp
  moreover have "sc_revoked_at (if ?hit c then revoke_row now c else c) \<noteq> None"
    using assms(3-7) revoke_row_revoked by (auto simp: list_ex_iff)
  moreover have "sc_id (if ?hit c then revoke_row now c else c) = credential"
    using assms(3) by (simp add: revoke_row_def)
  ultimately show ?thesis by blast
qed

text \<open>C20: Lock-out is final. Once an account of the organization was disabled, or one of its credentials
  revoked, no token authenticates as that account, or with that credential, ever again, whatever is
  created, issued, bound or revoked afterwards.\<close>

theorem lock_out_is_final:
  assumes inv: "service_inv db"
    and sa: "sa \<in> set (db_service_accounts db)" "sa_id sa = account" "sa_organization_id sa = org"
    and later: "(service_step ops)\<^sup>*\<^sup>* db1 db2"
    and auth: "service_authenticate ops' now token ip db2 = Some (db3, Inr pr)"
  shows "(disable_account t org account db = (db1, b) \<longrightarrow> sp_service_account_id pr \<noteq> account)
    \<and> (revoke_credential t org account credential db = (db1, b)
        \<and> (\<exists>c \<in> set (db_service_credentials db). sc_id c = credential \<and> sc_service_account_id c = account)
        \<longrightarrow> sp_credential_id pr \<noteq> credential)"
proof (intro conjI impI)
  assume d: "disable_account t org account db = (db1, b)"
  have inv1: "service_inv db1" by (rule service.step_inv [OF step_disable [OF d] inv])
  note reach = service.reach_inv [OF later inv1] service.reach_fwd [OF later inv1]
  obtain a where "a \<in> set (db_service_accounts db1)" "sa_id a = account" "sa_status a = ''disabled''"
    using disabled_after [OF d sa] by blast
  then obtain a' where a': "a' \<in> set (db_service_accounts db2)" "sa_id a' = account" "sa_status a' = ''disabled''"
    using reach(2) unfolding service_forward_def account_forward_def by metis
  from auth show "sp_service_account_id pr \<noteq> account"
  proof (rule principal_rows)
    fix c x
    assume x: "x \<in> set (db_service_accounts db2)" "sa_id x = sp_service_account_id pr" "sa_status x = ''active''"
    have "distinct (map sa_id (db_service_accounts db2))" using reach(1) by (simp add: service_inv_def)
    from distinct_key_unique [OF this a'(1) x(1)] show ?thesis using a'(2,3) x(2,3) by auto
  qed
next
  assume r: "revoke_credential t org account credential db = (db1, b)
    \<and> (\<exists>c \<in> set (db_service_credentials db). sc_id c = credential \<and> sc_service_account_id c = account)"
  then have step: "revoke_credential t org account credential db = (db1, b)" by blast
  have inv1: "service_inv db1" by (rule service.step_inv [OF step_revoke [OF step] inv])
  note reach = service.reach_inv [OF later inv1] service.reach_fwd [OF later inv1]
  obtain d where "d \<in> set (db_service_credentials db1)" "sc_id d = credential" "sc_revoked_at d \<noteq> None"
    using revoked_after [OF step _ _ _ sa] r by blast
  then obtain d' where d': "d' \<in> set (db_service_credentials db2)" "sc_id d' = credential" "sc_revoked_at d' \<noteq> None"
    using reach(2) unfolding service_forward_def credential_forward_def by metis
  from auth show "sp_credential_id pr \<noteq> credential"
  proof (rule principal_rows)
    fix c x
    assume c: "c \<in> set (db_service_credentials db2)" "sc_id c = sp_credential_id pr" "sc_revoked_at c = None"
    have "distinct (map sc_id (db_service_credentials db2))" using reach(1) by (simp add: service_inv_def)
    from distinct_key_unique [OF this d'(1) c(1)] show ?thesis using d'(2,3) c(2,3) by auto
  qed
qed

lemma find_key_ex:
  assumes "distinct (map k rows)"
  shows "(\<exists>x \<in> set rows. k x = i \<and> P x) \<longleftrightarrow> (\<exists>x. List.find (\<lambda>x. k x = i) rows = Some x \<and> P x)"
  using find_key_unique [OF assms] find_Some_set [of "\<lambda>x. k x = i" rows] by blast

text \<open>Binding a role. A binding is accepted exactly when its id is new, the organization and the role
  exist, the role is global or of the organization, the site, if one is named, is of the organization,
  and so is the account; it is then the only row added.\<close>

theorem bind_role_spec:
  assumes "distinct (map ro_id (db_roles db))" and "distinct (map si_id (db_sites db))"
  shows "bind_role i org account role site db = Inr db' \<longleftrightarrow>
     db' = db\<lparr>db_role_bindings := db_role_bindings db @ [\<lparr>rb_id = i, rb_organization_id = org, rb_role_id = role,
        rb_user_id = None, rb_service_account_id = Some account, rb_site_id = site\<rparr>]\<rparr>
     \<and> (\<forall>q \<in> set (db_role_bindings db). rb_id q \<noteq> i)
     \<and> (\<exists>g \<in> set (db_organizations db). og_id g = org)
     \<and> (\<exists>r \<in> set (db_roles db). ro_id r = role \<and> (ro_organization_id r = None \<or> ro_organization_id r = Some org))
     \<and> (\<forall>s. site = Some s \<longrightarrow> (\<exists>x \<in> set (db_sites db). si_id x = s \<and> si_organization_id x = org))
     \<and> (\<exists>sa \<in> set (db_service_accounts db). sa_id sa = account \<and> sa_organization_id sa = org)"
proof -
  have r: "((case Option.bind (List.find (\<lambda>r. ro_id r = role) (db_roles db)) ro_organization_id of
        None \<Rightarrow> True | Some r \<Rightarrow> r = org) \<and> list_ex (\<lambda>r. ro_id r = role) (db_roles db)) \<longleftrightarrow>
      (\<exists>r \<in> set (db_roles db). ro_id r = role \<and> (ro_organization_id r = None \<or> ro_organization_id r = Some org))"
  proof (cases "List.find (\<lambda>r. ro_id r = role) (db_roles db)")
    case None
    then have "\<forall>r \<in> set (db_roles db). ro_id r \<noteq> role" by (simp only: find_None_set)
    then show ?thesis by (auto simp: list_ex_iff)
  next
    case (Some q)
    then have "list_ex (\<lambda>r. ro_id r = role) (db_roles db)" using find_Some_set by (fastforce simp: list_ex_iff)
    then show ?thesis
      unfolding find_key_ex [OF assms(1)] Some by (cases "ro_organization_id q") simp_all
  qed
  have s: "(case site of None \<Rightarrow> True | Some s \<Rightarrow> (case List.find (\<lambda>x. si_id x = s) (db_sites db) of
              None \<Rightarrow> False | Some x \<Rightarrow> si_organization_id x = org)) \<longleftrightarrow>
      (\<forall>s. site = Some s \<longrightarrow> (\<exists>x \<in> set (db_sites db). si_id x = s \<and> si_organization_id x = org))"
  proof (cases site)
    case (Some s)
    then show ?thesis
      unfolding find_key_ex [OF assms(2)] Some by (cases "List.find (\<lambda>x. si_id x = s) (db_sites db)") simp_all
  qed simp
  let ?rb = "\<lparr>rb_id = i, rb_organization_id = org, rb_role_id = role, rb_user_id = None,
      rb_service_account_id = Some account, rb_site_id = site\<rparr>"
  have "bind_role i org account role site db = Inr db' \<longleftrightarrow> binding_scope_ok db ?rb
      \<and> list_ex (\<lambda>r. ro_id r = role) (db_roles db) \<and> (\<exists>g \<in> set (db_organizations db). og_id g = org)
      \<and> (\<forall>q \<in> set (db_role_bindings db). rb_id q \<noteq> i)
      \<and> db' = db\<lparr>db_role_bindings := db_role_bindings db @ [?rb]\<rparr>"
    by (auto simp: bind_role_def Let_def bindR_Inr_iff insert_unless_Inr_iff list_ex_iff)
  moreover have "binding_scope_ok db ?rb \<and> list_ex (\<lambda>r. ro_id r = role) (db_roles db) \<longleftrightarrow>
      (\<exists>r \<in> set (db_roles db). ro_id r = role \<and> (ro_organization_id r = None \<or> ro_organization_id r = Some org))
      \<and> (\<forall>s. site = Some s \<longrightarrow> (\<exists>x \<in> set (db_sites db). si_id x = s \<and> si_organization_id x = org))
      \<and> (\<exists>sa \<in> set (db_service_accounts db). sa_id sa = account \<and> sa_organization_id sa = org)"
    unfolding r [symmetric] s [symmetric]
    by (simp add: binding_scope_ok_def Let_def list_ex_iff conj_ac)
  ultimately show ?thesis by blast
qed

text \<open>What the code relies on: SHA-256 has 32 bytes, the base64 text of 32 bytes has 43 ASCII characters
  (what matters is that they are longer than the visible part of the token and short enough for it), and
  the database reads a block as the address and the length it names.\<close>

definition cidr_text :: "string \<Rightarrow> (ip_addr \<times> nat) option" where
  "cidr_text s = Option.bind (split_once (CHR ''/'') s) (\<lambda>(address, len).
     Option.bind (parse_ip address) (\<lambda>a. map_option (\<lambda>n. (a, nat n)) (parse_unsigned 255 len)))"

definition ascii_text :: "string \<Rightarrow> bool" where
  "ascii_text s \<longleftrightarrow> list_all (\<lambda>c. code_of c < 128) s"

definition service_laws :: "'z identity_ops_scheme \<Rightarrow> bool" where
  "service_laws ops \<longleftrightarrow> token_laws ops \<and> (\<forall>m. length (sha256 ops m) = 32)
     \<and> (\<forall>b. length b = 32 \<longrightarrow> ascii_text (b64_encode ops b)
          \<and> 32 \<le> length (b64_encode ops b) \<and> length (b64_encode ops b) \<le> 64)
     \<and> (\<forall>s c. validate_cidr s = Inr () \<and> id_cidr ops s = Some c \<longrightarrow> cidr_text s = Some c)"

lemma service_laws_mac: "service_laws ops \<Longrightarrow> \<exists>mac. hmac_new ops k = Some mac"
  unfolding service_laws_def by (elim conjE) (rule token_lawsD(3))

lemma issued_service_token:
  assumes "service_laws ops" and "length random = 32"
    and "issue_opaque_token ops random service_token_prefix = Inr t"
  shows "utf8_valid (io_secret t)" and "starts_with ''snm_sa_'' (io_secret t)" and "length (io_secret t) \<le> 256"
    and "concat (take visible_prefix_length (utf8_chars (io_secret t))) = io_prefix t"
    and "length (io_prefix t) = visible_prefix_length"
    and "opaque_token_matches ops (io_secret t) (io_hash t) = Some True"
proof -
  have e: "ascii_text (b64_encode ops random)" "32 \<le> length (b64_encode ops random)"
    "length (b64_encode ops random) \<le> 64"
    using assms(1,2) by (simp_all add: service_laws_def)
  have sec: "io_secret t = ''snm_sa_'' @ b64_encode ops random"
    using issued_secret(1) [OF assms(3)] by (simp add: service_token_prefix_def)
  have "ascii_text ''snm_sa_''" by (simp add: ascii_text_def) (code_simp)
  with e(1) have a: "list_all (\<lambda>c. code_of c < 128) (io_secret t)"
    by (simp add: ascii_text_def sec)
  have "concat (map (\<lambda>c. [c]) xs) = xs" for xs :: string by (induction xs) simp_all
  then show "concat (take visible_prefix_length (utf8_chars (io_secret t))) = io_prefix t"
    using issued_secret(3) [OF assms(3)]
    by (simp add: utf8_chars_ascii [OF a] take_map visible_prefix_length_def)
  show "length (io_prefix t) = visible_prefix_length"
  proof -
    have "length (io_secret t) = 7 + length (b64_encode ops random)" by (simp add: sec)
    then show ?thesis
      unfolding issued_secret(3) [OF assms(3)] using e(2)
      by (simp only: length_take visible_prefix_length_def) (simp add: service_token_prefix_def)
  qed
  show "utf8_valid (io_secret t)" by (rule utf8_valid_ascii [OF a])
  show "starts_with ''snm_sa_'' (io_secret t)" unfolding sec by (rule starts_with_append)
  show "length (io_secret t) \<le> 256" using e(3) by (simp add: sec)
  obtain mac where "hmac_new ops ''snm-token-hash-compare'' = Some mac"
    using service_laws_mac [OF assms(1)] by blast
  then show "opaque_token_matches ops (io_secret t) (io_hash t) = Some True"
    by (simp add: opaque_token_matches_def issued_secret(2) [OF assms(3)])
qed

lemma those_nth:
  assumes "those (map f xs) = Some ys" and "x \<in> set xs"
  shows "\<exists>y \<in> set ys. f x = Some y"
  using assms by (induction xs arbitrary: ys) (auto split: option.splits)

lemma those_Nil: "those (map f xs) = Some ys \<Longrightarrow> xs = [] \<longleftrightarrow> ys = []"
  by (cases xs) (auto split: option.splits)

lemma candidate_found:
  assumes laws: "service_laws ops" and inv: "service_inv db"
    and cand: "(c, b) \<in> set (service_candidates now p ip db)"
    and match: "opaque_token_matches ops token (sc_token_hash c) = Some True"
  shows "\<exists>d x. matching_row ops token (service_candidates now p ip db) = Some (Inr (d, x))
    \<and> d \<in> set (db_service_credentials db) \<and> opaque_token_matches ops token (sc_token_hash d) = Some True
    \<and> (sc_id d = sc_id c \<longrightarrow> d = c \<and> x = b)"
proof -
  let ?cands = "service_candidates now p ip db"
  have dist: "distinct (map sa_id (db_service_accounts db))" "distinct (map sc_id (db_service_credentials db))"
    using inv by (simp_all add: service_inv_def)
  have cred: "d \<in> set (db_service_credentials db)" "length (sc_token_hash d) = 32" "sc_service_account_id d = sa_id x"
    "x \<in> set (db_service_accounts db)" if "(d, x) \<in> set ?cands" for d x
    using that inv by (simp_all add: service_candidates_iff service_inv_def)
  obtain mac where "hmac_new ops ''snm-token-hash-compare'' = Some mac"
    using service_laws_mac [OF laws] by blast
  then have total: "\<exists>v. opaque_token_matches ops token h = Some v" for h by (simp add: opaque_token_matches_def)
  have "(\<exists>d x. matching_row ops token ?cands = Some (Inr (d, x)))
    \<or> matching_row ops token ?cands = Some (Inl IdInvalidToken)
      \<and> (\<forall>(d, x) \<in> set ?cands. opaque_token_matches ops token (sc_token_hash d) \<noteq> Some True)"
    by (rule matching_row_total) (use cred(2) total in blast)+
  then obtain d x where found: "matching_row ops token ?cands = Some (Inr (d, x))" using cand match by blast
  then have m: "(d, x) \<in> set ?cands" "opaque_token_matches ops token (sc_token_hash d) = Some True"
    using matching_row_found by blast+
  have "d = c \<and> x = b" if "sc_id d = sc_id c"
  proof
    show "d = c" by (rule distinct_key_unique [OF dist(2) cred(1) [OF m(1)] cred(1) [OF cand] that])
    then have "sa_id x = sa_id b" using cred(3) [OF m(1)] cred(3) [OF cand] by simp
    then show "x = b" by (rule distinct_key_unique [OF dist(1) cred(4) [OF m(1)] cred(4) [OF cand]])
  qed
  with found m cred(1) [OF m(1)] show ?thesis by blast
qed

text \<open>C35: An issued token works. A token that was issued for an account authenticates from every source
  address in one of the blocks it was issued for (any, if there are none) until it expires, as long as
  its account is active and its credential not revoked, whatever else happened in between; and unless the
  token fits another credential as well, the principal is that credential, its account and organization,
  with the permissions that both the scopes and the bound roles give.\<close>

theorem issued_token_works:
  assumes laws: "service_laws ops" and inv: "service_inv db" and random: "length random = 32"
    and issued: "issue_credential ops random i org account input db = Inr (db1, ic)"
    and later: "(service_step ops)\<^sup>*\<^sup>* db1 db2"
    and active: "\<exists>sa \<in> set (db_service_accounts db2). sa_id sa = account \<and> sa_status sa = ''active''"
    and not_revoked: "\<forall>c \<in> set (db_service_credentials db2). sc_id c = i \<longrightarrow> sc_revoked_at c = None"
    and not_expired: "\<forall>s. nc_expires_at_unix_seconds input = Some s \<longrightarrow> now < s * 1000000"
    and source: "nc_allowed_cidrs input = [] \<or> (\<exists>t \<in> set (nc_allowed_cidrs input).
      \<exists>a n. cidr_text t = Some (a, n) \<and> prefix_bits n ip = prefix_bits n a)"
  shows "\<exists>db3 pr. service_authenticate ops now (io_secret (ic_token ic)) ip db2 = Some (db3, Inr pr)
    \<and> ((\<forall>c \<in> set (db_service_credentials db2).
          opaque_token_matches ops (io_secret (ic_token ic)) (sc_token_hash c) = Some True \<longrightarrow> sc_id c = i)
       \<longrightarrow> sp_credential_id pr = i \<and> sp_service_account_id pr = account \<and> sp_organization_id pr = org
         \<and> sp_effective_permissions pr = intersect_permissions (nc_scopes input) (codes_where db2 (\<lambda>rb.
              rb_organization_id rb = org \<and> rb_service_account_id rb = Some account)))"
  using issued
proof (rule issue_credential_effect)
  fix sa cidrs expires
  assume valid: "validate_cidrs (nc_allowed_cidrs input) = Inr ()"
    and tok: "issue_opaque_token ops random service_token_prefix = Inr (ic_token ic)"
    and sa: "sa \<in> set (db_service_accounts db)" "sa_id sa = account" "sa_organization_id sa = org"
    and cidrs: "those (map (id_cidr ops) (nc_allowed_cidrs input)) = Some cidrs"
    and expires: "expiry_of (nc_expires_at_unix_seconds input) = Some expires"
    and db1: "db1 = db\<lparr>db_service_credentials := db_service_credentials db @
      [\<lparr>sc_id = i, sc_service_account_id = account, sc_token_prefix = io_prefix (ic_token ic),
        sc_token_hash = io_hash (ic_token ic), sc_scopes = nc_scopes input, sc_allowed_cidrs = cidrs,
        sc_expires_at = expires, sc_revoked_at = None, sc_last_used_at = None\<rparr>]\<rparr>"
  let ?t = "io_secret (ic_token ic)" and ?p = "io_prefix (ic_token ic)"
  note t = issued_service_token [OF laws random tok]
  have inv1: "service_inv db1" by (rule service.step_inv [OF step_issue [OF issued] inv])
  note reach = service.reach_inv [OF later inv1] service.reach_fwd [OF later inv1]
  have dist: "distinct (map sa_id (db_service_accounts db2))" "distinct (map sc_id (db_service_credentials db2))"
    using reach(1) by (simp_all add: service_inv_def)
  obtain c where c: "c \<in> set (db_service_credentials db2)" "sc_id c = i" "sc_service_account_id c = account"
    "sc_token_prefix c = ?p" "sc_token_hash c = io_hash (ic_token ic)" "sc_scopes c = nc_scopes input"
    "sc_allowed_cidrs c = cidrs" "sc_expires_at c = expires"
    using reach(2) by (fastforce simp: service_forward_def db1 credential_forward_def)
  obtain b where b: "b \<in> set (db_service_accounts db2)" "sa_id b = account" "sa_organization_id b = org"
    using reach(2) sa by (fastforce simp: service_forward_def db1 account_forward_def)
  have act: "sa_status b = ''active''" using active b(1,2) distinct_key_unique [OF dist(1)] by metis
  have "case expires of None \<Rightarrow> True | Some t \<Rightarrow> t > now"
    using expires not_expired by (auto simp: expiry_of_def sql_to_timestamp_def split: option.splits if_splits)
  moreover have "cidrs = [] \<or> list_ex (ip_within ip) cidrs"
  proof (cases "nc_allowed_cidrs input = []")
    case True
    then show ?thesis using those_Nil [OF cidrs] by simp
  next
    case False
    then obtain blk a n where x: "blk \<in> set (nc_allowed_cidrs input)" "cidr_text blk = Some (a, n)"
      "prefix_bits n ip = prefix_bits n a" using source by blast
    obtain y where y: "y \<in> set cidrs" "id_cidr ops blk = Some y" using those_nth [OF cidrs x(1)] by blast
    have "validate_cidr blk = Inr ()"
      using valid x(1) by (auto simp: validate_cidrs_def for_eachR_Inr_iff split: if_splits)
    then have "y = (a, n)" using laws y(2) x(2) unfolding service_laws_def by fastforce
    then show ?thesis using y(1) x(3) by (auto simp: list_ex_iff ip_within_def)
  qed
  ultimately have "credential_usable now ?p ip c"
    using c not_revoked by (simp add: credential_usable_def)
  then have cand: "(c, b) \<in> set (service_candidates now ?p ip db2)"
    using b c act by (simp add: service_candidates_iff)
  have "opaque_token_matches ops ?t (sc_token_hash c) = Some True" using t(6) c(5) by simp
  from candidate_found [OF laws reach(1) cand this] obtain d x
    where found: "matching_row ops ?t (service_candidates now ?p ip db2) = Some (Inr (d, x))"
    and m: "d \<in> set (db_service_credentials db2)" "opaque_token_matches ops ?t (sc_token_hash d) = Some True"
    and same: "sc_id d = sc_id c \<Longrightarrow> d = c \<and> x = b" by blast
  obtain db3 where auth: "service_authenticate ops now ?t ip db2 = Some (db3, Inr (service_principal_of db2 d x))"
    using found t(1-3,5) by (simp add: service_authenticate_def Let_def t(4) not_less)
  have "sp_credential_id pr = i \<and> sp_service_account_id pr = account \<and> sp_organization_id pr = org
      \<and> sp_effective_permissions pr = intersect_permissions (nc_scopes input)
        (codes_where db2 (\<lambda>rb. rb_organization_id rb = org \<and> rb_service_account_id rb = Some account))"
    if "sc_id d = i" "pr = service_principal_of db2 d x" for pr
    using same b c that by (simp add: service_principal_of_def rbac_permissions_def)
  then show ?thesis using auth m by blast
qed

section \<open>An example\<close>

text \<open>A database that refuses blocks with bits to the right of the mask, as PostgreSQL does.\<close>

definition demo_cidr :: "string \<Rightarrow> (ip_addr \<times> nat) option" where
  "demo_cidr s = Option.bind (cidr_text s) (\<lambda>c. if cidr_network c = fst c then Some c else None)"

definition demo_id_ops :: identity_ops where
  "demo_id_ops = \<lparr>b64_encode = demo_encode, b64_decode = demo_decode,
     hmac_new = hmac_new demo_ops, sha256 = sha256 demo_ops, header_to_vec = header_to_vec demo_ops,
     header_from_slice = header_from_slice demo_ops, claims_to_vec = claims_to_vec demo_ops,
     claims_from_slice = claims_from_slice demo_ops, id_cidr = demo_cidr\<rparr>"

lemma demo_encode_ascii: "ascii_text (demo_encode b)"
proof -
  have "code_of (char_of (97 + k) :: char) < 128" if "0 \<le> k" "k < 16" for k :: int
    using that code_of_char_of [of "97 + k"] by simp
  moreover have "0 \<le> code_of c div 16" "code_of c div 16 < 16" "0 \<le> code_of c mod 16" "code_of c mod 16 < 16" for c
  proof -
    have "0 \<le> code_of c \<and> code_of c < 256" using code_of_less [of c] by simp
    then show "0 \<le> code_of c div 16" "code_of c div 16 < 16" "0 \<le> code_of c mod 16" "code_of c mod 16 < 16" by auto
  qed
  ultimately show ?thesis by (auto simp: ascii_text_def demo_encode_def list_all_iff)
qed

lemma demo_id_laws: "service_laws demo_id_ops"
proof -
  have "length (demo_encode b) = 2 * length b" for b by (induction b) (simp_all add: demo_encode_def)
  moreover have "token_laws demo_id_ops"
    using demo_ops_laws by (simp add: token_laws_def demo_id_ops_def demo_ops_def)
  moreover have "demo_cidr s = Some c \<Longrightarrow> cidr_text s = Some c" for s c
    by (auto simp: demo_cidr_def bind_eq_Some_conv split: if_splits)
  ultimately show ?thesis
    by (auto simp: service_laws_def demo_encode_ascii demo_id_ops_def demo_ops_def)
qed

definition or_db :: "identity_db \<Rightarrow> 'e + identity_db \<times> 'a \<Rightarrow> identity_db" where
  "or_db db r = (case r of Inr (db', _) \<Rightarrow> db' | Inl _ \<Rightarrow> db)"

definition collector_input :: new_credential where
  "collector_input = \<lparr>nc_scopes = [''devices.view'', ''credentials.manage''], nc_allowed_cidrs = [''10.0.0.0/8''],
     nc_expires_at_unix_seconds = Some 5000\<rparr>"

definition collector_db :: identity_db where
  "collector_db = demo_identity_db\<lparr>db_service_accounts := [\<lparr>sa_id = 40, sa_organization_id = 2,
     sa_name = ''collector'', sa_status = ''active''\<rparr>]\<rparr>"

definition bound_db :: identity_db where
  "bound_db = (case bind_role 41 2 40 5 None collector_db of Inr db \<Rightarrow> db | Inl _ \<Rightarrow> collector_db)"

definition first_issue :: "identity_store_error + identity_db \<times> issued_credential" where
  "first_issue = issue_credential demo_id_ops (replicate 32 (CHR ''a'')) 42 2 40 collector_input bound_db"

definition second_issue :: "identity_store_error + identity_db \<times> issued_credential" where
  "second_issue = issue_credential demo_id_ops (replicate 32 (CHR ''b'')) 43 2 40 collector_input
     (or_db bound_db first_issue)"

definition collector_ip :: ip_addr where "collector_ip = V4 168430090"

definition secret_of :: "'e + 'd \<times> issued_credential \<Rightarrow> string" where
  "secret_of r = (case r of Inr (_, ic) \<Rightarrow> io_secret (ic_token ic) | Inl _ \<Rightarrow> [])"

lemma collector_create: "create_account 40 2 '' collector '' demo_identity_db
    = Inr (collector_db, \<lparr>su_id = 40, su_organization_id = 2, su_name = ''collector'', su_status = ''active''\<rparr>)"
  by (simp add: collector_db_def create_account_def Let_def insert_unless_def) (code_simp)

lemma first_issue_ok: "is_ok first_issue" by code_simp
lemma second_issue_ok: "is_ok second_issue" by code_simp

lemma outside_refused: "service_authenticate demo_id_ops 1000 (secret_of first_issue) (V4 3232235786)
    (or_db bound_db first_issue) = Some (or_db bound_db first_issue, Inl IdInvalidToken)"
  by code_simp

lemma second_used: "case service_authenticate demo_id_ops 1000 (secret_of second_issue) collector_ip
      (fst (revoke_credential 900 2 40 42 (or_db bound_db second_issue))) of
    Some (_, Inr pr) \<Rightarrow> pr = \<lparr>sp_service_account_id = 40, sp_credential_id = 43, sp_organization_id = 2,
      sp_effective_permissions = [''devices.view'']\<rparr> | _ \<Rightarrow> False"
  by code_simp

lemma demo_or_db: "is_ok r \<Longrightarrow> \<exists>x. r = Inr (or_db db r, x)"
  by (cases r) (auto simp: or_db_def split: prod.splits)

definition issued_db1 :: identity_db where "issued_db1 = or_db bound_db first_issue"
definition issued_db2 :: identity_db where "issued_db2 = or_db bound_db second_issue"
definition revoked_db :: identity_db where "revoked_db = fst (revoke_credential 900 2 40 42 issued_db2)"

definition demo_token :: "string \<Rightarrow> issued_opaque_token" where
  "demo_token r = \<lparr>io_secret = ''snm_sa_'' @ demo_encode r, io_prefix = take 15 (''snm_sa_'' @ demo_encode r),
     io_hash = sha256 demo_id_ops (''snm_sa_'' @ demo_encode r)\<rparr>"

lemma first_issued: "\<exists>ic. issue_credential demo_id_ops (replicate 32 (CHR ''a'')) 42 2 40 collector_input bound_db
    = Inr (issued_db1, ic) \<and> io_secret (ic_token ic) = secret_of first_issue"
  using first_issue_ok
  by (cases first_issue) (auto simp: first_issue_def issued_db1_def or_db_def secret_of_def)

lemma second_issued: "\<exists>ic. issue_credential demo_id_ops (replicate 32 (CHR ''b'')) 43 2 40 collector_input issued_db1
    = Inr (issued_db2, ic)"
  using second_issue_ok
  by (cases second_issue) (auto simp: second_issue_def issued_db1_def issued_db2_def or_db_def)

lemma collector_bound: "bind_role 41 2 40 5 None collector_db = Inr bound_db"
proof -
  have "is_ok (bind_role 41 2 40 5 None collector_db)" by code_simp
  then show ?thesis by (cases "bind_role 41 2 40 5 None collector_db") (simp_all add: bound_db_def)
qed

lemma collector_inv: "service_inv bound_db" "service_inv issued_db1" "service_inv issued_db2"
proof -
  have "service_inv collector_db"
    by (simp add: service_inv_def collector_db_def demo_identity_db_def empty_identity_db_def)
  then show b: "service_inv bound_db" by (rule service.step_inv [OF step_bind [OF collector_bound]])
  obtain ic where "issue_credential demo_id_ops (replicate 32 (CHR ''a'')) 42 2 40 collector_input bound_db
    = Inr (issued_db1, ic)" using first_issued by blast
  then show i: "service_inv issued_db1" using service.step_inv [OF step_issue _] b by blast
  then show "service_inv issued_db2" using service.step_inv [OF step_issue _] second_issued by blast
qed

lemma second_authenticated: "\<exists>db pr. service_authenticate demo_id_ops 1000 (secret_of second_issue) collector_ip revoked_db
    = Some (db, Inr pr) \<and> sp_credential_id pr = 43 \<and> sp_effective_permissions pr = [''devices.view'']"
proof -
  obtain db r where "service_authenticate demo_id_ops 1000 (secret_of second_issue) collector_ip revoked_db = Some (db, r)"
    "case r of Inr pr \<Rightarrow> pr = \<lparr>sp_service_account_id = 40, sp_credential_id = 43, sp_organization_id = 2,
      sp_effective_permissions = [''devices.view'']\<rparr> | _ \<Rightarrow> False"
    using second_used unfolding revoked_db_def issued_db2_def by (auto split: option.splits)
  then show ?thesis by (cases r) auto
qed

theorem service_principal_is_current_witness:
  "\<exists>c \<in> set (db_service_credentials revoked_db). sc_id c = 43 \<and> sc_revoked_at c = None"
proof -
  obtain db pr where a: "service_authenticate demo_id_ops 1000 (secret_of second_issue) collector_ip revoked_db
      = Some (db, Inr pr)" "sp_credential_id pr = 43" using second_authenticated by blast
  show ?thesis using service_principal_is_current [OF a(1)] a(2) by fastforce
qed

lemma collector_row: "\<exists>sa \<in> set (db_service_accounts db). sa_id sa = 40 \<and> sa_organization_id sa = 2 \<and> sa_status sa = ''active''"
  if "db = issued_db1 \<or> db = issued_db2"
proof -
  have "list_ex (\<lambda>sa. sa_id sa = 40 \<and> sa_organization_id sa = 2 \<and> sa_status sa = ''active'') (db_service_accounts issued_db1)"
    "list_ex (\<lambda>sa. sa_id sa = 40 \<and> sa_organization_id sa = 2 \<and> sa_status sa = ''active'') (db_service_accounts issued_db2)"
    by code_simp+
  with that show ?thesis by (auto simp: list_ex_iff)
qed

theorem lock_out_is_final_witness:
  "\<exists>db pr. service_authenticate demo_id_ops 1000 (secret_of second_issue) collector_ip revoked_db = Some (db, Inr pr)
    \<and> sp_credential_id pr \<noteq> 42"
proof -
  obtain db pr where a: "service_authenticate demo_id_ops 1000 (secret_of second_issue) collector_ip revoked_db
      = Some (db, Inr pr)" using second_authenticated by blast
  obtain sa where sa: "sa \<in> set (db_service_accounts issued_db2)" "sa_id sa = 40" "sa_organization_id sa = 2"
    using collector_row by blast
  have "list_ex (\<lambda>c. sc_id c = 42 \<and> sc_service_account_id c = 40) (db_service_credentials issued_db2)" by code_simp
  then have c: "\<exists>c \<in> set (db_service_credentials issued_db2). sc_id c = 42 \<and> sc_service_account_id c = 40"
    by (simp add: list_ex_iff)
  obtain b where "revoke_credential 900 2 40 42 issued_db2 = (revoked_db, b)"
    by (metis revoked_db_def prod.collapse)
  then show ?thesis
    using lock_out_is_final [OF collector_inv(3) sa rtranclp.rtrancl_refl a, THEN conjunct2] a c by blast
qed

theorem bind_role_spec_witness:
  "db_role_bindings bound_db \<noteq> [] \<and> (\<exists>r \<in> set (db_roles collector_db). ro_id r = 5)"
proof -
  have d: "distinct (map ro_id (db_roles collector_db))" "distinct (map si_id (db_sites collector_db))"
    by (simp_all add: collector_db_def demo_identity_db_def empty_identity_db_def)
  note spec = bind_role_spec [OF d, THEN iffD1, OF collector_bound]
  have "db_role_bindings bound_db \<noteq> []" using arg_cong [OF conjunct1 [OF spec], of db_role_bindings] by simp
  with spec show ?thesis by blast
qed

theorem issued_token_works_witness:
  "\<exists>db pr. service_authenticate demo_id_ops 1000 (secret_of first_issue) collector_ip issued_db1 = Some (db, Inr pr)"
proof -
  obtain ic where ic: "issue_credential demo_id_ops (replicate 32 (CHR ''a'')) 42 2 40 collector_input bound_db
    = Inr (issued_db1, ic)" "io_secret (ic_token ic) = secret_of first_issue" using first_issued by blast
  have active: "\<exists>sa \<in> set (db_service_accounts issued_db1). sa_id sa = 40 \<and> sa_status sa = ''active''"
    using collector_row by blast
  have "list_all (\<lambda>c. sc_revoked_at c = None) (db_service_credentials issued_db1)" by code_simp
  then have live: "\<forall>c \<in> set (db_service_credentials issued_db1). sc_id c = 42 \<longrightarrow> sc_revoked_at c = None"
    by (simp add: list_all_iff)
  have expiry: "\<forall>s. nc_expires_at_unix_seconds collector_input = Some s \<longrightarrow> 1000 < s * 1000000"
    by (simp add: collector_input_def)
  have "cidr_text ''10.0.0.0/8'' = Some (V4 167772160, 8)"
    "prefix_bits 8 collector_ip = prefix_bits 8 (V4 167772160)" by code_simp+
  then have source: "nc_allowed_cidrs collector_input = [] \<or> (\<exists>t \<in> set (nc_allowed_cidrs collector_input).
      \<exists>a n. cidr_text t = Some (a, n) \<and> prefix_bits n collector_ip = prefix_bits n a)"
    by (simp add: collector_input_def)
  show ?thesis
    using issued_token_works [OF demo_id_laws collector_inv(1) _ ic(1) rtranclp.rtrancl_refl active live expiry source]
    unfolding ic(2) by auto
qed

section \<open>Two remarks\<close>

text \<open>The permissions of a principal are those of all its bindings, whatever site a binding is confined to,
  and the principal names no site: whoever acts on them cannot confine the account.\<close>

lemma service_permissions_ignore_sites:
  "rbac_permissions (db\<lparr>db_role_bindings := map (\<lambda>rb. rb\<lparr>rb_site_id := s\<rparr>) (db_role_bindings db)\<rparr>) sa
    = rbac_permissions db sa"
  by (simp add: rbac_permissions_def codes_where_def codes_of_role_def filter_map comp_def cong: if_cong)

text \<open>\<open>validate_cidrs\<close> accepts a block with bits to the right of the mask, which the database then refuses: the
  caller is told of a database error instead of an invalid input.\<close>

lemma host_bits_reach_the_database:
  "validate_cidrs [''10.1.2.3/8''] = Inr ()
   \<and> (case issue_credential demo_id_ops (replicate 32 (CHR ''a'')) 42 2 40
        (collector_input\<lparr>nc_allowed_cidrs := [''10.1.2.3/8'']\<rparr>) bound_db of Inl e \<Rightarrow> e = IdDatabase | Inr _ \<Rightarrow> False)"
  by (intro conjI; code_simp)

end
