(* ===== verification/Outbox_Drain.thy ===== *)
theory Outbox_Drain
  imports Outbox
begin

text \<open>
  Delivery ends. The dispatcher of the outbox (\<open>PostgresOutboxStore\<close> and \<open>OutboxDispatcher\<close> in
  \<open>crates/platform-events/src/lib.rs\<close>) is called round after round; each claim of an event uses up one
  of its attempts. The measure \<open>work\<close> counts the attempts that are left, so it bounds the deliveries of
  any run of rounds, and rounds that are far enough apart empty the backlog.
\<close>

section \<open>The work that is left\<close>

definition remaining :: "i32 \<Rightarrow> outbox_row \<Rightarrow> nat" where
  "remaining mx r = (if terminal (ob_status r) then 0 else nat (max 1 (mx - ob_attempts r)))"

definition work :: "i32 \<Rightarrow> outbox_db \<Rightarrow> nat" where
  "work mx db = sum_list (map (remaining mx) (od_events db))"

definition id_work :: "i32 \<Rightarrow> outbox_db \<Rightarrow> uuid \<Rightarrow> nat" where
  "id_work mx db i = (case List.find (\<lambda>r. ob_id r = i) (od_events db) of None \<Rightarrow> 0 | Some r \<Rightarrow> remaining mx r)"

lemma id_work_row: "outbox_inv db \<Longrightarrow> r \<in> set (od_events db) \<Longrightarrow> id_work mx db (ob_id r) = remaining mx r"
  using find_key_unique [of ob_id "od_events db" r] by (simp add: id_work_def outbox_inv_def)

lemma work_ids:
  assumes "outbox_inv db"
  shows "work mx db = (\<Sum>i \<in> ob_id ` set (od_events db). id_work mx db i)"
proof -
  have d: "distinct (map ob_id (od_events db))" using assms by (simp add: outbox_inv_def)
  have "(\<Sum>i \<in> ob_id ` set (od_events db). id_work mx db i) = (\<Sum>r \<in> set (od_events db). id_work mx db (ob_id r))"
    using d by (simp add: sum.reindex distinct_map)
  also have "\<dots> = (\<Sum>r \<in> set (od_events db). remaining mx r)"
    by (rule sum.cong [OF refl id_work_row [OF assms]])
  also have "\<dots> = work mx db" using d by (simp add: work_def sum_list_distinct_conv_sum_set distinct_map)
  finally show ?thesis by simp
qed

lemma work_0_iff: "work mx db = 0 \<longleftrightarrow> (\<forall>r \<in> set (od_events db). terminal (ob_status r))"
proof -
  have "remaining mx r = 0 \<longleftrightarrow> terminal (ob_status r)" for r by (simp add: remaining_def)
  then show ?thesis unfolding work_def sum_list_eq_0_iff by simp
qed

lemma backlog_0_iff: "outbox_backlog db = 0 \<longleftrightarrow> work mx db = 0"
proof -
  have "terminal s \<longleftrightarrow> \<not> (s = OutPending \<or> s = OutFailed)" for s by (cases s) (simp_all add: terminal_def)
  then show ?thesis by (simp add: work_0_iff outbox_backlog_def rows_affected_0_iff)
qed

section \<open>One round\<close>

text \<open>The tasks change neither the events nor their counters.\<close>

definition counters :: "outbox_db \<Rightarrow> (uuid \<times> i32) list" where
  "counters db = map (\<lambda>r. (ob_id r, ob_attempts r)) (od_events db)"

lemma insert_attempt_counters: "insert_attempt a db = Inr db' \<Longrightarrow> counters db' = counters db"
  by (auto simp: insert_attempt_def counters_def split: if_splits)

lemma dispatch_task_counters:
  assumes "dispatch_task d publish clock e db = Inr db'"
  shows "counters db' = counters db"
proof (cases "publish e")
  case None
  then show ?thesis using assms
    by (auto simp: dispatch_task_def mark_published_def Let_def counters_def map_upd_where
        dest!: insert_attempt_counters split: if_splits)
next
  case (Some c)
  then show ?thesis using assms
    by (auto simp: dispatch_task_def mark_failed_def Let_def counters_def map_upd_where bindR_Inr_iff
        dest!: insert_attempt_counters split: if_splits)
qed

lemma run_tasks_counters:
  "run_tasks (dispatch_task d publish clock) es db = (db', errs) \<Longrightarrow> counters db' = counters db"
proof (induction es arbitrary: db db' errs)
  case (Cons e es)
  then show ?case
    by (auto split: sum.splits prod.splits dest: dispatch_task_counters)
qed simp

record delivery_round =
  dl_publish :: publisher
  dl_clock :: "uuid \<Rightarrow> timestamp"
  dl_schedule :: "outbox_event list \<Rightarrow> outbox_event list"
  dl_now :: timestamp
  dl_batch :: i64

definition round_ok :: "delivery_round \<Rightarrow> bool" where
  "round_ok r \<longleftrightarrow> (\<forall>e code. dl_publish r e = Some code \<longrightarrow> trim code \<noteq> []) \<and> 1 \<le> dl_batch r
     \<and> (\<forall>es. distinct (map oe_id es) \<longrightarrow> distinct (map oe_id (dl_schedule r es)) \<and> set (dl_schedule r es) = set es)"

definition run_round :: "dispatcher \<Rightarrow> delivery_round \<Rightarrow> outbox_db \<Rightarrow> outbox_db" where
  "run_round d r db = fst (dispatch_once d (dl_publish r) (dl_clock r) (dl_schedule r) (dl_now r) {} (dl_batch r) db)"

lemma claim_others:
  assumes "outbox_claim now locked w batch secs db = Inr (db1, es)" and "ob_id q \<notin> oe_id ` set es"
  shows "q \<in> set (od_events db1) \<longleftrightarrow> q \<in> set (od_events db)"
  using assms(1)
proof (rule claim_effect)
  fix ls
  let ?picked = "picked_rows now locked (clampi 1 250 batch) db"
  assume c: "db1 = db\<lparr>od_events := upd_where (\<lambda>r. ob_id r \<in> ob_id ` set ?picked) (lease_row w now ls) (od_events db)\<rparr>"
    "es = map (\<lambda>r. row_to_event (lease_row w now ls r)) ?picked"
  have "oe_id ` set es = ob_id ` set ?picked" unfolding c(2) by (simp add: image_image row_to_event_def)
  then show ?thesis using assms(2) unfolding c(1) by (auto simp: set_upd_where image_iff)
qed

text \<open>What a round does to the events it claims and to the others.\<close>

lemma round_effect:
  assumes inv: "outbox_inv db" and mx: "0 < di_max_attempts d" and ok: "round_ok r"
    and claim: "outbox_claim (dl_now r) {} (di_worker_id d) (dl_batch r) (di_lease d) db = Inr (db1, es)"
  shows "outbox_inv (run_round d r db)"
    and "\<And>e. e \<in> set es \<Longrightarrow> settled d (dl_publish r) (dl_clock r) (run_round d r db) e"
    and "\<And>q. ob_id q \<notin> oe_id ` set es \<Longrightarrow> q \<in> set (od_events (run_round d r db)) \<longleftrightarrow> q \<in> set (od_events db)"
    and "counters (run_round d r db) = counters db1"
proof -
  have inv1: "outbox_inv db1" using claim_keeps [OF claim inv] by blast
  have sched: "distinct (map oe_id (dl_schedule r es))" "set (dl_schedule r es) = set es"
    using ok claim_distinct [OF claim inv] by (auto simp: round_ok_def)
  have "\<exists>db'. run_tasks (dispatch_task d (dl_publish r) (dl_clock r)) (dl_schedule r es) db1 = (db', []) \<and> outbox_inv db'
      \<and> (\<forall>e \<in> set (dl_schedule r es). settled d (dl_publish r) (dl_clock r) db' e)
      \<and> others_same (oe_id ` set (dl_schedule r es)) db1 db'"
    by (rule run_tasks_settle [OF sched(1) inv1 _ _ mx])
      (use claim_holds(1) [OF claim inv] sched(2) ok in \<open>auto simp: round_ok_def\<close>)
  then obtain db' where db': "run_tasks (dispatch_task d (dl_publish r) (dl_clock r)) (dl_schedule r es) db1 = (db', [])"
    "outbox_inv db'" "\<forall>e \<in> set es. settled d (dl_publish r) (dl_clock r) db' e" "others_same (oe_id ` set es) db1 db'"
    unfolding sched(2) by blast
  have run: "run_round d r db = db'" using claim db'(1) by (simp add: run_round_def dispatch_once_def)
  show "outbox_inv (run_round d r db)" using db'(2) run by simp
  show "settled d (dl_publish r) (dl_clock r) (run_round d r db) e" if "e \<in> set es" for e
    using db'(3) run that by simp
  show "counters (run_round d r db) = counters db1" using run_tasks_counters [OF db'(1)] run by simp
  show "q \<in> set (od_events (run_round d r db)) \<longleftrightarrow> q \<in> set (od_events db)" if q: "ob_id q \<notin> oe_id ` set es" for q
    using claim_others [OF claim q] db'(4) q run by (simp add: others_same_def)
qed

section \<open>Rounds\<close>

text \<open>The claimed event in the tables before and after the round.\<close>

lemma claimed_row:
  assumes inv: "outbox_inv db" and mx: "0 < di_max_attempts d" and ok: "round_ok r"
    and claim: "outbox_claim (dl_now r) {} (di_worker_id d) (dl_batch r) (di_lease d) db = Inr (db1, es)"
    and e: "e \<in> set es" and q: "q \<in> set (od_events db)" "ob_id q = oe_id e"
  shows "\<not> terminal (ob_status q) \<and> (\<exists>q' \<in> set (od_events (run_round d r db)). ob_id q' = oe_id e
    \<and> ob_attempts q' = ob_attempts q + 1
    \<and> (terminal (ob_status q') \<or> ob_attempts q + 1 < di_max_attempts d \<and> ob_lease_owner q' = None
         \<and> ob_available_at q' = dl_clock r (oe_id e) + micros (retry_delay_seconds (ob_attempts q + 1))))"
proof -
  note eff = round_effect [OF inv mx ok claim]
  obtain q0 where q0: "q0 \<in> set (od_events db)" "ob_id q0 = oe_id e" "claimable (dl_now r) q0"
    "oe_attempts e = ob_attempts q0 + 1" "lease_row (di_worker_id d) (dl_now r) (clampi 1 300 (di_lease d)) q0 \<in> set (od_events db1)"
    using claim_holds(2) [OF claim inv e] by blast
  have "q0 = q" using same_id_same_row [OF inv q0(1) q(1)] q0(2) q(2) by simp
  obtain q' where q': "q' \<in> set (od_events (run_round d r db))" "ob_id q' = oe_id e"
    and st: "case dl_publish r e of
          None \<Rightarrow> ob_status q' = OutPublished \<and> ob_published_at q' = Some (dl_clock r (oe_id e))
        | Some code \<Rightarrow> ob_last_error_code q' = Some code \<and> ob_lease_owner q' = None
            \<and> (if di_max_attempts d \<le> oe_attempts e then ob_status q' = OutDeadLetter
               else ob_status q' = OutFailed \<and> ob_available_at q'
                 = dl_clock r (oe_id e) + micros (retry_delay_seconds (oe_attempts e)))"
    using eff(2) [OF e] unfolding settled_def by blast
  have "(oe_id e, ob_attempts q') \<in> set (counters (run_round d r db))" "(oe_id e, ob_attempts q0 + 1) \<in> set (counters db1)"
    using q'(1,2) q0(2,5) by (force simp: counters_def)+
  then have "(oe_id e, ob_attempts q') \<in> set (counters db1)" "(oe_id e, ob_attempts q0 + 1) \<in> set (counters db1)"
    using eff(4) by simp_all
  moreover have "distinct (map fst (counters db1))"
    using claim_keeps [OF claim inv] by (simp add: counters_def comp_def outbox_inv_def)
  ultimately have "ob_attempts q' = ob_attempts q0 + 1" by (metis eq_key_imp_eq_value)
  moreover have "\<not> terminal (ob_status q0)" using q0(3) by (auto simp: claimable_def terminal_def)
  ultimately show ?thesis
    using q' st \<open>q0 = q\<close> q0(4)
    by (auto simp: terminal_def split: option.splits if_splits)
qed

lemma round_ids:
  assumes "outbox_inv db" and "0 < di_max_attempts d" and "round_ok r"
    and claim: "outbox_claim (dl_now r) {} (di_worker_id d) (dl_batch r) (di_lease d) db = Inr (db1, es)"
  shows "ob_id ` set (od_events (run_round d r db)) = ob_id ` set (od_events db)"
proof -
  have "ob_id ` set (od_events x) = fst ` set (counters x)" for x by (simp add: counters_def image_image)
  moreover have "map ob_id (od_events db1) = map ob_id (od_events db)"
    using claim by (rule claim_effect) (simp add: map_upd_where)
  ultimately show ?thesis
    using round_effect(4) [OF assms] by (metis list.set_map)
qed

lemma round_work:
  assumes inv: "outbox_inv db" and mx: "0 < di_max_attempts d" and ok: "round_ok r"
    and claim: "outbox_claim (dl_now r) {} (di_worker_id d) (dl_batch r) (di_lease d) db = Inr (db1, es)"
  shows "work (di_max_attempts d) (run_round d r db) + length es \<le> work (di_max_attempts d) db"
proof -
  let ?M = "di_max_attempts d" and ?db' = "run_round d r db"
  let ?I = "ob_id ` set (od_events db)"
  have inv': "outbox_inv ?db'" by (rule round_effect(1) [OF assms])
  have "id_work ?M ?db' i + (if i \<in> oe_id ` set es then 1 else 0) \<le> id_work ?M db i" if i: "i \<in> ?I" for i
  proof -
    obtain q where q: "q \<in> set (od_events db)" "ob_id q = i" using i by blast
    show ?thesis
    proof (cases "i \<in> oe_id ` set es")
      case True
      then obtain e where e: "e \<in> set es" "ob_id q = oe_id e" using q(2) by auto
      from claimed_row [OF inv mx ok claim e(1) q(1) e(2)] obtain q' where q': "\<not> terminal (ob_status q)"
        "q' \<in> set (od_events ?db')" "ob_id q' = i" "ob_attempts q' = ob_attempts q + 1"
        "terminal (ob_status q') \<or> ob_attempts q + 1 < ?M" using e(2) q(2) by auto
      have "remaining ?M q' + 1 \<le> remaining ?M q"
        using q'(1,4,5) by (auto simp: remaining_def max_def nat_le_iff)
      then show ?thesis
        using True id_work_row [OF inv q(1)] id_work_row [OF inv' q'(2)] q(2) q'(3) by simp
    next
      case False
      then have "q \<in> set (od_events ?db')" using round_effect(3) [OF assms] q by blast
      from id_work_row [OF inv' this] show ?thesis using False id_work_row [OF inv q(1)] q(2) by simp
    qed
  qed
  then have "(\<Sum>i \<in> ?I. id_work ?M ?db' i + (if i \<in> oe_id ` set es then 1 else 0)) \<le> (\<Sum>i \<in> ?I. id_work ?M db i)"
    by (rule sum_mono)
  moreover have "(\<Sum>i \<in> ?I. if i \<in> oe_id ` set es then 1 else 0) = length es"
  proof -
    have "oe_id ` set es \<subseteq> ?I" using claim_holds(2) [OF claim inv] by force
    then have "?I \<inter> oe_id ` set es = oe_id ` set es" by blast
    then have "(\<Sum>i \<in> ?I. if i \<in> oe_id ` set es then 1 else 0) = card (oe_id ` set es)"
      by (simp add: sum.If_cases Int_def)
    also have "\<dots> = length es"
      using claim_distinct [OF claim inv] by (metis distinct_card length_map list.set_map)
    finally show ?thesis .
  qed
  ultimately show ?thesis
    unfolding work_ids [OF inv] work_ids [OF inv'] round_ids [OF assms] by (simp add: sum.distrib)
qed


section \<open>Rounds that are far enough apart\<close>

text \<open>No event waits for a retry time or for the lease of another worker, and no counter is at the end
  of its range.\<close>

definition all_due :: "timestamp \<Rightarrow> outbox_db \<Rightarrow> bool" where
  "all_due t db \<longleftrightarrow> (\<forall>q \<in> set (od_events db). \<not> terminal (ob_status q) \<longrightarrow>
     claimable t q \<and> ob_attempts q < 2147483647)"

definition rests :: "delivery_round \<Rightarrow> delivery_round \<Rightarrow> bool" where
  "rests r r' \<longleftrightarrow> dl_now r \<le> dl_now r' \<and> (\<forall>i. dl_clock r i + micros 60 \<le> dl_now r')"

fun spaced :: "delivery_round list \<Rightarrow> bool" where
  "spaced (r # r' # rs) \<longleftrightarrow> rests r r' \<and> spaced (r' # rs)"
| "spaced _ \<longleftrightarrow> True"

definition run_rounds :: "dispatcher \<Rightarrow> delivery_round list \<Rightarrow> outbox_db \<Rightarrow> outbox_db" where
  "run_rounds d rs db = fold (run_round d) rs db"

lemma due_claim:
  assumes inv: "outbox_inv db" and due: "all_due (dl_now r) db" and ok: "round_ok r"
    and w: "trim (di_worker_id d) \<noteq> []" and more: "work mx db \<noteq> 0"
  shows "\<exists>db1 es. outbox_claim (dl_now r) {} (di_worker_id d) (dl_batch r) (di_lease d) db = Inr (db1, es) \<and> es \<noteq> []"
proof -
  let ?P = "picked_rows (dl_now r) {} (clampi 1 250 (dl_batch r)) db"
  obtain q where q: "q \<in> set (od_events db)" "\<not> terminal (ob_status q)"
    using more by (auto simp: work_0_iff)
  have c: "claimable (dl_now r) q" using due q by (simp add: all_due_def)
  have "?P \<noteq> []"
  proof
    assume "?P = []"
    with picked_complete [OF q(1) c, of "{}" "clampi 1 250 (dl_batch r)"]
    show False by (simp add: clampi_def split: if_splits)
  qed
  moreover have "i32_try_from (ob_attempts p + 1) \<noteq> None" if "p \<in> set ?P" for p
  proof -
    have p: "p \<in> set (od_events db)" "claimable (dl_now r) p"
      using that by (auto simp: picked_rows_def dest: in_set_takeD)
    then have "\<not> terminal (ob_status p)" by (auto simp: claimable_def terminal_def)
    then have "ob_attempts p < 2147483647" using due p(1) by (simp add: all_due_def)
    moreover have "0 \<le> ob_attempts p" using inv p(1) by (simp add: outbox_inv_def row_ok_def)
    ultimately show ?thesis by (simp add: i32_try_from_def)
  qed
  moreover have "\<exists>ls. i32_try_from (clampi 1 300 (di_lease d)) = Some ls"
    by (simp add: i32_try_from_def clampi_def)
  ultimately show ?thesis
    using ok w by (auto simp: outbox_claim_def round_ok_def Let_def ok_or_def list_ex_iff)
qed

lemma round_stays_due:
  assumes inv: "outbox_inv db" and mx: "0 < di_max_attempts d" "di_max_attempts d \<le> 2147483647" and ok: "round_ok r"
    and claim: "outbox_claim (dl_now r) {} (di_worker_id d) (dl_batch r) (di_lease d) db = Inr (db1, es)"
    and due: "all_due (dl_now r) db" and rest: "rests r r'"
  shows "all_due (dl_now r') (run_round d r db)"
proof -
  let ?db' = "run_round d r db"
  have inv': "outbox_inv ?db'" by (rule round_effect(1) [OF inv mx(1) ok claim])
  have "claimable (dl_now r') q' \<and> ob_attempts q' < 2147483647"
    if q': "q' \<in> set (od_events ?db')" "\<not> terminal (ob_status q')" for q'
  proof (cases "ob_id q' \<in> oe_id ` set es")
    case True
    then obtain e where e: "e \<in> set es" "ob_id q' = oe_id e" by blast
    obtain q where q: "q \<in> set (od_events db)" "ob_id q = oe_id e"
      using claim_holds(2) [OF claim inv e(1)] by blast
    obtain p where p: "p \<in> set (od_events ?db')" "ob_id p = oe_id e"
      "ob_attempts p = ob_attempts q + 1"
      "terminal (ob_status p) \<or> ob_attempts q + 1 < di_max_attempts d \<and> ob_lease_owner p = None
         \<and> ob_available_at p = dl_clock r (oe_id e) + micros (retry_delay_seconds (ob_attempts q + 1))"
      using claimed_row [OF inv mx(1) ok claim e(1) q] by blast
    have "p = q'" using same_id_same_row [OF inv' p(1) q'(1)] p(2) e(2) by simp
    moreover have "row_ok q'" using inv' q'(1) by (simp add: outbox_inv_def)
    moreover have "micros (retry_delay_seconds n) \<le> micros 60" for n
      by (simp add: micros_def retry_delay_seconds_def clampi_def Let_def)
    moreover have "dl_clock r (oe_id e) + micros 60 \<le> dl_now r'" using rest by (simp add: rests_def)
    ultimately show ?thesis
      using p(3,4) q'(2) mx(2) by (cases "ob_status q'") (auto simp: claimable_def row_ok_def terminal_def add_mono intro: order_trans add_left_mono)
  next
    case False
    then have "q' \<in> set (od_events db)" using round_effect(3) [OF inv mx(1) ok claim] q'(1) by blast
    then have "claimable (dl_now r) q' \<and> ob_attempts q' < 2147483647" using due q'(2) by (simp add: all_due_def)
    moreover have "dl_now r \<le> dl_now r'" using rest by (simp add: rests_def)
    ultimately show ?thesis by (auto simp: claimable_def split: option.splits)
  qed
  then show ?thesis by (simp add: all_due_def)
qed

lemma run_round_never_adds:
  assumes inv: "outbox_inv db" and mx: "0 < di_max_attempts d" and ok: "round_ok r"
  shows "outbox_inv (run_round d r db) \<and> work (di_max_attempts d) (run_round d r db) \<le> work (di_max_attempts d) db"
proof (cases "outbox_claim (dl_now r) {} (di_worker_id d) (dl_batch r) (di_lease d) db")
  case (Inl err)
  then show ?thesis using inv by (simp add: run_round_def dispatch_once_def)
next
  case (Inr c)
  then obtain db1 es where claim: "outbox_claim (dl_now r) {} (di_worker_id d) (dl_batch r) (di_lease d) db = Inr (db1, es)"
    by (cases c) auto
  show ?thesis using round_effect(1) [OF inv mx ok claim] round_work [OF inv mx ok claim] by simp
qed

lemma rounds_never_add:
  assumes "outbox_inv db" and "0 < di_max_attempts d" and "\<forall>r \<in> set rs. round_ok r"
  shows "work (di_max_attempts d) (run_rounds d rs db) \<le> work (di_max_attempts d) db"
  using assms(1,3)
proof (induction rs arbitrary: db)
  case (Cons r rs)
  have "outbox_inv (run_round d r db)" "work (di_max_attempts d) (run_round d r db) \<le> work (di_max_attempts d) db"
    using run_round_never_adds [OF Cons.prems(1) assms(2), of r] Cons.prems(2) by simp_all
  then show ?case using Cons.IH [of "run_round d r db"] Cons.prems(2) by (simp add: run_rounds_def)
qed (simp add: run_rounds_def)

lemma rounds_work:
  assumes d: "0 < di_max_attempts d" "di_max_attempts d \<le> 2147483647" "trim (di_worker_id d) \<noteq> []"
    and "outbox_inv db" and "\<forall>r \<in> set rs. round_ok r" and "spaced rs" and "rs = [] \<or> all_due (dl_now (hd rs)) db"
  shows "work (di_max_attempts d) (run_rounds d rs db) \<le> work (di_max_attempts d) db - length rs"
  using assms(4-)
proof (induction rs arbitrary: db)
  case (Cons r rs)
  let ?M = "di_max_attempts d" and ?db' = "run_round d r db"
  show ?case
  proof (cases "work ?M db = 0")
    case True
    then show ?thesis using rounds_never_add [OF Cons.prems(1) d(1) Cons.prems(2)] by simp
  next
    case False
    have due: "all_due (dl_now r) db" and ok: "round_ok r" using Cons.prems(2,4) by simp_all
    from due_claim [OF Cons.prems(1) due ok d(3) False] obtain db1 es
      where claim: "outbox_claim (dl_now r) {} (di_worker_id d) (dl_batch r) (di_lease d) db = Inr (db1, es)" "es \<noteq> []"
      by blast
    have less: "work ?M ?db' + 1 \<le> work ?M db"
      using round_work [OF Cons.prems(1) d(1) ok claim(1)] claim(2) by (cases es) auto
    have "spaced rs" "rs = [] \<or> all_due (dl_now (hd rs)) ?db'"
      using Cons.prems(3) round_stays_due [OF Cons.prems(1) d(1,2) ok claim(1) due] by (cases rs; auto)+
    then have "work ?M (run_rounds d rs ?db') \<le> work ?M ?db' - length rs"
      using Cons.IH [of ?db'] round_effect(1) [OF Cons.prems(1) d(1) ok claim(1)] Cons.prems(2) by simp
    then show ?thesis using less by (simp add: run_rounds_def)
  qed
qed (simp add: run_rounds_def)


definition demo_rounds :: "delivery_round list" where
  "demo_rounds = map (\<lambda>n. \<lparr>dl_publish = \<lambda>_. Some ''timeout'', dl_clock = \<lambda>_. micros (100 * n + 1), dl_schedule = rev,
     dl_now = micros (100 * n), dl_batch = 10\<rparr>) [1, 2]"


end
