(* ===== verification/Backend.thy ===== *)
theory Backend
  imports Inventory_Api
begin

text \<open>
  The backend as a whole (\<open>apps/backend/src/main.rs\<close>): how it starts from its environment, the routes
  with the extractors of the handlers, and the requests of all routes served one after the other on
  the tables they share.

  What \<open>main\<close> waits for (the database, the migrations, Redis, the HTTP client) is the argument
  \<open>dependencies\<close>; the identifiers and random bytes it draws are \<open>start_draw\<close>. Starting changes the
  tables before it may fail, so it returns them either way. The router of \<open>axum\<close> is a parameter, and
  so are the values its extractors decode from the query and the body. The time limit of a request, the trace
  spans and the signals are not modelled.
\<close>

section \<open>Start\<close>

record backend =
  bk_bind :: socket_addr
  bk_runtime_url :: string
  bk_auth :: auth_service
  bk_state :: app_state

record platform_db =
  pd_identity :: identity_db
  pd_inventory :: inventory_db

text \<open>There is one database: the tables of the inventory, the audit trail and the outbox refer to the
  organizations, the sites and the sessions as the identity tables hold them at that moment.\<close>

definition linked :: "identity_db \<Rightarrow> inventory_db \<Rightarrow> inventory_db" where
  "linked i v = v\<lparr>iv_sites := (\<lambda>s. (si_id s, si_organization_id s)) ` set (db_sites i),
     iv_audit := (iv_audit v)\<lparr>au_organizations := og_id ` set (db_organizations i),
       au_sites := si_id ` set (db_sites i), au_sessions := ss_id ` set (db_sessions i)\<rparr>,
     iv_outbox := (iv_outbox v)\<lparr>od_organizations := og_id ` set (db_organizations i)\<rparr>\<rparr>"

definition inventory_of :: "platform_db \<Rightarrow> inventory_db" where
  "inventory_of db = linked (pd_identity db) (pd_inventory db)"

record dependencies =
  dp_connect :: "string \<Rightarrow> int \<Rightarrow> bool"
  dp_migrate :: "platform_db \<Rightarrow> bool \<times> platform_db"
  dp_redis :: "string \<Rightarrow> bool"
  dp_ping :: bool
  dp_http_client :: bool

record start_draw =
  sw_salt :: bytes
  sw_scope :: scope_draw
  sw_admin :: admin_draw

datatype start_error =
    StartBind | StartVariable string | StartDatabase | StartMigration | StartRedis
  | StartScope sql_error | StartAuth auth_init_error | StartAdmin startup_error
  | StartAuthorization authorization_init_error | StartRuntimeClient

text \<open>The part of \<open>main\<close> before the first write: the addresses, and the connection pool.\<close>

definition start_settings ::
  "environment \<Rightarrow> dependencies \<Rightarrow> start_error + (socket_addr \<times> string \<times> string)" where
  "start_settings env dp =
     bindR (ok_or StartBind (parse_socket_addr
       (unwrap_or ''127.0.0.1:8080'' (env ''SNM_BACKEND_BIND'')))) (\<lambda>bind.
     let runtime_url = unwrap_or ''http://127.0.0.1:9765'' (env ''SNM_RUNTIME_URL'') in
     bindR (ok_or (StartVariable ''DATABASE_URL'') (env ''DATABASE_URL'')) (\<lambda>database_url.
     bindR (ok_or (StartVariable ''REDIS_URL'') (env ''REDIS_URL'')) (\<lambda>redis_url.
     bindR (ensure (dp_connect dp database_url (pool_max_connections env)) StartDatabase) (\<lambda>_.
     Inr (bind, runtime_url, redis_url)))))"

definition run_migrations :: "environment \<Rightarrow> dependencies \<Rightarrow> platform_db \<Rightarrow> bool \<times> platform_db" where
  "run_migrations env dp db = (if env_flag env ''SNM_RUN_MIGRATIONS'' then dp_migrate dp db else (True, db))"

text \<open>The authorization service uses the same crates as the authentication service.\<close>

definition authorization_crates :: "auth_service \<Rightarrow> authorization_service" where
  "authorization_crates crates = token_ops.extend (token_ops.truncate crates) (authorization_service.fields [] [] [])"

definition start_backend ::
  "environment \<Rightarrow> dependencies \<Rightarrow> start_draw \<Rightarrow> auth_service \<Rightarrow> inventory_env \<Rightarrow> (string \<Rightarrow> string)
     \<Rightarrow> platform_db \<Rightarrow> platform_db \<times> (start_error + backend)" where
  "start_backend env dp w crates ie lower db =
     (case start_settings env dp of
        Inl e \<Rightarrow> (db, Inl e)
      | Inr (bind, runtime_url, redis_url) \<Rightarrow>
     (case run_migrations env dp db of
        (False, db) \<Rightarrow> (db, Inl StartMigration)
      | (True, db) \<Rightarrow>
      if \<not> dp_redis dp redis_url \<or> \<not> dp_ping dp then (db, Inl StartRedis) else
     (case maybe_bootstrap_scope env (sw_scope w) (pd_identity db) of
        Inl e \<Rightarrow> (db, Inl (StartScope e))
      | Inr identity \<Rightarrow> let db = db\<lparr>pd_identity := identity\<rparr> in
     (case auth_from_env crates (sw_salt w) env of
        Inl e \<Rightarrow> (db, Inl (StartAuth e))
      | Inr auth \<Rightarrow>
     (case maybe_bootstrap_admin env auth (sw_admin w) (pd_identity db, iv_audit (inventory_of db)) of
        Inl e \<Rightarrow> (db, Inl (StartAdmin e))
      | Inr (identity, audit) \<Rightarrow>
      let db = db\<lparr>pd_identity := identity, pd_inventory := (pd_inventory db)\<lparr>iv_audit := audit\<rparr>\<rparr> in
     (case authorization_from_env (authorization_crates crates) env of
        Inl e \<Rightarrow> (db, Inl (StartAuthorization e))
      | Inr authorization \<Rightarrow>
      let inventory_require_approval = env_bool env ''SNM_INVENTORY_REQUIRE_APPROVAL'' True in
      if \<not> dp_http_client dp then (db, Inl StartRuntimeClient) else
      (db, Inr \<lparr>bk_bind = bind, bk_runtime_url = runtime_url, bk_auth = auth,
         bk_state = \<lparr>st_authorization = authorization, st_inventory = ie, st_lower = lower,
           st_inventory_require_approval = inventory_require_approval\<rparr>\<rparr>)))))))"

section \<open>Routes\<close>

datatype http_method = GET | POST | PATCH | Other_Method string

datatype endpoint =
    EpHealth | EpReady | EpSystem | EpLogin | EpRefresh | EpLogout | EpMe
  | EpListDevices | EpCreateDevice | EpGetDevice | EpUpdateDevice | EpTransitionLifecycle

type_synonym route_table = "(string \<times> (http_method \<times> endpoint) list) list"

definition routes :: route_table where
  "routes = [
     (''/health'', [(GET, EpHealth)]),
     (''/ready'', [(GET, EpReady)]),
     (''/api/v1/system'', [(GET, EpSystem)]),
     (''/api/v1/auth/login'', [(POST, EpLogin)]),
     (''/api/v1/auth/refresh'', [(POST, EpRefresh)]),
     (''/api/v1/auth/logout'', [(POST, EpLogout)]),
     (''/api/v1/auth/me'', [(GET, EpMe)]),
     (''/api/v1/sites/{site_id}/devices'', [(GET, EpListDevices), (POST, EpCreateDevice)]),
     (''/api/v1/sites/{site_id}/devices/{device_id}'', [(GET, EpGetDevice), (PATCH, EpUpdateDevice)]),
     (''/api/v1/sites/{site_id}/devices/{device_id}/lifecycle'', [(POST, EpTransitionLifecycle)])]"

text \<open>The router of \<open>axum\<close> is a parameter: from a table, a method and a path it finds the handler and the
  texts the path has in the place of the names in braces.\<close>

datatype routing = NoRoute | WrongMethod | Routed endpoint "string list"

type_synonym router = "route_table \<Rightarrow> http_method \<Rightarrow> string \<Rightarrow> routing"

section \<open>Requests\<close>

text \<open>The query or the body as the handler's extractor decodes it.\<close>

datatype request_input =
    No_Input | Login_Input login_request | Query_Input inventory_query | Device_Input new_device
  | Patch_Input i64 metadata_patch | Lifecycle_Input i64 device_lifecycle "string option"

datatype backend_request =
    HealthRoute | ReadyRoute | SystemRoute | LoginRoute login_request | RefreshRoute | LogoutRoute | MeRoute
  | DeviceRoute uuid device_request

text \<open>\<open>None\<close>: the extractor of the body or the query rejected the request.\<close>

fun extract_request :: "endpoint \<Rightarrow> uuid list \<Rightarrow> request_input \<Rightarrow> backend_request option" where
  "extract_request EpHealth _ _ = Some HealthRoute"
| "extract_request EpReady _ _ = Some ReadyRoute"
| "extract_request EpSystem _ _ = Some SystemRoute"
| "extract_request EpLogin _ (Login_Input request) = Some (LoginRoute request)"
| "extract_request EpRefresh _ _ = Some RefreshRoute"
| "extract_request EpLogout _ _ = Some LogoutRoute"
| "extract_request EpMe _ _ = Some MeRoute"
| "extract_request EpListDevices [site] (Query_Input q) = Some (DeviceRoute site (ListRequest q))"
| "extract_request EpCreateDevice [site] (Device_Input input) = Some (DeviceRoute site (CreateRequest input))"
| "extract_request EpGetDevice [site, dev] _ = Some (DeviceRoute site (GetRequest dev))"
| "extract_request EpUpdateDevice [site, dev] (Patch_Input n p) = Some (DeviceRoute site (UpdateRequest dev n p))"
| "extract_request EpTransitionLifecycle [site, dev] (Lifecycle_Input n to reason) =
     Some (DeviceRoute site (LifecycleRequest dev n to reason))"
| "extract_request _ _ _ = None"

datatype backend_response =
    Health_Reply | Ready_Reply status_code readiness_response | System_Reply
  | Auth_Reply auth_response | Device_Reply api_response
  | No_Route_Reply | Wrong_Method_Reply | Bad_Path_Reply | Rejected_Reply | Panic_Reply

text \<open>What is particular to one request: the clock, the draws, the probes of the readiness handler.\<close>

record http_call =
  hc_now :: timestamp
  hc_draw :: auth_draw
  hc_tick :: tick
  hc_network :: network_db
  hc_fresh_request_id :: uuid
  hc_fresh_correlation_id :: uuid
  hc_runtime_answer :: "int option"
  hc_redis_ok :: bool
  hc_database_probe :: bool
  hc_migration_count :: "i64 option"

definition device_call :: "http_call \<Rightarrow> correlation_context \<Rightarrow> headers \<Rightarrow> identity_db \<Rightarrow> api_call" where
  "device_call c co hs db = \<lparr>ca_now = hc_now c, ca_headers = hs, ca_correlation = co, ca_tick = hc_tick c,
     ca_sessions = db, ca_grants = db, ca_network = hc_network c\<rparr>"

definition with_identity :: "platform_db \<Rightarrow> (identity_db \<times> auth_response) option \<Rightarrow> platform_db \<times> backend_response" where
  "with_identity db result = (case result of
       None \<Rightarrow> (db, Panic_Reply)
     | Some (identity, response) \<Rightarrow> (db\<lparr>pd_identity := identity\<rparr>, Auth_Reply response))"

fun handle ::
  "backend \<Rightarrow> http_call \<Rightarrow> correlation_context \<Rightarrow> headers \<Rightarrow> backend_request \<Rightarrow> platform_db
     \<Rightarrow> platform_db \<times> backend_response" where
  "handle bk c co hs HealthRoute db = (db, Health_Reply)"
| "handle bk c co hs ReadyRoute db = (db, case_prod Ready_Reply (ready (http_runtime_health (hc_runtime_answer c))
     (hc_redis_ok c) (database_health (hc_database_probe c) (hc_migration_count c))))"
| "handle bk c co hs SystemRoute db = (db, System_Reply)"
| "handle bk c co hs (LoginRoute request) db = with_identity db
     (Some (http_login (bk_auth bk) (hc_draw c) (hc_now c) request (pd_identity db)))"
| "handle bk c co hs RefreshRoute db = with_identity db
     (http_refresh (bk_auth bk) (hc_draw c) (hc_now c) hs (pd_identity db))"
| "handle bk c co hs LogoutRoute db = with_identity db (http_logout (bk_auth bk) (hc_now c) hs (pd_identity db))"
| "handle bk c co hs MeRoute db = (db, Auth_Reply (http_me (bk_auth bk) (hc_now c) hs (pd_identity db)))"
| "handle bk c co hs (DeviceRoute site request) db =
     (case serve (bk_state bk) (device_call c co hs (pd_identity db)) site request (inventory_of db) of
        (inventory, response) \<Rightarrow> (db\<lparr>pd_inventory := inventory\<rparr>, Device_Reply response))"

definition dispatch_route ::
  "router \<Rightarrow> uuid_text \<Rightarrow> backend \<Rightarrow> http_call \<Rightarrow> http_method \<Rightarrow> string \<Rightarrow> request_input \<Rightarrow> correlation_context
     \<Rightarrow> headers \<Rightarrow> platform_db \<Rightarrow> platform_db \<times> backend_response" where
  "dispatch_route resolve u bk c m path input co hs db =
     (case resolve routes m path of
        NoRoute \<Rightarrow> (db, No_Route_Reply)
      | WrongMethod \<Rightarrow> (db, Wrong_Method_Reply)
      | Routed e captures \<Rightarrow>
          (case those (map (ut_parse u) captures) of
             None \<Rightarrow> (db, Bad_Path_Reply)
           | Some ids \<Rightarrow>
               (case extract_request e ids input of
                  None \<Rightarrow> (db, Rejected_Reply)
                | Some request \<Rightarrow> handle bk c co hs request db)))"

text \<open>A request through the correlation middleware: the answer, and the headers the middleware adds.\<close>

definition backend_serve ::
  "router \<Rightarrow> uuid_text \<Rightarrow> backend \<Rightarrow> http_call \<Rightarrow> http_method \<Rightarrow> string \<Rightarrow> headers \<Rightarrow> request_input \<Rightarrow> platform_db
     \<Rightarrow> (platform_db \<times> backend_response) \<times> headers" where
  "backend_serve resolve u bk c m path hs input db =
     correlation_middleware u (hc_fresh_request_id c) (hc_fresh_correlation_id c) hs
       (\<lambda>co hs. (dispatch_route resolve u bk c m path input co hs db, Map.empty))"

end
