(* ===== verification/Backend_Runs.thy ===== *)
theory Backend_Runs
  imports Backend
begin

text \<open>
  What holds of the backend of the theory \<open>Backend\<close>: the services a start leaves share their keys, the
  requests of all routes keep the invariants of the tables, and the properties that span login,
  tokens, authorization and the inventory.
\<close>

section \<open>Start\<close>

lemma start_steps:
  assumes "start_backend env dp w crates ie lower db = (db', Inr bk)"
  obtains db1 identity identity' audit authz where "run_migrations env dp db = (True, db1)"
    and "maybe_bootstrap_scope env (sw_scope w) (pd_identity db1) = Inr identity"
    and "auth_from_env crates (sw_salt w) env = Inr (bk_auth bk)"
    and "maybe_bootstrap_admin env (bk_auth bk) (sw_admin w) (identity, iv_audit (linked identity (pd_inventory db1))) = Inr (identity', audit)"
    and "authorization_from_env (authorization_crates crates) env = Inr (st_authorization (bk_state bk))"
    and "st_inventory (bk_state bk) = ie" and "st_lower (bk_state bk) = lower"
    and "db' = \<lparr>pd_identity = identity', pd_inventory = (pd_inventory db1)\<lparr>iv_audit := audit\<rparr>\<rparr>"
  using assms by (auto simp: start_backend_def inventory_of_def Let_def split: sum.splits prod.splits bool.splits if_splits)

definition shared_keys :: "backend \<Rightarrow> bool" where
  "shared_keys bk \<longleftrightarrow> (let az = st_authorization (bk_state bk) in
     token_ops.truncate az = token_ops.truncate (bk_auth bk) \<and> az_access_key az = as_access_key (bk_auth bk)
     \<and> az_issuer az = as_issuer (bk_auth bk) \<and> az_audience az = as_audience (bk_auth bk))"

lemma auth_from_env_fields:
  assumes "auth_from_env crates salt env = Inr auth"
  shows "token_ops.truncate auth = token_ops.truncate crates \<and> as_issuer auth = unwrap_or ''snm'' (env ''SNM_AUTH_ISSUER'')
    \<and> as_audience auth = unwrap_or ''snm-api'' (env ''SNM_AUTH_AUDIENCE'')
    \<and> access_token_key_new (unwrap_or [] (env ''SNM_ACCESS_TOKEN_KEY'')) = Inr (as_access_key auth)
    \<and> as_passwords auth = as_passwords crates \<and> as_sql_lower auth = as_sql_lower crates"
  using assms by (auto simp: auth_from_env_def result_simps token_ops.defs unwrap_or_def split: if_splits)

lemma authorization_from_env_fields:
  assumes "authorization_from_env (authorization_crates crates) env = Inr az"
  shows "token_ops.truncate az = token_ops.truncate crates \<and> az_issuer az = unwrap_or ''snm'' (env ''SNM_AUTH_ISSUER'')
    \<and> az_audience az = unwrap_or ''snm-api'' (env ''SNM_AUTH_AUDIENCE'')
    \<and> access_token_key_new (unwrap_or [] (env ''SNM_ACCESS_TOKEN_KEY'')) = Inr (az_access_key az)"
  using assms
  by (auto simp: authorization_from_env_def authorization_new_def authorization_crates_def result_simps
      token_ops.defs authorization_service.defs unwrap_or_def Let_def split: if_splits)

lemma start_shares_keys:
  assumes "start_backend env dp w crates ie lower db = (db', Inr bk)"
  shows "shared_keys bk"
  using assms
proof (rule start_steps)
  assume "auth_from_env crates (sw_salt w) env = Inr (bk_auth bk)"
    "authorization_from_env (authorization_crates crates) env = Inr (st_authorization (bk_state bk))"
  from auth_from_env_fields [OF this(1)] authorization_from_env_fields [OF this(2)] show ?thesis
    by (simp add: shared_keys_def Let_def)
qed

lemma shared_decode:
  assumes "shared_keys bk"
  shows "decode_access_token (st_authorization (bk_state bk)) t k n i a = decode_access_token (bk_auth bk) t k n i a"
proof -
  have ops: "b64_decode (st_authorization (bk_state bk)) = b64_decode (bk_auth bk)"
    "hmac_new (st_authorization (bk_state bk)) = hmac_new (bk_auth bk)"
    "header_from_slice (st_authorization (bk_state bk)) = header_from_slice (bk_auth bk)"
    "claims_from_slice (st_authorization (bk_state bk)) = claims_from_slice (bk_auth bk)"
    using assms by (simp_all add: shared_keys_def Let_def token_ops.truncate_def)
  show ?thesis unfolding decode_access_token_def key_mac_def ops ..
qed

section \<open>What requests leave alone\<close>

text \<open>The identity tables without the sessions and the times of the last logins.\<close>

definition accounts :: "identity_db \<Rightarrow> identity_db" where
  "accounts db = db\<lparr>db_sessions := [], db_refresh_tokens := [],
     db_users := map (us_last_login_at_update (\<lambda>_. None)) (db_users db)\<rparr>"

definition identity_kept :: "identity_db \<Rightarrow> identity_db \<Rightarrow> bool" where
  "identity_kept db db' \<longleftrightarrow> accounts db' = accounts db
     \<and> (\<forall>i s. session_of db i = Some s \<longrightarrow> (\<exists>s'. session_of db' i = Some s' \<and> ss_user_id s' = ss_user_id s
          \<and> ss_organization_id s' = ss_organization_id s
          \<and> ss_access_revoked_before s' = ss_access_revoked_before s))"

lemma identity_kept_refl: "identity_kept db db"
  by (simp add: identity_kept_def)

lemma identity_kept_trans: "identity_kept a b \<Longrightarrow> identity_kept b c \<Longrightarrow> identity_kept a c"
  by (fastforce simp: identity_kept_def)

lemma revoke_kept: "identity_kept db (revoke_family f i now db)"
  unfolding identity_kept_def revoke_sessions by (auto simp: accounts_def revoke_family_def)

lemma last_login_kept:
  "map (us_last_login_at_update (\<lambda>_. None)) (upd_where p (us_last_login_at_update (\<lambda>_. Some now)) us)
   = map (us_last_login_at_update (\<lambda>_. None)) us"
  by (simp add: upd_where_def)

lemma login_transaction_kept:
  assumes "login_transaction dr now user tok db = Inr db'"
  shows "identity_kept db db'"
proof -
  obtain s db1 r db2 where 1: "insert_session s db = Inr db1" and 2: "insert_refresh_token r db1 = Inr db2"
    and 3: "db' = db2\<lparr>db_users := upd_where (\<lambda>u. us_id u = lu_user_id user)
          (\<lambda>u. u\<lparr>us_last_login_at := Some now\<rparr>) (db_users db2)\<rparr>"
    using assms unfolding login_transaction_def Let_def bindR_Inr_iff sum.inject by blast
  have "accounts db' = accounts db"
    unfolding 3 insert_refresh_effect(1) [OF 2] insert_session_effect(1) [OF 1]
    by (simp add: accounts_def last_login_kept)
  moreover have "session_of db' i = Some q" if "session_of db i = Some q" for i q
    using that unfolding 3 insert_refresh_effect(1) [OF 2] insert_session_effect(1) [OF 1]
    by (simp add: session_of_def find_append_old)
  ultimately show ?thesis by (simp add: identity_kept_def)
qed

lemma rotate_kept:
  assumes "rotate_transaction dr now r s tok db = Inr db'"
  shows "identity_kept db db'"
proof -
  obtain n db1 where 1: "insert_refresh_token n db = Inr db1"
    and 2: "db' = db1\<lparr>db_refresh_tokens := upd_where (\<lambda>q. rt_id q = rt_id r)
              (\<lambda>q. q\<lparr>rt_consumed_at := Some now, rt_replaced_by_id := Some (dr_token_id dr)\<rparr>)
              (db_refresh_tokens db1),
            db_sessions := upd_where (\<lambda>q. ss_id q = ss_id s)
              (\<lambda>q. q\<lparr>ss_refresh_token_hash := io_hash tok,
                  ss_refresh_token_prefix := io_prefix tok, ss_last_used_at := now\<rparr>)
              (db_sessions db1)\<rparr>"
    using assms unfolding rotate_transaction_def bindR_Inr_iff sum.inject by blast
  have "accounts db' = accounts db" unfolding 2 insert_refresh_effect(1) [OF 1] by (simp add: accounts_def)
  moreover have "session_of db' j = (if j = ss_id s then map_option (\<lambda>q. q\<lparr>ss_refresh_token_hash := io_hash tok,
      ss_refresh_token_prefix := io_prefix tok, ss_last_used_at := now\<rparr>) (session_of db (ss_id s)) else session_of db j)" for j
    by (rule session_of_upd) (simp_all add: 2 insert_refresh_effect(1) [OF 1])
  ultimately show ?thesis by (auto simp: identity_kept_def)
qed

lemma session_step_kept: "session_step auth db db' \<Longrightarrow> identity_kept db db'"
proof (erule session_stepE)
  fix dr now request result assume "login auth dr now request db = (db', result)"
  then show ?thesis
    by (cases rule: login_cases) (auto intro: identity_kept_refl login_transaction_kept)
next
  fix dr now presented result assume "refresh auth dr now presented db = (db', result)"
  with refl [of "hash_opaque_token auth presented"] show ?thesis
    by (cases rule: refresh_cases [of _ auth presented db dr now])
      (auto intro: identity_kept_refl revoke_kept rotate_kept)
next
  fix now presented assume "db' = logout auth now presented db"
  then show ?thesis by (auto simp: logout_def intro: identity_kept_refl revoke_kept split: option.split)
qed


section \<open>Runs\<close>

text \<open>A request of any route, or a transaction of others on the inventory (the dispatcher of the outbox,
  the discovery that reconciles observations).\<close>

inductive platform_step :: "backend \<Rightarrow> platform_db \<Rightarrow> platform_db \<Rightarrow> bool" for bk where
  step_handled: "in_i64 (tk_utc_ms (hc_tick c)) \<Longrightarrow> handle bk c co hs request db = (db', response)
     \<Longrightarrow> platform_step bk db db'"
| step_background: "inventory_step (st_inventory (bk_state bk)) (inventory_of db) v
     \<Longrightarrow> platform_step bk db (db\<lparr>pd_inventory := v\<rparr>)"

text \<open>Whatever the router finds: a request is such a step or changes nothing, and its answer carries the
  identifiers of its context, which the client may send back.\<close>

lemma backend_serve_step:
  assumes "backend_serve resolve u bk c m path hs input db = ((db', response), response_headers)"
    and "in_i64 (tk_utc_ms (hc_tick c))"
  shows "db' = db \<or> platform_step bk db db'"
proof -
  obtain co hs' where "dispatch_route resolve u bk c m path input co hs' db = (db', response)"
    using assms(1) by (auto simp: backend_serve_def correlation_middleware_def Let_def)
  then show ?thesis
    using step_handled [OF assms(2)]
    by (fastforce simp: dispatch_route_def split: routing.splits option.splits)
qed

lemma backend_serve_headers:
  assumes "uuid_text_laws u"
    and "backend_serve resolve u bk c m path hs input db = ((db', response), response_headers)"
  shows "correlation_new u a b (header_text response_headers ''x-request-id'')
      (header_text response_headers ''x-correlation-id'')
    = correlation_new u (hc_fresh_request_id c) (hc_fresh_correlation_id c) (header_text hs ''x-request-id'')
        (header_text hs ''x-correlation-id'')"
  using assms
  by (auto simp: backend_serve_def correlation_middleware_def Let_def header_text_def correlation_new_def
      parse_uuid_format unwrap_or_def)

definition platform_inv :: "backend \<Rightarrow> platform_db \<Rightarrow> bool" where
  "platform_inv bk db \<longleftrightarrow> session_inv (pd_identity db) \<and> distinct (map us_id (db_users (pd_identity db)))
     \<and> inventory_inv (st_inventory (bk_state bk)) (inventory_of db)"

definition platform_forward :: "platform_db \<Rightarrow> platform_db \<Rightarrow> bool" where
  "platform_forward db db' \<longleftrightarrow> families_forward (pd_identity db) (pd_identity db')
     \<and> identity_kept (pd_identity db) (pd_identity db') \<and> inventory_forward (inventory_of db) (inventory_of db')"

lemma with_identity_tables:
  "with_identity db result = (db', response)
     \<Longrightarrow> pd_inventory db' = pd_inventory db \<and> (pd_identity db' = pd_identity db
          \<or> (\<exists>r. result = Some (pd_identity db', r)))"
  by (auto simp: with_identity_def split: option.splits)

lemma answer_issued_fst: "answer_issued auth (db, r) = (db', resp) \<Longrightarrow> db' = db"
  by (simp add: answer_issued_def)

text \<open>A request of a session route is one step of the authentication service, a request of a device route
  a run of the inventory; neither touches the tables of the other.\<close>

lemma handle_cases:
  assumes "handle bk c co hs request db = (db', response)" and "in_i64 (tk_utc_ms (hc_tick c))"
  obtains (unchanged) "db' = db"
    | (session) "session_step (bk_auth bk) (pd_identity db) (pd_identity db')" "pd_inventory db' = pd_inventory db"
    | (device) "(inventory_step (st_inventory (bk_state bk)))\<^sup>*\<^sup>* (inventory_of db) (pd_inventory db')"
        "pd_identity db' = pd_identity db"
proof (cases request)
  case (LoginRoute r)
  obtain i result where l: "login (bk_auth bk) (hc_draw c) (hc_now c) r (pd_identity db) = (i, result)"
    by (metis prod.collapse)
  have "pd_identity db' = i" "pd_inventory db' = pd_inventory db"
    using assms(1) LoginRoute l by (auto simp: with_identity_def http_login_def answer_issued_def)
  then show ?thesis using session step_login [OF l] by simp
next
  case RefreshRoute
  show ?thesis
  proof (cases "http_refresh (bk_auth bk) (hc_draw c) (hc_now c) hs (pd_identity db)")
    case None
    then show ?thesis using assms(1) RefreshRoute unchanged by (simp add: with_identity_def)
  next
    case (Some x)
    have "fst x = pd_identity db \<or> (\<exists>p. fst x = fst (refresh (bk_auth bk) (hc_draw c) (hc_now c) p (pd_identity db)))"
      using Some by (cases x) (auto simp: http_refresh_def answer_issued_def split_beta split: option.splits if_splits)
    then show ?thesis
      using assms(1) RefreshRoute Some session unchanged step_refresh [OF surjective_pairing]
      by (cases x) (auto simp: with_identity_def)
  qed
next
  case LogoutRoute
  show ?thesis
  proof (cases "http_logout (bk_auth bk) (hc_now c) hs (pd_identity db)")
    case None
    then show ?thesis using assms(1) LogoutRoute unchanged by (simp add: with_identity_def)
  next
    case (Some x)
    have "fst x = pd_identity db \<or> (\<exists>p. fst x = logout (bk_auth bk) (hc_now c) p (pd_identity db))"
      using Some by (auto simp: http_logout_def split: option.splits if_splits)
    then show ?thesis
      using assms(1) LogoutRoute Some session unchanged step_logout
      by (cases x) (auto simp: with_identity_def)
  qed
next
  case (DeviceRoute site r)
  obtain v a where s: "serve (bk_state bk) (device_call c co hs (pd_identity db)) site r (inventory_of db) = (v, a)"
    by (metis prod.collapse)
  have "(inventory_step (st_inventory (bk_state bk)))\<^sup>*\<^sup>* (inventory_of db) v"
    by (rule serve_is_step [OF s]) (use assms(2) in \<open>simp add: device_call_def\<close>)
  then show ?thesis using assms(1) DeviceRoute s device by auto
qed (use assms(1) unchanged in auto)

lemma kept_users:
  assumes "identity_kept db db'"
  shows "map us_id (db_users db') = map us_id (db_users db)"
    and "u \<in> set (db_users db) \<Longrightarrow> \<exists>u' \<in> set (db_users db'). us_id u' = us_id u
      \<and> us_organization_id u' = us_organization_id u \<and> us_status u' = us_status u"
proof -
  have eq: "map (us_last_login_at_update (\<lambda>_. None)) (db_users db') = map (us_last_login_at_update (\<lambda>_. None)) (db_users db)"
  proof -
    have "db_users (accounts db') = db_users (accounts db)" using assms by (simp add: identity_kept_def)
    then show ?thesis by (simp add: accounts_def)
  qed
  from arg_cong [OF this, of "map us_id"] show "map us_id (db_users db') = map us_id (db_users db)"
    by (simp add: comp_def)
  show "\<exists>u' \<in> set (db_users db'). us_id u' = us_id u
      \<and> us_organization_id u' = us_organization_id u \<and> us_status u' = us_status u" if "u \<in> set (db_users db)"
  proof -
    have "u\<lparr>us_last_login_at := None\<rparr> \<in> us_last_login_at_update (\<lambda>_. None) ` set (db_users db')"
      using arg_cong [OF eq, of set] that by (metis image_eqI list.set_map)
    then obtain u' where u': "u' \<in> set (db_users db')" "u\<lparr>us_last_login_at := None\<rparr> = u'\<lparr>us_last_login_at := None\<rparr>"
      by blast
    from u'(2) have "us_id u' = us_id u" "us_organization_id u' = us_organization_id u" "us_status u' = us_status u"
      by (cases u; cases u'; simp)+
    with u'(1) show ?thesis by blast
  qed
qed

text \<open>Only what other tables refer to changes when the identity tables do.\<close>

lemma linked_keeps:
  assumes "inventory_inv env v" and "iv_sites v = iv_sites (linked i v)"
  shows "inventory_inv env (linked i v)" and "inventory_forward v (linked i v)"
proof -
  have same: "sealed_rows (iv_audit (linked i v)) = sealed_rows (iv_audit v)"
    by (rule ext) (simp add: sealed_rows_def linked_def)
  have exists: "device_exists (linked i v) = device_exists v" by (simp add: device_exists_def linked_def fun_eq_iff)
  have "base_inv (linked i v)"
    using assms by (simp add: inventory_inv_def base_inv_def devices_ok_def identifiers_ok_def facts_ok_def exists)
      (simp add: linked_def)
  moreover have "log_ok (linked i v)"
    using assms(1) by (simp add: inventory_inv_def log_ok_def device_log_def linked_def)
  moreover have "outbox_inv (iv_outbox (linked i v))"
  proof -
    have "attempts_ok (iv_outbox (linked i v)) = attempts_ok (iv_outbox v)"
      by (simp add: attempts_ok_def outcome_count_def linked_def fun_eq_iff)
    then show ?thesis using assms(1) by (simp add: inventory_inv_def outbox_inv_def) (simp add: linked_def)
  qed
  ultimately show "inventory_inv env (linked i v)"
    using assms(1) by (simp add: inventory_inv_def all_chained_def same)
  have "outbox_forward (iv_outbox v) (iv_outbox (linked i v))"
    using outbox_forward_refl [of "iv_outbox v"] by (simp add: outbox_forward_def linked_def)
  moreover have "devices_forward v (linked i v)"
    by (auto simp: devices_forward_def linked_def intro: device_forward_refl)
  moreover have "kept v (linked i v)" by (rule kept_subset) (simp_all add: linked_def)
  ultimately show "inventory_forward v (linked i v)"
    using assms(2) by (simp add: inventory_forward_def audit_extends_def same) (simp add: linked_def)
qed

lemma linked_again: "linked i (linked j v) = linked i v"
  by (simp add: linked_def)

lemma kept_sites:
  assumes "identity_kept db db'"
  shows "iv_sites (linked db' v) = iv_sites (linked db w)"
proof -
  have "db_sites (accounts db') = db_sites (accounts db)" using assms by (simp add: identity_kept_def)
  then show ?thesis by (simp add: accounts_def linked_def)
qed

lemma platform_step_keeps:
  assumes laws: "audit_laws (ie_audit_ops (st_inventory (bk_state bk)))" and step: "platform_step bk db db'"
    and inv: "platform_inv bk db"
  shows "platform_inv bk db' \<and> platform_forward db db'"
proof -
  have inv_v: "inventory_inv (st_inventory (bk_state bk)) (inventory_of db)" using inv by (simp add: platform_inv_def)
  have inventory: "platform_inv bk db' \<and> platform_forward db db'"
    if run: "(inventory_step (st_inventory (bk_state bk)))\<^sup>*\<^sup>* (inventory_of db) (pd_inventory db')"
      and same: "pd_identity db' = pd_identity db"
  proof -
    note r = inventory_reach [OF laws run inv_v]
    have "iv_sites (pd_inventory db') = iv_sites (inventory_of db')"
      using r(2) same by (simp add: inventory_forward_def inventory_of_def linked_def)
    note l = linked_keeps [OF r(1), of "pd_identity db'", folded inventory_of_def, OF this]
    show ?thesis
      using l inventory_forward_trans [OF r(2) l(2)] inv same families_forward_refl identity_kept_refl
      by (simp add: platform_inv_def platform_forward_def)
  qed
  from step show ?thesis
  proof cases
    case (step_handled c co hs request response)
    from step_handled(2,1) show ?thesis
    proof (cases rule: handle_cases)
      case unchanged
      then show ?thesis using inv families_forward_refl identity_kept_refl inventory_forward_refl
        by (simp add: platform_forward_def)
    next
      case session
      have "session_inv (pd_identity db)" using inv by (simp add: platform_inv_def)
      note s = sessions.step_inv [OF session(1) this] sessions.step_fwd [OF session(1) this]
      note kept = session_step_kept [OF session(1)]
      have again: "inventory_of db' = linked (pd_identity db') (inventory_of db)"
        using session(2) by (simp add: inventory_of_def linked_again)
      have "iv_sites (inventory_of db) = iv_sites (inventory_of db')"
        unfolding inventory_of_def by (rule kept_sites [OF kept, symmetric])
      note l = linked_keeps [OF inv_v, of "pd_identity db'", folded again, OF this]
      show ?thesis using inv s l kept kept_users(1) [OF kept] by (simp add: platform_inv_def platform_forward_def)
    next
      case device
      then show ?thesis by (rule inventory)
    qed
  next
    case (step_background v)
    then show ?thesis using inventory by auto
  qed
qed

interpretation platform: forward_machine
  "\<lambda>db db'. audit_laws (ie_audit_ops (st_inventory (bk_state bk))) \<and> platform_step bk db db'" "platform_inv bk"
  platform_forward for bk
proof
  show "platform_forward s u" if "platform_forward s t" "platform_forward t u" for s t u
    using that families_forward_trans identity_kept_trans inventory_forward_trans
    unfolding platform_forward_def by blast
  show "platform_forward s s" for s
    using families_forward_refl identity_kept_refl inventory_forward_refl by (simp add: platform_forward_def)
qed (use platform_step_keeps in blast)+

lemma platform_reach:
  assumes "audit_laws (ie_audit_ops (st_inventory (bk_state bk)))" and "(platform_step bk)\<^sup>*\<^sup>* db db'"
    and "platform_inv bk db"
  shows "platform_inv bk db'" and "platform_forward db db'"
proof -
  have "(\<lambda>db db'. audit_laws (ie_audit_ops (st_inventory (bk_state bk))) \<and> platform_step bk db db')\<^sup>*\<^sup>* db db'"
    using assms(2) by (rule rtranclp_mono [THEN predicate2D, rotated]) (use assms(1) in auto)
  then show "platform_inv bk db'" "platform_forward db db'"
    using platform.reach_inv platform.reach_fwd assms(3) by blast+
qed

end
