(* ===== verification/Backend_Login.thy ===== *)
theory Backend_Login
  imports Backend_Runs
begin

text \<open>
  Properties that span the services of the backend: a client that logged in is served by the device
  routes as its role bindings say, and a client that logged out is served by none.
\<close>

section \<open>After a login\<close>

text \<open>The token of a login's answer and the headers of a client that presents it.\<close>

definition response_token :: "auth_response \<Rightarrow> string" where
  "response_token resp = (case ar_body resp of Access_Response token _ _ _ \<Rightarrow> token | _ \<Rightarrow> [])"

definition bearer_headers :: "string \<Rightarrow> headers" where
  "bearer_headers token = [''authorization'' \<mapsto> Some (''Bearer '' @ token)]"

lemma bearer_of_headers: "token \<noteq> [] \<Longrightarrow> authorization_bearer_token (bearer_headers token) = Some token"
  by (simp add: authorization_bearer_token_def bearer_headers_def header_to_str_def strip_prefix_def
      starts_with_def)

lemma unix_seconds_add: "unix_seconds (t + micros_of_seconds n) = unix_seconds t + n"
  by (simp add: unix_seconds_def micros_of_seconds_def)

lemma token_decodes:
  assumes laws: "token_laws auth" and issue: "issue_access_token auth jti identity now = Inr token"
    and len: "length token \<le> 16384"
    and time: "0 \<le> now" "now \<le> now'" "now' < now + 599 * 1000000" "now' \<le> i64_max"
  shows "\<exists>claims. decode_access_token auth token (as_access_key auth) (unix_seconds now') (as_issuer auth)
      (as_audience auth) = Inr claims \<and> cl_sub claims = sn_user_id identity
    \<and> cl_org claims = sn_organization_id identity \<and> cl_sid claims = sn_session_id identity \<and> token \<noteq> []"
proof -
  let ?c = "\<lparr>cl_iss = as_issuer auth, cl_aud = as_audience auth,
        cl_sub = sn_user_id identity, cl_org = sn_organization_id identity,
        cl_sid = sn_session_id identity, cl_jti = jti, cl_scopes = sn_permissions identity,
        cl_iat = unix_seconds now, cl_nbf = unix_seconds now,
        cl_exp = unix_seconds (now + micros_of_seconds access_ttl_seconds)\<rparr>"
  have enc: "encode_access_token auth ?c (as_access_key auth) = Inr token"
    using issue by (simp add: issue_access_token_def Let_def result_simps)
  have s: "0 \<le> unix_seconds now" "unix_seconds now \<le> unix_seconds now'" "unix_seconds now' < unix_seconds now + 600"
    "unix_seconds now' \<le> i64_max div 1000000"
    using time by (simp_all add: unix_seconds_def zdiv_mono1)
  have range: "claims_in_range ?c" "in_i64 (unix_seconds now')"
    using s by (auto simp: claims_in_range_def in_i64_def i64_min_def i64_max_def unix_seconds_add access_ttl_seconds_def)
  have "check_claims ?c (unix_seconds now') (as_issuer auth) (as_audience auth) = Inr ?c"
    using s check_claims_ok_iff [OF range, of "as_issuer auth" "as_audience auth" ?c]
    by (simp add: unix_seconds_add access_ttl_seconds_def)
  then have "decode_access_token auth token (as_access_key auth) (unix_seconds now') (as_issuer auth)
      (as_audience auth) = Inr ?c"
    using decode_encoded [OF laws enc] len by simp
  moreover have "token \<noteq> []" using enc by (auto simp: encode_ok_iff)
  ultimately show ?thesis by (intro exI [of _ ?c]) simp
qed

lemma session_with_userI:
  assumes "session_of db i = Some s" and "distinct (map us_id (db_users db))"
    and "u \<in> set (db_users db)" "us_id u = ss_user_id s" "us_organization_id u = ss_organization_id s"
  shows "session_with_user db i = Some (s, u)"
proof -
  obtain v where v: "List.find (\<lambda>u. us_id u = ss_user_id s \<and> us_organization_id u = ss_organization_id s) (db_users db) = Some v"
    using assms(3-5) by (cases "List.find (\<lambda>u. us_id u = ss_user_id s \<and> us_organization_id u = ss_organization_id s) (db_users db)")
      (auto simp: find_None_set)
  then have "v \<in> set (db_users db)" "us_id v = us_id u" using find_Some_set [OF v] assms(4) by auto
  then have "v = u" using assms(2,3) by (metis distinct_map inj_onD)
  with v assms(1) show ?thesis by (simp add: session_with_user_def)
qed

text \<open>A session a login opened, as the tables have it from then on.\<close>

definition open_session :: "identity_db \<Rightarrow> session_identity \<Rightarrow> timestamp \<Rightarrow> bool" where
  "open_session db identity opened \<longleftrightarrow> (\<exists>s. session_of db (sn_session_id identity) = Some s
     \<and> ss_user_id s = sn_user_id identity \<and> ss_organization_id s = sn_organization_id identity
     \<and> ss_access_revoked_before s = None \<and> ss_expires_at s = opened + micros_of_days refresh_ttl_days)
   \<and> (\<exists>u \<in> set (db_users db). us_id u = sn_user_id identity
        \<and> us_organization_id u = sn_organization_id identity \<and> us_status u = ''active'')"

lemma login_response:
  assumes "handle bk c co hs (LoginRoute request) db = (db1, Auth_Reply resp)" and "ar_status resp = OK_200"
  obtains u identity where "u \<in> set (db_users (pd_identity db))" "named_user (bk_auth bk) (pd_identity db) request u"
    "password_fits (bk_auth bk) request u" "pd_inventory db1 = pd_inventory db"
    "sn_user_id identity = us_id u" "sn_organization_id identity = us_organization_id u"
    "sn_session_id identity = dr_session_id (hc_draw c)"
    "issue_access_token (bk_auth bk) (dr_jti (hc_draw c)) identity (hc_now c) = Inr (response_token resp)"
    "open_session (pd_identity db1) identity (hc_now c)" "identity_kept (pd_identity db) (pd_identity db1)"
    "\<exists>f. families_of (pd_identity db1) (dr_session_id (hc_draw c)) = Some f \<and> fa_alive f"
proof -
  let ?auth = "bk_auth bk" and ?db = "pd_identity db"
  obtain i result where l: "login ?auth (hc_draw c) (hc_now c) request ?db = (i, result)" by (metis prod.collapse)
  then have db1: "pd_identity db1 = i" "pd_inventory db1 = pd_inventory db"
    and resp: "resp = (case result of Inr issued \<Rightarrow> issued_response ?auth issued | Inl e \<Rightarrow> auth_error_response e)"
    using assms(1) by (auto simp: with_identity_def http_login_def answer_issued_def)
  obtain issued where issued: "result = Inr issued" "resp = issued_response ?auth issued"
    using resp assms(2) by (cases result) (auto simp: auth_error_response_def split: auth_error.splits)
  have tok: "response_token resp = is_access_token issued"
    using issued(2) assms(2)
    by (auto simp: issued_response_def response_token_def auth_error_response_def split: sum.splits auth_error.splits)
  from l show thesis
  proof (cases rule: login_cases)
    case (granted user)
    have issue: "issue_session ?auth (hc_draw c) (hc_now c) i (dr_session_id (hc_draw c)) (lu_organization_id user)
         (lu_user_id user) (drawn_token ?auth (hc_draw c)) (drawn_csrf ?auth (hc_draw c)) = Inr issued"
      using granted(3) issued(1) by simp
    note ids = issue_session_identity [OF issue]
    obtain u where u: "u \<in> set (db_users ?db)" "named_user ?auth ?db request u" "password_fits ?auth request u"
      "lu_user_id user = us_id u" "lu_organization_id user = us_organization_id u"
      using check_credentials_ok [OF granted(1)] by blast
    have kept: "identity_kept ?db i" by (rule login_transaction_kept [OF granted(2)])
    obtain u' where "u' \<in> set (db_users i)" "us_id u' = us_id u" "us_organization_id u' = us_organization_id u"
      "us_status u' = ''active''"
      using kept_users(2) [OF kept u(1)] u(2) by (auto simp: named_user_def)
    moreover have new: "\<exists>s. session_of i (dr_session_id (hc_draw c)) = Some s \<and> ss_user_id s = us_id u
        \<and> ss_revoked_at s = None \<and> ss_organization_id s = us_organization_id u \<and> ss_access_revoked_before s = None
        \<and> ss_expires_at s = hc_now c + micros_of_days refresh_ttl_days"
    proof (rule login_effect [OF granted(2)])
      fix s r assume s: "db_sessions i = db_sessions ?db @ [s]" "ss_id s = dr_session_id (hc_draw c)"
        "ss_expires_at s = hc_now c + micros_of_days refresh_ttl_days" "ss_revoked_at s = None"
        "ss_organization_id s = lu_organization_id user" "ss_user_id s = lu_user_id user"
        "ss_access_revoked_before s = None" "session_of ?db (dr_session_id (hc_draw c)) = None"
      have "session_of i (dr_session_id (hc_draw c)) = Some s"
        using s(2,8) by (simp add: session_of_def s(1) find_append_new find_None_set)
      with s u(4,5) show ?thesis by auto
    qed
    ultimately have "open_session i (is_identity issued) (hc_now c)"
      by (auto simp: open_session_def ids(1) u(4,5))
    moreover have "\<exists>f. families_of i (dr_session_id (hc_draw c)) = Some f \<and> fa_alive f"
      using new by (auto simp: families_of_def)
    ultimately show ?thesis
      using u ids kept by (intro that [of u "is_identity issued"]) (simp_all add: db1 tok)
  qed (use issued in simp)
qed

lemma open_session_kept:
  assumes "open_session db identity t" and "identity_kept db db'" and "families_forward db db'"
  shows "open_session db' identity t"
proof -
  obtain s u where s: "session_of db (sn_session_id identity) = Some s"
    "ss_user_id s = sn_user_id identity" "ss_organization_id s = sn_organization_id identity"
    "ss_access_revoked_before s = None" "ss_expires_at s = t + micros_of_days refresh_ttl_days"
    and u: "u \<in> set (db_users db)" "us_id u = sn_user_id identity"
      "us_organization_id u = sn_organization_id identity" "us_status u = ''active''"
    using assms(1) unfolding open_session_def by blast
  obtain s' where s': "session_of db' (sn_session_id identity) = Some s'" "ss_user_id s' = ss_user_id s"
    "ss_organization_id s' = ss_organization_id s" "ss_access_revoked_before s' = ss_access_revoked_before s"
    using assms(2) s(1) unfolding identity_kept_def by blast
  have "\<exists>f. families_of db (sn_session_id identity) = Some f \<and> fa_expires_at f = ss_expires_at s"
    using s(1) by (simp add: families_of_def)
  then have "ss_expires_at s' = ss_expires_at s"
    using families_forwardD [OF assms(3)] s'(1) by (fastforce simp: families_of_def)
  moreover obtain u' where "u' \<in> set (db_users db')" "us_id u' = us_id u"
    "us_organization_id u' = us_organization_id u" "us_status u' = us_status u"
    using kept_users(2) [OF assms(2) u(1)] by blast
  ultimately show ?thesis using s s' u unfolding open_session_def by (intro conjI exI [of _ s'] bexI [of _ u']) simp_all
qed

text \<open>The token of a login authenticates for its ten minutes, as long as the session is alive.\<close>

lemma open_session_authenticates:
  assumes keys: "shared_keys bk" and laws: "token_laws (bk_auth bk)" and inv: "session_inv db" "distinct (map us_id (db_users db))"
    and issue: "issue_access_token (bk_auth bk) jti identity now = Inr token" "length token \<le> 16384"
    and session: "open_session db identity now" "families_of db (sn_session_id identity) = Some f" "fa_alive f"
    and time: "0 \<le> now" "now \<le> now'" "now' < now + 599 * 1000000" "now' \<le> i64_max"
  shows "authenticate (st_authorization (bk_state bk)) now' (bearer_headers token) db
    = Inr \<lparr>pr_session_id = sn_session_id identity, pr_user_id = sn_user_id identity,
        pr_organization_id = sn_organization_id identity\<rparr>"
proof -
  obtain claims where claims: "decode_access_token (bk_auth bk) token (as_access_key (bk_auth bk)) (unix_seconds now')
      (as_issuer (bk_auth bk)) (as_audience (bk_auth bk)) = Inr claims"
    "cl_sub claims = sn_user_id identity" "cl_org claims = sn_organization_id identity"
    "cl_sid claims = sn_session_id identity" "token \<noteq> []"
    using token_decodes [OF laws issue time] by blast
  obtain s u where s: "session_of db (sn_session_id identity) = Some s"
    "ss_user_id s = sn_user_id identity" "ss_organization_id s = sn_organization_id identity"
    "ss_access_revoked_before s = None" "ss_expires_at s = now + micros_of_days refresh_ttl_days"
    and u: "u \<in> set (db_users db)" "us_id u = sn_user_id identity"
      "us_organization_id u = sn_organization_id identity" "us_status u = ''active''"
    using session(1) unfolding open_session_def by blast
  have "session_with_user db (sn_session_id identity) = Some (s, u)"
    by (rule session_with_userI [OF s(1) inv(2) u(1)]) (use s u in simp_all)
  moreover have "ss_revoked_at s = None" using session(2,3) s(1) by (auto simp: families_of_def)
  moreover have "now' < ss_expires_at s"
    using time(3) s(5) by (simp add: micros_of_days_def micros_of_seconds_def refresh_ttl_days_def)
  moreover have "az_access_key (st_authorization (bk_state bk)) = as_access_key (bk_auth bk)"
    "az_issuer (st_authorization (bk_state bk)) = as_issuer (bk_auth bk)"
    "az_audience (st_authorization (bk_state bk)) = as_audience (bk_auth bk)"
    using keys by (simp_all add: shared_keys_def Let_def)
  ultimately show ?thesis
    using claims s(2,3,4) u(4)
    by (simp add: authenticate_def bearer_of_headers shared_decode [OF keys])
qed


section \<open>Properties\<close>

lemma permission_kept:
  assumes "identity_kept db db'"
  shows "site_permission_exists db' org user p site = site_permission_exists db org user p site"
proof -
  have "site_permission_exists (accounts x) org user p site = site_permission_exists x org user p site" for x
    by (simp add: site_permission_exists_def usable_role_def codes_of_role_def accounts_def)
  then show ?thesis using assms by (metis identity_kept_def)
qed

lemma list_request_status:
  assumes auth: "authenticate (st_authorization (bk_state bk)) (hc_now c) hs (pd_identity db) = Inr pr"
    and inv: "platform_inv bk db" and q: "query_validate q = Inr ()"
  shows "\<exists>db' a. handle bk c co hs (DeviceRoute site (ListRequest q)) db = (db', Device_Reply a)
    \<and> re_status a = (if site_permission_exists (pd_identity db) (pr_organization_id pr) (pr_user_id pr) ''devices.view'' site
         then OK_200 else FORBIDDEN_403)"
proof -
  let ?ca = "device_call c co hs (pd_identity db)"
  obtain v a where s: "serve (bk_state bk) ?ca site (ListRequest q) (inventory_of db) = (v, a)" by (metis prod.collapse)
  have ca: "ca_now ?ca = hc_now c" "ca_headers ?ca = hs" "ca_sessions ?ca = pd_identity db" "ca_grants ?ca = pd_identity db"
    by (simp_all add: device_call_def)
  have perm: "require_site_permission (pd_identity db) pr site ''devices.view''
     = (if site_permission_exists (pd_identity db) (pr_organization_id pr) (pr_user_id pr) ''devices.view'' site
        then Inr () else Inl AzPermissionDenied)"
  proof -
    have "trim ''devices.view'' \<noteq> []" by code_simp
    then show ?thesis by (simp add: require_site_permission_def)
  qed
  have "re_status a = (if site_permission_exists (pd_identity db) (pr_organization_id pr) (pr_user_id pr) ''devices.view'' site
         then OK_200 else FORBIDDEN_403)"
    using s
  proof (cases rule: serve_cases)
    case (unauthenticated e)
    then show ?thesis using auth ca by simp
  next
    case (denied p)
    then show ?thesis using auth ca perm by (simp split: if_splits)
  next
    case (allowed p)
    have p: "p = pr" using allowed(1) auth ca by simp
    have base: "base_inv (inventory_of db)" using inv by (simp add: platform_inv_def inventory_inv_def)
    have "\<exists>vs. collect_views (list_rows (st_lower (bk_state bk)) (inventory_of db) (ca_network ?ca)
        (pr_organization_id pr) site q) = Inr vs"
      using base list_rows_sub row_ok_view unfolding base_inv_def devices_ok_def
      by (intro collect_views_total) blast
    then have "re_status a = OK_200" using allowed(3) q unfolding p by (auto simp: list_devices_def)
    moreover have "require_site_permission (pd_identity db) pr site ''devices.view'' = Inr ()"
      using allowed(2) ca p by simp
    ultimately show ?thesis using perm by (simp split: if_splits)
  qed
  with s show ?thesis by (intro exI [of _ "db\<lparr>pd_inventory := v\<rparr>"] exI [of _ a]) simp
qed

lemma served_after_login:
  assumes "shared_keys bk"
    and "token_laws (bk_auth bk)" and "audit_laws (ie_audit_ops (st_inventory (bk_state bk)))"
    and "platform_inv bk db"
    and "handle bk c co hs (LoginRoute request) db = (db1, Auth_Reply resp)" and "ar_status resp = OK_200"
    and "in_i64 (tk_utc_ms (hc_tick c))" and "(platform_step bk)\<^sup>*\<^sup>* db1 db2"
    and "families_of (pd_identity db2) (dr_session_id (hc_draw c)) = Some f" and "fa_alive f"
    and "length (response_token resp) \<le> 16384"
    and "0 \<le> hc_now c" and "hc_now c \<le> hc_now c'" and "hc_now c' < hc_now c + 599 * 1000000" and "hc_now c' \<le> i64_max"
    and "query_validate q = Inr ()"
  shows "\<exists>u \<in> set (db_users (pd_identity db)). named_user (bk_auth bk) (pd_identity db) request u
    \<and> password_fits (bk_auth bk) request u
    \<and> (\<exists>db3 a. handle bk c' co' (bearer_headers (response_token resp)) (DeviceRoute site (ListRequest q)) db2
          = (db3, Device_Reply a)
        \<and> re_status a = (if site_permission_exists (pd_identity db) (us_organization_id u) (us_id u) ''devices.view'' site
             then OK_200 else FORBIDDEN_403))"
proof (rule login_response [OF assms(5,6)])
  fix u identity
  assume u: "u \<in> set (db_users (pd_identity db))" "named_user (bk_auth bk) (pd_identity db) request u"
    "password_fits (bk_auth bk) request u"
    and ids: "sn_user_id identity = us_id u" "sn_organization_id identity = us_organization_id u"
      "sn_session_id identity = dr_session_id (hc_draw c)"
    and token: "issue_access_token (bk_auth bk) (dr_jti (hc_draw c)) identity (hc_now c) = Inr (response_token resp)"
    and opened: "open_session (pd_identity db1) identity (hc_now c)" and kept: "identity_kept (pd_identity db) (pd_identity db1)"
  have "(platform_step bk)\<^sup>*\<^sup>* db db2"
    using step_handled [OF assms(7,5)] assms(8) by (rule converse_rtranclp_into_rtranclp)
  note all = platform_reach [OF assms(3) this assms(4)]
  have inv1: "platform_inv bk db1" using platform_step_keeps [OF assms(3) step_handled [OF assms(7,5)] assms(4)] ..
  note fwd = platform_reach(2) [OF assms(3,8) inv1]
  have opened2: "open_session (pd_identity db2) identity (hc_now c)"
    using open_session_kept [OF opened] fwd by (simp add: platform_forward_def)
  have auth: "authenticate (st_authorization (bk_state bk)) (hc_now c') (bearer_headers (response_token resp)) (pd_identity db2)
    = Inr \<lparr>pr_session_id = sn_session_id identity, pr_user_id = us_id u, pr_organization_id = us_organization_id u\<rparr>"
    using open_session_authenticates [OF assms(1) assms(2) _ _ token assms(11) opened2 _ assms(10,12-15)]
      all(1) assms(9) ids by (simp add: platform_inv_def)
  have same: "site_permission_exists (pd_identity db2) org v p site = site_permission_exists (pd_identity db) org v p site"
    for org v p
    by (rule permission_kept) (use all(2) in \<open>simp add: platform_forward_def\<close>)
  show ?thesis
    using u list_request_status [OF auth all(1) assms(16), of co' site] unfolding same by auto
qed

text \<open>C8: From the login to the devices. After a start, a client whose login was answered with 200 may list the
  devices of a site with the access token of that answer for ten minutes (a second less, as the token
  counts whole seconds), whatever other requests and transactions come in between, as long as its
  session is alive: the answer is 200 exactly when the user named by the login holds the permission on
  the site, and 403 otherwise. The token must not be longer than the decoder reads.\<close>

theorem logged_in_caller_is_served:
  assumes "start_backend env dp w crates ie lower db00 = (db0, Inr bk)"
    and "token_laws (bk_auth bk)" and "audit_laws (ie_audit_ops (st_inventory (bk_state bk)))"
    and "platform_inv bk db"
    and "handle bk c co hs (LoginRoute request) db = (db1, Auth_Reply resp)" and "ar_status resp = OK_200"
    and "in_i64 (tk_utc_ms (hc_tick c))" and "(platform_step bk)\<^sup>*\<^sup>* db1 db2"
    and "families_of (pd_identity db2) (dr_session_id (hc_draw c)) = Some f" and "fa_alive f"
    and "length (response_token resp) \<le> 16384"
    and "0 \<le> hc_now c" and "hc_now c \<le> hc_now c'" and "hc_now c' < hc_now c + 599 * 1000000" and "hc_now c' \<le> i64_max"
    and "query_validate q = Inr ()"
  shows "\<exists>u \<in> set (db_users (pd_identity db)). named_user (bk_auth bk) (pd_identity db) request u
    \<and> password_fits (bk_auth bk) request u
    \<and> (\<exists>db3 a. handle bk c' co' (bearer_headers (response_token resp)) (DeviceRoute site (ListRequest q)) db2
          = (db3, Device_Reply a)
        \<and> re_status a = (if site_permission_exists (pd_identity db) (us_organization_id u) (us_id u) ''devices.view'' site
             then OK_200 else FORBIDDEN_403))"
  by (rule served_after_login [OF start_shares_keys [OF assms(1)] assms(2-16)])

text \<open>C9: Logging out is final on every route. After a logout with a refresh cookie of a session, and whatever
  comes later, every device request with an access token of that session is answered with 401 and
  changes nothing, \<open>me\<close> answers 401, and a refresh with any refresh token the session ever had answers
  401, or 403 when it fails the CSRF check.\<close>

theorem logout_locks_out:
  assumes laws: "audit_laws (ie_audit_ops (st_inventory (bk_state bk)))" and inv: "platform_inv bk db"
    and out: "handle bk c co hs LogoutRoute db = (db1, Auth_Reply resp)" "ar_status resp = NO_CONTENT_204"
      "in_i64 (tk_utc_ms (hc_tick c))"
    and cookie: "cookie_value hs (refresh_cookie_name (bk_auth bk)) = Some cookie"
      "families_of (pd_identity db) i = Some f" "hash_opaque_token (bk_auth bk) cookie \<in> set (fa_tokens f)"
    and later: "(platform_step bk)\<^sup>*\<^sup>* db1 db2"
  shows "(\<forall>c' co' hs' site req token claims az db3 r. az = st_authorization (bk_state bk)
        \<and> authorization_bearer_token hs' = Some token
        \<and> decode_access_token az token (az_access_key az) (unix_seconds (hc_now c')) (az_issuer az) (az_audience az) = Inr claims
        \<and> cl_sid claims = i \<and> handle bk c' co' hs' (DeviceRoute site req) db2 = (db3, r)
        \<longrightarrow> r = Device_Reply (authorization_error_response AzInvalidSession)
          \<and> pd_identity db3 = pd_identity db2 \<and> inventory_of db3 = inventory_of db2)
    \<and> (\<forall>c' co' hs' identity token. authenticate_access (bk_auth bk) (hc_now c') token (pd_identity db2) = Inr identity
        \<longrightarrow> sn_session_id identity \<noteq> i)
    \<and> (\<forall>c' co' hs' p db3 r. cookie_value hs' (refresh_cookie_name (bk_auth bk)) = Some p
        \<and> hash_opaque_token (bk_auth bk) p \<in> set (map rt_token_hash (rows_of (pd_identity db2) i))
        \<and> handle bk c' co' hs' RefreshRoute db2 = (db3, Auth_Reply r)
        \<longrightarrow> ar_status r \<in> {UNAUTHORIZED_401, FORBIDDEN_403})"
proof -
  let ?auth = "bk_auth bk" and ?h = "hash_opaque_token (bk_auth bk) cookie"
  have sinv: "session_inv (pd_identity db)" using inv by (simp add: platform_inv_def)
  have "pd_identity db1 = logout ?auth (hc_now c) cookie (pd_identity db)"
    using out(1,2) cookie(1)
    by (auto simp: with_identity_def http_logout_def auth_error_response_def split: option.splits if_splits)
  then have "families_of (pd_identity db1) i = Some (f\<lparr>fa_alive := False\<rparr>)"
    using logout_families(2) [OF sinv] cookie(2,3) by (simp add: family_kill_def)
  moreover have inv1: "platform_inv bk db1" using platform_step_keeps [OF laws step_handled [OF out(3,1)] inv] ..
  note reach = platform_reach [OF laws later inv1]
  ultimately obtain g where g: "families_of (pd_identity db2) i = Some g" "\<not> fa_alive g"
    using reach(2) families_forwardD unfolding platform_forward_def by fastforce
  have sinv2: "session_inv (pd_identity db2)" using reach(1) by (simp add: platform_inv_def)
  have tokens: "fa_tokens g = map rt_token_hash (rows_of (pd_identity db2) i)"
    using g(1) by (auto simp: families_of_def)
  obtain s where s: "session_of (pd_identity db2) i = Some s" "ss_revoked_at s \<noteq> None"
    using g by (auto simp: families_of_def)
  have device: "r = Device_Reply (authorization_error_response AzInvalidSession)
      \<and> pd_identity db3 = pd_identity db2 \<and> inventory_of db3 = inventory_of db2"
    if "az = st_authorization (bk_state bk)" "authorization_bearer_token hs' = Some token"
      "decode_access_token az token (az_access_key az) (unix_seconds (hc_now c')) (az_issuer az) (az_audience az) = Inr claims"
      "cl_sid claims = i" "handle bk c' co' hs' (DeviceRoute site req) db2 = (db3, r)"
    for c' co' hs' site req token claims az db3 r
  proof -
    have "authenticate az (hc_now c') hs' (pd_identity db2) = Inl AzInvalidSession"
      using that s by (auto simp: authenticate_def session_with_user_def ok_or_def split: option.splits)
    then have "serve (bk_state bk) (device_call c' co' hs' (pd_identity db2)) site req (inventory_of db2)
        = (inventory_of db2, authorization_error_response AzInvalidSession)"
      using that(1) by (simp add: serve_permitted api_authorize_def device_call_def)
    then show ?thesis using that(5) by (auto simp: inventory_of_def linked_again)
  qed
  have me: "sn_session_id identity \<noteq> i"
    if "authenticate_access ?auth (hc_now c') token (pd_identity db2) = Inr identity" for c' token identity
    using authenticate_alive [OF that g(1)] g(2) by blast
  have refresh: "ar_status r \<in> {UNAUTHORIZED_401, FORBIDDEN_403}"
    if p: "cookie_value hs' (refresh_cookie_name ?auth) = Some p"
      "hash_opaque_token ?auth p \<in> set (map rt_token_hash (rows_of (pd_identity db2) i))"
      "handle bk c' co' hs' RefreshRoute db2 = (db3, Auth_Reply r)" for c' co' hs' p db3 r
  proof -
    have "snd (refresh ?auth (hc_draw c') (hc_now c') p (pd_identity db2)) = Inl AuthRefreshReuseDetected"
      using refresh_refuses(1) [OF sinv2 g(1) refl _ disjI1 [OF g(2)]] p(2) tokens by simp
    then show ?thesis using p(1,3)
      by (auto simp: with_identity_def http_refresh_def answer_issued_def auth_error_response_def split_beta
          split: option.splits if_splits)
  qed
  show ?thesis
    by (intro conjI allI impI; (elim conjE)?)
      ((rule device [THEN conjunct1]; assumption), (rule device [THEN conjunct2, THEN conjunct1]; assumption),
       (rule device [THEN conjunct2, THEN conjunct2]; assumption), (rule me, assumption), (rule refresh; assumption))
qed

end
