(* ===== verification/Backend_Install.thy ===== *)
theory Backend_Install
  imports Backend_Login
begin

text \<open>
  The first start of the backend, from the environment to the first device list, and one concrete
  installation on which the properties of the theory \<open>Backend_Login\<close> are instantiated.
\<close>

section \<open>A fresh install\<close>

definition fresh_tables :: "permission_row list \<Rightarrow> platform_db \<Rightarrow> bool" where
  "fresh_tables perms db \<longleftrightarrow> pd_identity db = empty_identity_db\<lparr>db_permissions := perms\<rparr>
     \<and> (let v = pd_inventory db in iv_devices v = [] \<and> iv_identifiers v = [] \<and> iv_facts v = []
        \<and> iv_lifecycle_events v = [] \<and> au_events (iv_audit v) = [] \<and> od_events (iv_outbox v) = []
        \<and> od_attempts (iv_outbox v) = [] \<and> od_consumptions (iv_outbox v) = [])"

text \<open>The identity tables after the first start.\<close>

definition installed :: "start_draw \<Rightarrow> string \<Rightarrow> string \<Rightarrow> string \<Rightarrow> permission_row list \<Rightarrow> identity_db \<Rightarrow> bool" where
  "installed w slug email encoded perms db \<longleftrightarrow>
     (\<exists>n s n'. db_organizations db = [\<lparr>og_id = sd_organization_id (sw_scope w), og_slug = slug, og_name = n\<rparr>]
       \<and> db_sites db = [\<lparr>si_id = sd_site_id (sw_scope w), si_organization_id = sd_organization_id (sw_scope w),
            si_slug = s, si_name = n'\<rparr>])
   \<and> (\<exists>n. db_users db = [\<lparr>us_id = dm_user_id (sw_admin w), us_organization_id = sd_organization_id (sw_scope w),
        us_email = email, us_display_name = n, us_status = ''active'', us_password_hash = Some encoded,
        us_last_login_at = None\<rparr>])
   \<and> db_roles db = [\<lparr>ro_id = dm_role_id (sw_admin w), ro_organization_id = Some (sd_organization_id (sw_scope w)),
        ro_name = ''organization-admin'', ro_is_system = True\<rparr>]
   \<and> db_permissions db = perms \<and> set (db_role_permissions db) = (\<lambda>p. (dm_role_id (sw_admin w), pe_id p)) ` set perms
   \<and> db_role_bindings db = [\<lparr>rb_id = dm_binding_id (sw_admin w), rb_organization_id = sd_organization_id (sw_scope w),
        rb_role_id = dm_role_id (sw_admin w), rb_user_id = Some (dm_user_id (sw_admin w)),
        rb_service_account_id = None, rb_site_id = None\<rparr>]
   \<and> db_sessions db = [] \<and> db_refresh_tokens db = []"

lemma scope_on_fresh:
  assumes "maybe_bootstrap_scope env dr (empty_identity_db\<lparr>db_permissions := perms\<rparr>) = Inr db"
    and "env ''SNM_BOOTSTRAP_ORG_SLUG'' = Some slug" and "trim slug \<noteq> []"
  shows "slug_ok slug" and "\<exists>n s n' d. db = empty_identity_db\<lparr>db_permissions := perms,
      db_organizations := [\<lparr>og_id = sd_organization_id dr, og_slug = slug, og_name = n\<rparr>],
      db_sites := [\<lparr>si_id = sd_site_id dr, si_organization_id = sd_organization_id dr, si_slug = s, si_name = n'\<rparr>],
      db_routing_domains := d\<rparr>"
  using assms
  by (auto simp: maybe_bootstrap_scope_def non_empty_env_def bootstrap_scope_def empty_identity_db_def
      result_simps upsert_def ensure_def Let_def split: if_splits)

lemma first_start:
  assumes start: "start_backend env dp w crates ie lower db00 = (db0, Inr bk)"
    and fresh: "fresh_tables perms (snd (run_migrations env dp db00))"
    and vars: "env ''SNM_BOOTSTRAP_ORG_SLUG'' = Some slug" "env ''SNM_BOOTSTRAP_ADMIN_EMAIL'' = Some email" "trim email \<noteq> []"
      "env ''SNM_BOOTSTRAP_ADMIN_PASSWORD'' = Some password"
  obtains encoded where "installed w slug (as_sql_lower (bk_auth bk) email) encoded perms (pd_identity db0)"
    and "slug_ok slug" "trim slug \<noteq> []" "length email \<le> 320" "12 \<le> length password" "length password \<le> 1024"
    and "hash_password (as_passwords (bk_auth bk)) (dm_salt (sw_admin w)) password default_password_policy = Inr encoded"
    and "platform_inv bk db0" "st_inventory (bk_state bk) = ie"
  using start
proof (rule start_steps)
  fix db1 identity identity' audit authz
  assume mig: "run_migrations env dp db00 = (True, db1)"
    and scope: "maybe_bootstrap_scope env (sw_scope w) (pd_identity db1) = Inr identity"
    and admin: "maybe_bootstrap_admin env (bk_auth bk) (sw_admin w)
        (identity, iv_audit (linked identity (pd_inventory db1))) = Inr (identity', audit)"
    and ie: "st_inventory (bk_state bk) = ie"
    and db0: "db0 = \<lparr>pd_identity = identity', pd_inventory = (pd_inventory db1)\<lparr>iv_audit := audit\<rparr>\<rparr>"
  have fresh1: "fresh_tables perms db1" using fresh mig by simp
  obtain display where slug: "trim slug \<noteq> []" and boot: "bootstrap_admin (bk_auth bk) (sw_admin w) slug email display password
      (identity, iv_audit (linked identity (pd_inventory db1))) = Inr (identity', audit)"
    using admin vars by (auto simp: maybe_bootstrap_admin_def non_empty_env_def Let_def result_simps split: if_splits)
  have "pd_identity db1 = empty_identity_db\<lparr>db_permissions := perms\<rparr>" using fresh1 by (simp add: fresh_tables_def)
  note sc = scope_on_fresh [OF scope [unfolded this] vars(1) slug]
  obtain n s n' d where id: "identity = empty_identity_db\<lparr>db_permissions := perms,
      db_organizations := [\<lparr>og_id = sd_organization_id (sw_scope w), og_slug = slug, og_name = n\<rparr>],
      db_sites := [\<lparr>si_id = sd_site_id (sw_scope w), si_organization_id = sd_organization_id (sw_scope w), si_slug = s, si_name = n'\<rparr>],
      db_routing_domains := d\<rparr>"
    using sc(2) by blast
  have len: "length email \<le> 320" using boot by (auto simp: bootstrap_admin_def split: if_splits)
  from boot show thesis
  proof (rule bootstrap_steps)
    fix encoded g users u roles r bindings
    assume h: "hash_password (as_passwords (bk_auth bk)) (dm_salt (sw_admin w)) password default_password_policy = Inr encoded"
      and g: "List.find (\<lambda>g. og_slug g = slug) (db_organizations identity) = Some g"
      and u: "ensure_admin_user (bk_auth bk) (dm_user_id (sw_admin w)) (og_id g) email display encoded (db_users identity) = Inr (users, u)"
      and r: "ensure_admin_role (dm_role_id (sw_admin w)) (og_id g) (db_roles identity) = Inr (roles, r)"
      and b: "ensure_admin_binding (dm_binding_id (sw_admin w)) (og_id g) (ro_id r) (us_id u) (db_role_bindings identity) = Inr bindings"
      and e: "insert_event (bootstrap_event (bk_auth bk) (sw_admin w) (og_id g) (us_id u))
          (iv_audit (linked identity (pd_inventory db1))) = Inr audit"
      and db': "identity' = identity\<lparr>db_users := users, db_roles := roles, db_role_permissions :=
           grant_all_permissions (ro_id r) (db_permissions identity) (db_role_permissions identity),
           db_role_bindings := bindings\<rparr>"
    have "og_id g = sd_organization_id (sw_scope w)" using g by (auto simp: id)
    then have inst: "installed w slug (as_sql_lower (bk_auth bk) email) encoded perms identity'"
      using u r b
      by (simp add: installed_def db' id empty_identity_db_def ensure_admin_user_def ensure_admin_role_def
          ensure_admin_binding_def upsert_def insert_unless_def grant_all_permissions_def) auto
    have "sealed_rows audit org = []" for org
      using unsealed_event_keeps_chains(1) [OF e, of org] fresh1
      by (simp add: bootstrap_event_def sealed_rows_def linked_def fresh_tables_def Let_def)
    then have "inventory_inv ie (inventory_of db0)"
      using fresh1 unfolding inventory_inv_def all_chained_def
      by (simp add: db0 inventory_of_def linked_def fresh_tables_def Let_def base_inv_def devices_ok_def identifiers_ok_def
          facts_ok_def log_ok_def device_log_def outbox_inv_def sealed_rows_def)
    moreover have "session_inv identity'" using inst by (intro empty_session_inv) (simp_all add: installed_def)
    moreover have "distinct (map us_id (db_users identity'))" using inst by (auto simp: installed_def)
    ultimately have "platform_inv bk db0" by (simp add: platform_inv_def ie) (simp add: db0)
    then show thesis
      using that [OF _ sc(1) slug len _ _ h _ ie] inst h
      by (auto simp: db0 hash_password_def split: if_splits)
  qed
qed


lemma installed_login:
  assumes inst: "installed w slug email' encoded perms db" and lower: "as_sql_lower auth email' = as_sql_lower auth email"
    and slug: "slug_ok slug" "trim slug \<noteq> []" and email: "length email \<le> 320" "trim email \<noteq> []"
    and password: "length password \<le> 1024" "verify_password (as_passwords auth) password encoded = Inr True"
  shows "\<exists>db'. login auth dr now \<lparr>lr_organization_slug = slug, lr_email = email, lr_password = password\<rparr> db
    = (db', issue_session auth dr now db' (dr_session_id dr) (sd_organization_id (sw_scope w)) (dm_user_id (sw_admin w))
        (drawn_token auth dr) (drawn_csrf auth dr))"
proof -
  let ?r = "\<lparr>lr_organization_slug = slug, lr_email = email, lr_password = password\<rparr>"
  let ?user = "\<lparr>lu_user_id = dm_user_id (sw_admin w), lu_organization_id = sd_organization_id (sw_scope w),
      lu_password_hash = Some encoded\<rparr>"
  have "length slug \<le> 63" using slug(1) by (auto simp: slug_ok_def split: list.splits)
  then have credentials: "check_credentials auth db ?r = Inr ?user"
    using inst lower slug(2) email password
    by (auto simp: check_credentials_def load_login_user_def installed_def Let_def unwrap_or_def)
  have "\<exists>db'. login_transaction dr now ?user tok db = Inr db'" for tok
    using inst
    by (auto simp: login_transaction_def insert_session_def insert_refresh_token_def insert_unless_def installed_def
        session_of_def Let_def)
  then obtain db' where "login_transaction dr now ?user (drawn_token auth dr) db = Inr db'" by blast
  with credentials show ?thesis by (simp add: login_def issue_drawn)
qed

lemma installed_permission:
  assumes "installed w slug email encoded perms db"
  shows "site_permission_exists db (sd_organization_id (sw_scope w)) (dm_user_id (sw_admin w)) code (sd_site_id (sw_scope w))
    \<longleftrightarrow> code \<in> pe_code ` set perms"
  using assms
  by (auto simp: site_permission_exists_iff codes_of_role_iff usable_role_def installed_def image_iff)



section \<open>An example\<close>

text \<open>Hashes that keep the length of the password stand for Argon2.\<close>

definition length_phc :: "nat \<Rightarrow> phc" where
  "length_phc n = \<lparr>phc_algorithm = ''argon2id'', phc_version = Some 19,
     phc_get_decimal = (\<lambda>k. if k = ''m'' then Some (pp_memory_kib default_password_policy)
       else if k = ''t'' then Some (pp_iterations default_password_policy)
       else if k = ''p'' then Some (pp_parallelism default_password_policy)
       else if k = ''len'' then Some (of_nat n) else None)\<rparr>"

definition length_passwords :: password_ops where
  "length_passwords = \<lparr>encode_salt = Some, argon2_params = (\<lambda>_. True),
     argon2id_hash = (\<lambda>policy password salt. if policy = default_password_policy then Some password else None),
     phc_parse = (\<lambda>s. Some (length_phc (length s))),
     argon2_verify = (\<lambda>password p. phc_get_decimal p ''len'' = Some (of_nat (length password)))\<rparr>"

definition demo_crates :: auth_service where
  "demo_crates = demo_auth\<lparr>as_passwords := length_passwords\<rparr>"

definition demo_variables :: environment where
  "demo_variables = [''SNM_ACCESS_TOKEN_KEY'' \<mapsto> ''0123456789abcdef0123456789abcdef'',
     ''DATABASE_URL'' \<mapsto> ''postgres://db/snm'', ''REDIS_URL'' \<mapsto> ''redis://cache'',
     ''SNM_BOOTSTRAP_ORG_SLUG'' \<mapsto> ''acme'', ''SNM_BOOTSTRAP_ADMIN_EMAIL'' \<mapsto> ''Ana@acme.test'',
     ''SNM_BOOTSTRAP_ADMIN_PASSWORD'' \<mapsto> ''correct horse'']"

definition demo_dependencies :: dependencies where
  "demo_dependencies = \<lparr>dp_connect = (\<lambda>_ _. True), dp_migrate = Pair True, dp_redis = (\<lambda>_. True),
     dp_ping = True, dp_http_client = True\<rparr>"

definition demo_start_draw :: start_draw where
  "demo_start_draw = \<lparr>sw_salt = ''salt'',
     sw_scope = \<lparr>sd_organization_id = 2, sd_site_id = 20, sd_routing_domain_id = 30\<rparr>,
     sw_admin = \<lparr>dm_salt = ''salt'', dm_user_id = 1, dm_role_id = 5, dm_binding_id = 7, dm_event_id = 50,
       dm_correlation_id = 51\<rparr>\<rparr>"

definition demo_fresh :: platform_db where
  "demo_fresh = \<lparr>pd_identity = empty_identity_db\<lparr>db_permissions := [\<lparr>pe_id = 6, pe_code = ''devices.view''\<rparr>]\<rparr>,
     pd_inventory = demo_inventory\<rparr>"

definition demo_admin_auth :: auth_service where
  "demo_admin_auth = demo_auth\<lparr>as_passwords := length_passwords,
     as_dummy_password_hash := ''snm dummy password never accepted''\<rparr>"

lemma demo_backend_auth_value: "auth_from_env demo_crates (sw_salt demo_start_draw) demo_variables = Inr demo_admin_auth"
  by (simp add: auth_from_env_def demo_variables_def access_token_key_new_def hash_password_def demo_crates_def
      length_passwords_def unwrap_or_def)
    (simp add: demo_auth_def demo_admin_auth_def length_passwords_def)

definition demo_installed :: identity_db where
  "demo_installed = empty_identity_db\<lparr>
     db_organizations := [\<lparr>og_id = 2, og_slug = ''acme'', og_name = ''Seven Network Manager''\<rparr>],
     db_sites := [\<lparr>si_id = 20, si_organization_id = 2, si_slug = ''default'', si_name = ''Default Site''\<rparr>],
     db_routing_domains := [\<lparr>rg_id = 30, rg_organization_id = 2, rg_site_id = 20, rg_name = ''default'', rg_is_default = True\<rparr>],
     db_users := [\<lparr>us_id = 1, us_organization_id = 2, us_email = ''ana@acme.test'', us_display_name = ''SNM Administrator'',
       us_status = ''active'', us_password_hash = Some ''correct horse'', us_last_login_at = None\<rparr>],
     db_roles := [\<lparr>ro_id = 5, ro_organization_id = Some 2, ro_name = ''organization-admin'', ro_is_system = True\<rparr>],
     db_permissions := [\<lparr>pe_id = 6, pe_code = ''devices.view''\<rparr>],
     db_role_permissions := [(5, 6)],
     db_role_bindings := [\<lparr>rb_id = 7, rb_organization_id = 2, rb_role_id = 5, rb_user_id = Some 1,
       rb_service_account_id = None, rb_site_id = None\<rparr>]\<rparr>"

definition demo_admin_request :: login_request where
  "demo_admin_request = \<lparr>lr_organization_slug = ''acme'', lr_email = ''Ana@acme.test'', lr_password = ''correct horse''\<rparr>"

definition demo_fresh_start :: "platform_db \<times> (start_error + backend)" where
  "demo_fresh_start = start_backend demo_variables demo_dependencies demo_start_draw demo_crates demo_env
     to_ascii_lowercase demo_fresh"

definition demo_backend :: backend where "demo_backend = projr (snd demo_fresh_start)"

lemma demo_started: "is_ok (snd demo_fresh_start) \<and> pd_identity (fst demo_fresh_start) = demo_installed"
  by code_simp

lemma demo_start_result: "start_backend demo_variables demo_dependencies demo_start_draw demo_crates demo_env
    to_ascii_lowercase demo_fresh = (fst demo_fresh_start, Inr demo_backend)"
proof -
  have "demo_fresh_start = (fst demo_fresh_start, Inr demo_backend)"
    using demo_started by (auto simp: is_ok_iff demo_backend_def prod_eq_iff)
  then show ?thesis by (fold demo_fresh_start_def)
qed

lemma demo_backend_parts: "bk_auth demo_backend = demo_admin_auth" "st_inventory (bk_state demo_backend) = demo_env"
  using demo_start_result demo_backend_auth_value by (auto elim!: start_steps)

text \<open>The administrator logs in, and out again two hundred seconds later.\<close>

definition demo_login_answer :: "identity_db \<times> auth_response" where
  "demo_login_answer = http_login demo_admin_auth (demo_draw 21 ''r'') 1000000000 demo_admin_request demo_installed"

abbreviation demo_admin_reply :: auth_response where "demo_admin_reply \<equiv> snd demo_login_answer"

lemma demo_session: "case demo_login_answer of (db, resp) \<Rightarrow>
    ar_status resp = OK_200 \<and> length (response_token resp) \<le> 16384
    \<and> (case http_logout demo_admin_auth 1200000000 (browser_headers resp) db of
         Some (_, r) \<Rightarrow> ar_status r = NO_CONTENT_204 | None \<Rightarrow> False)
    \<and> (case (families_of db 3, cookie_value (browser_headers resp) (refresh_cookie_name demo_admin_auth)) of
         (Some f, Some cookie) \<Rightarrow> hash_opaque_token demo_admin_auth cookie \<in> set (fa_tokens f) | _ \<Rightarrow> False)
    \<and> (case authorization_bearer_token (bearer_headers (response_token resp)) of None \<Rightarrow> False | Some t \<Rightarrow>
         (case decode_access_token demo_admin_auth t (as_access_key demo_admin_auth) (unix_seconds 1300000000)
            (as_issuer demo_admin_auth) (as_audience demo_admin_auth) of
          Inr claims \<Rightarrow> cl_sid claims = 3 | Inl e \<Rightarrow> False))"
  by code_simp

lemma demo_admin_ok: "ar_status demo_admin_reply = OK_200" "length (response_token demo_admin_reply) \<le> 16384"
  using demo_session by (simp_all add: split_beta)

definition demo_http_call :: "timestamp \<Rightarrow> http_call" where
  "demo_http_call now = \<lparr>hc_now = now, hc_draw = demo_draw 21 ''r'', hc_tick = demo_tick 0,
     hc_network = \<lparr>nw_interfaces = [], nw_addresses = []\<rparr>, hc_fresh_request_id = 61, hc_fresh_correlation_id = 62,
     hc_runtime_answer = None, hc_redis_ok = True, hc_database_probe = True, hc_migration_count = None\<rparr>"

definition demo_correlation :: correlation_context where
  "demo_correlation = \<lparr>co_request_id = 61, co_correlation_id = 62\<rparr>"

definition demo_logged_in :: platform_db where
  "demo_logged_in = (fst demo_fresh_start)\<lparr>pd_identity := fst demo_login_answer\<rparr>"

lemma demo_call_times: "hc_now (demo_http_call t) = t" "in_i64 (tk_utc_ms (hc_tick (demo_http_call t)))"
  by (simp_all add: demo_http_call_def demo_tick_def in_i64_def i64_min_def i64_max_def)

lemma demo_admin_handled: "handle demo_backend (demo_http_call 1000000000) demo_correlation Map.empty
     (LoginRoute \<lparr>lr_organization_slug = ''acme'', lr_email = ''Ana@acme.test'', lr_password = ''correct horse''\<rparr>)
     (fst demo_fresh_start) = (demo_logged_in, Auth_Reply demo_admin_reply)"
  using demo_started
  by (simp add: demo_backend_parts demo_call_times with_identity_def demo_logged_in_def demo_login_answer_def
      demo_admin_request_def split_beta) (simp add: demo_http_call_def)

lemma demo_fresh_tables: "fresh_tables [\<lparr>pe_id = 6, pe_code = ''devices.view''\<rparr>]
    (snd (run_migrations demo_variables demo_dependencies demo_fresh))"
  by (simp add: run_migrations_def demo_dependencies_def fresh_tables_def demo_fresh_def demo_inventory_def
      empty_outbox_def)

lemma demo_vars: "demo_variables ''SNM_BOOTSTRAP_ORG_SLUG'' = Some ''acme''"
  "demo_variables ''SNM_BOOTSTRAP_ADMIN_EMAIL'' = Some ''Ana@acme.test''"
  "trim ''Ana@acme.test'' \<noteq> []"
  "demo_variables ''SNM_BOOTSTRAP_ADMIN_PASSWORD'' = Some ''correct horse''"
  by code_simp+

lemma demo_backend_laws: "argon2_laws (as_passwords (bk_auth demo_backend))" "token_laws (bk_auth demo_backend)"
  "audit_laws (ie_audit_ops demo_env)"
  "as_sql_lower (bk_auth demo_backend) (as_sql_lower (bk_auth demo_backend) t) = as_sql_lower (bk_auth demo_backend) t"
proof -
  show "argon2_laws (as_passwords (bk_auth demo_backend))"
    by (simp add: demo_backend_parts demo_admin_auth_def argon2_laws_def length_passwords_def length_phc_def)
  show "token_laws (bk_auth demo_backend)"
    using demo_auth_laws by (simp add: demo_backend_parts demo_admin_auth_def token_laws_def)
  show "audit_laws (ie_audit_ops demo_env)" by (rule demo_laws)
  show "as_sql_lower (bk_auth demo_backend) (as_sql_lower (bk_auth demo_backend) t) = as_sql_lower (bk_auth demo_backend) t"
    by (simp add: demo_backend_parts demo_admin_auth_def demo_auth_def str_simps)
qed

definition demo_page :: inventory_query where
  "demo_page = \<lparr>iq_search = None, iq_lifecycle = None, iq_device_type = None, iq_limit = 50, iq_offset = 0\<rparr>"

lemma demo_page_valid: "query_validate demo_page = Inr ()"
  by code_simp

lemma demo_admin_inv: "platform_inv demo_backend (fst demo_fresh_start)"
  using first_start [OF demo_start_result demo_fresh_tables demo_vars] by blast

lemma demo_inventory_laws: "audit_laws (ie_audit_ops (st_inventory (bk_state demo_backend)))"
  using demo_backend_laws(3) by (simp add: demo_backend_parts)


theorem logged_in_caller_is_served_witness:
  "\<exists>db3 a. handle demo_backend (demo_http_call 1500000000) demo_correlation
      (bearer_headers (response_token demo_admin_reply)) (DeviceRoute 21 (ListRequest demo_page)) demo_logged_in
      = (db3, Device_Reply a) \<and> re_status a = FORBIDDEN_403"
proof -
  obtain f where f: "families_of (pd_identity demo_logged_in) (dr_session_id (hc_draw (demo_http_call 1000000000))) = Some f"
    "fa_alive f"
    by (rule login_response [OF demo_admin_handled demo_admin_ok(1)]) blast
  have none: "\<not> site_permission_exists (pd_identity (fst demo_fresh_start)) org u p 21" for org u p
    using demo_started by (simp add: site_permission_exists_def demo_installed_def)
  have "\<exists>u \<in> set (db_users (pd_identity (fst demo_fresh_start))). named_user (bk_auth demo_backend) (pd_identity (fst demo_fresh_start))
      \<lparr>lr_organization_slug = ''acme'', lr_email = ''Ana@acme.test'', lr_password = ''correct horse''\<rparr> u
    \<and> password_fits (bk_auth demo_backend) \<lparr>lr_organization_slug = ''acme'', lr_email = ''Ana@acme.test'', lr_password = ''correct horse''\<rparr> u
    \<and> (\<exists>db3 a. handle demo_backend (demo_http_call 1500000000) demo_correlation (bearer_headers (response_token demo_admin_reply))
          (DeviceRoute 21 (ListRequest demo_page)) demo_logged_in = (db3, Device_Reply a)
        \<and> re_status a = (if site_permission_exists (pd_identity (fst demo_fresh_start)) (us_organization_id u) (us_id u)
             ''devices.view'' 21 then OK_200 else FORBIDDEN_403))"
    by (rule logged_in_caller_is_served [OF demo_start_result demo_backend_laws(2) demo_inventory_laws demo_admin_inv
          demo_admin_handled demo_admin_ok(1) demo_call_times(2) rtranclp.rtrancl_refl f demo_admin_ok(2)])
      (simp_all add: demo_call_times(1) demo_page_valid i64_max_def)
  then show ?thesis unfolding if_not_P [OF none] by blast
qed

theorem logout_locks_out_witness:
  "\<exists>db r db3. handle demo_backend (demo_http_call 1200000000) demo_correlation (browser_headers demo_admin_reply)
        LogoutRoute demo_logged_in = (db, Auth_Reply r) \<and> ar_status r = NO_CONTENT_204
    \<and> handle demo_backend (demo_http_call 1300000000) demo_correlation (bearer_headers (response_token demo_admin_reply))
          (DeviceRoute 20 (ListRequest demo_page)) db = (db3, Device_Reply (authorization_error_response AzInvalidSession))"
proof -
  let ?token = "response_token demo_admin_reply" and ?az = "st_authorization (bk_state demo_backend)"
  have keys: "shared_keys demo_backend" by (rule start_shares_keys [OF demo_start_result])
  have same: "az_access_key ?az = as_access_key demo_admin_auth" "az_issuer ?az = as_issuer demo_admin_auth"
    "az_audience ?az = as_audience demo_admin_auth"
    using keys by (simp_all add: shared_keys_def Let_def demo_backend_parts)
  obtain i r where out: "http_logout demo_admin_auth 1200000000 (browser_headers demo_admin_reply) (fst demo_login_answer) = Some (i, r)"
    "ar_status r = NO_CONTENT_204"
    using demo_session by (auto simp: split_beta split: option.splits)
  obtain f cookie where cookie: "families_of (fst demo_login_answer) 3 = Some f"
    "cookie_value (browser_headers demo_admin_reply) (refresh_cookie_name demo_admin_auth) = Some cookie"
    "hash_opaque_token demo_admin_auth cookie \<in> set (fa_tokens f)"
    using demo_session by (auto simp: split_beta split: option.splits)
  obtain t claims where t: "authorization_bearer_token (bearer_headers ?token) = Some t"
    "decode_access_token demo_admin_auth t (as_access_key demo_admin_auth) (unix_seconds 1300000000)
            (as_issuer demo_admin_auth) (as_audience demo_admin_auth) = Inr claims" "cl_sid claims = 3"
    using demo_session by (auto simp: split_beta split: option.splits sum.splits)
  let ?db = "demo_logged_in\<lparr>pd_identity := i\<rparr>"
  have logout: "handle demo_backend (demo_http_call 1200000000) demo_correlation (browser_headers demo_admin_reply)
      LogoutRoute demo_logged_in = (?db, Auth_Reply r)"
    using out(1) by (simp add: demo_backend_parts demo_call_times with_identity_def) (simp add: demo_logged_in_def with_identity_def)
  obtain db3 r3 where h: "handle demo_backend (demo_http_call 1300000000) demo_correlation (bearer_headers ?token)
      (DeviceRoute 20 (ListRequest demo_page)) ?db = (db3, r3)" by (metis prod.collapse)
  have inv: "platform_inv demo_backend demo_logged_in"
    using platform_step_keeps [OF demo_inventory_laws step_handled [OF demo_call_times(2) demo_admin_handled] demo_admin_inv] ..
  have held: "cookie_value (browser_headers demo_admin_reply) (refresh_cookie_name (bk_auth demo_backend)) = Some cookie"
    "families_of (pd_identity demo_logged_in) 3 = Some f" "hash_opaque_token (bk_auth demo_backend) cookie \<in> set (fa_tokens f)"
    using cookie by (simp_all add: demo_backend_parts demo_logged_in_def)
  have decoded: "decode_access_token ?az t (az_access_key ?az) (unix_seconds (hc_now (demo_http_call 1300000000)))
      (az_issuer ?az) (az_audience ?az) = Inr claims"
    using t(2) by (simp only: shared_decode [OF keys] demo_backend_parts same demo_call_times)
  have "r3 = Device_Reply (authorization_error_response AzInvalidSession)"
    by (rule logout_locks_out [OF demo_inventory_laws inv logout out(2) demo_call_times(2) held rtranclp.rtrancl_refl,
          THEN conjunct1, rule_format, OF conjI [OF refl conjI [OF t(1) conjI [OF decoded conjI [OF t(3) h]]]], THEN conjunct1])
  then show ?thesis using logout out(2) h by blast
qed

end
