(* ===== verification/Spec2Isabelle.thy ===== *)
theory Spec2Isabelle
  imports Redaction Execution Device_Domain Domain_Policies Rbac Token Factors Credential_Store
    Audit_Chain Outbox Identity_Db Sessions Auth_Http Authorization Startup Inventory_Store
    Inventory_Invariant Inventory_History Inventory_Observations Inventory_Query Telemetry
    Inventory_Api Utf8 Service_Accounts Service_History Outbox_Drain
    Backend Backend_Runs Backend_Login Backend_Install
begin

text \<open>
  Verification library for the Seven Network Manager, a control plane for network inventory: a
  backend over one Postgres database (\<open>apps/backend\<close>), a runtime that opens connections inside a
  site's network (\<open>apps/site-runtime\<close>) and the crates they share (\<open>crates\<close>).

  \<^bold>\<open>How the program is put together.\<close> A client logs in (\<open>auth.rs\<close>) and gets an access token for ten
  minutes and a refresh token that is exchanged, once, for the next pair. A device request
  (\<open>inventory_api.rs\<close>) presents the access token; \<open>authorization.rs\<close> decodes it, checks the session and
  the user, and asks the database whether a role bound to the user carries the permission on the site.
  What a request changes (\<open>inventory-store\<close>) it commits together with one event of the audit trail, a
  hash chain per organization (\<open>audit-store\<close>), and one event of the outbox (\<open>platform-events\<close>), which
  a dispatcher publishes later under leases, with retries and dead letters. Observations of the network
  reach the same inventory by reconciliation. Secrets lie encrypted under a key ring (\<open>vault.rs\<close>,
  \<open>security-store\<close>), machines authenticate as service accounts (\<open>identity-store\<close>), and the runtime
  accepts connection requests only with its token and, unless told otherwise, only to local addresses.

  \<^bold>\<open>Theories, in the order of their imports.\<close>
    \<^item> \<open>SNM_Prelude\<close>: \<open>Result\<close> as a sum with \<open>bindR\<close>, the functions of \<open>str\<close> the source uses, updates of
      rows, the machine integers, and the interfaces of the library. \<open>Utf8\<close>: bytes of a text as characters.
      \<open>Ip_Addr\<close>: the addresses of \<open>std::net\<close>.
    \<^item> \<open>Redaction\<close> (\<open>governance.rs\<close>, \<open>audit.rs\<close>, \<open>observability\<close>), \<open>Execution\<close> (\<open>domain/src/lib.rs\<close>,
      \<open>executor-core\<close>, \<open>site-runtime\<close>), \<open>Device_Domain\<close> (\<open>domain/src/inventory.rs\<close>), \<open>Domain_Policies\<close>
      (the other modules of the domain crate).
    \<^item> \<open>Rbac\<close>, \<open>Token\<close>, \<open>Factors\<close>, \<open>Vault\<close>: the security crate; \<open>Credential_Store\<close>: \<open>security-store\<close>.
    \<^item> \<open>Audit_Chain\<close>: \<open>audit.rs\<close> and \<open>audit-store\<close>. \<open>Outbox\<close>, \<open>Outbox_Drain\<close>: \<open>platform-events\<close>.
    \<^item> \<open>Identity_Db\<close>: the identity tables of the migrations. \<open>Sessions\<close>, \<open>Auth_Http\<close>: the service and the
      handlers of \<open>auth.rs\<close>. \<open>Authorization\<close>: \<open>authorization.rs\<close>. \<open>Service_Accounts\<close>,
      \<open>Service_History\<close>: \<open>identity-store\<close>.
    \<^item> \<open>Inventory_Store\<close>, \<open>Inventory_Invariant\<close>, \<open>Inventory_History\<close>, \<open>Inventory_Observations\<close>,
      \<open>Inventory_Query\<close>: \<open>inventory-store\<close>. \<open>Inventory_Api\<close>: \<open>inventory_api.rs\<close>.
    \<^item> \<open>Telemetry\<close>: configuration and correlation of \<open>observability\<close>, with the middleware of \<open>main.rs\<close>.
      \<open>Startup\<close>: \<open>config.rs\<close>, \<open>db.rs\<close> and the bootstraps. \<open>Backend\<close>, \<open>Backend_Runs\<close>, \<open>Backend_Login\<close>,
      \<open>Backend_Install\<close>: \<open>main.rs\<close> and what holds across its services.

  \<^bold>\<open>How code becomes definitions.\<close> A struct is a \<open>record\<close>, an enum a \<open>datatype\<close>, \<open>Result\<close> a sum whose left
  side is the error enum of the code, and a machine integer a word or an integer with its bounds
  written out. A table is a list of rows in a record; a transaction is a function from the tables to a
  sum, so that what rolls back is the unchanged argument; an operation that commits before it fails
  returns the tables with the result. Each SQL statement is the filter or the update it denotes, with
  the unique and foreign keys the code relies on. The clock, the random bytes and the identifiers an
  operation draws are its arguments, as is the order in which concurrent tasks end. A text is a
  list of bytes.

  \<^bold>\<open>Code that is not in the repository\<close> is a parameter: hashes, HMAC, AES-GCM, Argon2, base64, the JSON and
  UUID texts, \<open>ipnet\<close>, the lower case of the database, the publisher of the outbox, the network, the router of \<open>axum\<close>.
  A property that needs something of it says so in a named hypothesis (\<open>token_laws\<close>, \<open>audit_laws\<close>,
  \<open>vault_laws\<close>, \<open>argon2_laws\<close>, \<open>hmac_sha1_laws\<close>, \<open>service_laws\<close>, \<open>uuid_text_laws\<close>, \<open>cidr_laws\<close>), which its witness
  discharges for concrete functions. None of them states that a hash has no collisions: where that
  matters the conclusion exhibits the collision.

  \<^bold>\<open>Interfaces.\<close> \<open>string_codec\<close> (a parser that inverts \<open>as_str\<close>) is interpreted on the capabilities, the
  lifecycle and the device types; \<open>redactor\<close> on both redactors; \<open>scope_authorizer\<close> on the authorization of
  the security crate and on the SQL query of the backend, which gives their agreement;
  \<open>invariant_machine\<close> on the credential store; \<open>forward_machine\<close>, an invariant with a preorder no step goes back in, on
  the audit trail, the outbox, the sessions, the inventory, the service accounts and the backend as a whole.
  A step relation of such a machine interleaves the operations of the component in any order with any
  arguments, so its reachable states are those of concurrent transactions that the database serializes.

  \<^bold>\<open>What the groups of lemmas show.\<close>
    \<^item> Authorization: no request changes or shows devices without the permission of a live user on that site;
      the decision in SQL is that of the security crate; tokens round-trip exactly in their time window.
    \<^item> Sessions: refresh refines an abstract rotation of token families, a reused token ends its session,
      a logout is final on every route, and a login is honoured until then.
    \<^item> Audit and outbox: every reachable chain verifies and tampering shows as a hash collision; events are
      neither lost nor altered and are published at most once, a round settles what it claims, and
      repeated rounds empty the outbox.
    \<^item> Inventory: transactions keep the invariants of devices, identifiers, facts and the lifecycle log, which replays to
      the state; lost updates are refused; each commit is recorded once; a listing pages through exactly the matches.
    \<^item> Secrets and machines: active profiles stay resolvable, encryption round-trips under its associated
      data only, revoked credentials and disabled accounts stay out.
    \<^item> Start: configurations are bounded, and a fresh installation serves its administrator.

  \<^bold>\<open>Bounds and fuel.\<close> No definition takes fuel. Integers keep the width of the source where it matters:
  words in \<open>Execution\<close>, \<open>Domain_Policies\<close>, \<open>Ip_Addr\<close> and \<open>Factors\<close>; in the stores, integers with the range checks of
  the conversions. The repetition of dispatcher rounds in
  \<open>Outbox_Drain\<close> ends after as many rounds as the event with most attempts left has attempts, which is proved.

  \<^bold>\<open>Not modelled.\<close> The connections to Postgres and Redis (\<open>redis_state.rs\<close>) beyond whether they succeed, the listeners, the time limits of requests,
  the catching of panics and the signals of both \<open>main\<close> functions, and the exporters and spans of
  \<open>observability\<close> only call their libraries. The decoding of a request's path, query and body is the
  work of \<open>axum\<close> and \<open>serde\<close>: the model starts from the decoded values and has a branch for their refusal.
  The migrations are an argument of the start; the tables they leave are the records of the model.
  Postgres refuses a NUL byte in a text, which no model of a table does. The frontend, the container and workflow
  files and the Python scripts hold no logic of the control plane, and the tests are not translated.
\<close>

end
